theory Spec2Isabelle
  imports Main "HOL-Library.Word"
begin

unbundle bit_operations_syntax

section \<open>Machine types\<close>

type_synonym byte = "8 word"
type_synonym uint64 = "64 word"
type_synonym unsigned = "32 word"

section \<open>Integer codec\<close>

subsection \<open>lsqpack\_enc\_int\<close>

text \<open>
  The output buffer is a byte list; \<open>dst\<close> and \<open>dend\<close> (the source's \<open>end\<close>) are
  indices into it.  The loop returns a flag telling whether it ran out of room, together
  with the buffer as far as it has been written.
\<close>

function enc_int_loop :: "byte list \<Rightarrow> nat \<Rightarrow> nat \<Rightarrow> uint64 \<Rightarrow> bool \<times> byte list \<times> nat \<times> uint64" where
  "enc_int_loop buf dst dend val =
     (if 128 \<le> val then
        (if dst < dend
         then enc_int_loop (buf[dst := ucast (0x80 OR val)]) (dst + 1) dend (drop_bit 7 val)
         else (False, buf, dst, val))
      else (True, buf, dst, val))"
  by pat_completeness auto
termination
proof (relation "measure (\<lambda>(buf, dst, dend, val). unat val)")
  show "wf (measure (\<lambda>(buf, dst, dend, val). unat val))" by simp
next
  fix buf :: "byte list" and dst dend :: nat and val :: uint64
  assume "128 \<le> val"
  then have "128 \<le> unat val" by (simp add: word_le_nat_alt)
  moreover have "unat (drop_bit 7 val) = unat val div 128"
    unfolding unat_drop_bit_eq by (simp add: drop_bit_eq_div)
  ultimately have "unat (drop_bit 7 val) < unat val" by simp
  then show "((buf[dst := ucast (0x80 OR val)], dst + 1, dend, drop_bit 7 val), (buf, dst, dend, val))
      \<in> measure (\<lambda>(buf, dst, dend, val). unat val)" by simp
qed

declare enc_int_loop.simps [simp del]

text \<open>The value \<open>(1 << prefix_bits) - 1\<close>, computed in 32 bits and widened.\<close>

definition prefix_max :: "nat \<Rightarrow> unsigned" where
  "prefix_max prefix_bits = push_bit prefix_bits 1 - 1"

text \<open>
  \<open>None\<close> is the failed \<open>assert(dst < end)\<close>.  Otherwise the result is the buffer and
  the new write position; the position is the original \<open>dst\<close> when the buffer is too
  small (the bytes written before the shortage stay in the buffer, as in the source).
\<close>

definition lsqpack_enc_int :: "byte list \<Rightarrow> nat \<Rightarrow> nat \<Rightarrow> uint64 \<Rightarrow> nat \<Rightarrow> (byte list \<times> nat) option" where
  "lsqpack_enc_int buf dst dend val prefix_bits =
     (if \<not> dst < dend then None
      else if val < ucast (prefix_max prefix_bits)
      then Some (buf[dst := buf ! dst OR ucast val], dst + 1)
      else
        (let buf1 = buf[dst := buf ! dst OR ucast (prefix_max prefix_bits)];
             val1 = val - ucast (prefix_max prefix_bits)
         in case enc_int_loop buf1 (dst + 1) dend val1 of
              (False, buf2, dst2, val2) \<Rightarrow> Some (buf2, dst)
            | (True, buf2, dst2, val2) \<Rightarrow>
                if dst2 < dend then Some (buf2[dst2 := ucast val2], dst2 + 1)
                else Some (buf2, dst)))"

subsection \<open>lsqpack\_dec\_int\<close>

record lsqpack_dec_int_state =
  resume :: bool
  M :: unsigned
  nread :: unsigned
  val :: uint64

text \<open>
  Modelled from the spec: the constant \<open>LSQPACK_UINT64_ENC_SZ\<close> is declared in the
  header, which is not part of the sources at hand; the specification gives the limit
  as ten bytes read.
\<close>

definition LSQPACK_UINT64_ENC_SZ :: unsigned where
  "LSQPACK_UINT64_ENC_SZ = 10"

text \<open>The three return codes: 0 with the value and the rest of the input, -1 with the
  saved state, -2.\<close>

datatype dec_int_result =
    DEC_INT_OK uint64 "byte list"
  | DEC_INT_NEED lsqpack_dec_int_state
  | DEC_INT_OVERFLOW

fun dec_int_code :: "dec_int_result \<Rightarrow> int" where
  "dec_int_code (DEC_INT_OK v rest) = 0"
| "dec_int_code (DEC_INT_NEED st) = -1"
| "dec_int_code DEC_INT_OVERFLOW = -2"

text \<open>
  The \<open>do ... while (B & 0x80)\<close> loop.  \<open>k\<close> counts the bytes taken so far in this call
  (\<open>src - orig_src\<close>).  The shift \<open>(B & 0x7f) << M\<close> is on 64 bits; for \<open>M \<ge> 64\<close> C leaves
  it undefined and the model shifts every bit out.
\<close>

fun dec_int_loop :: "lsqpack_dec_int_state \<Rightarrow> nat \<Rightarrow> uint64 \<Rightarrow> unsigned \<Rightarrow> byte list \<Rightarrow> dec_int_result" where
  "dec_int_loop st k v m [] =
     (let n = (if resume st then nread st else 0) + of_nat k
      in if n < LSQPACK_UINT64_ENC_SZ
         then DEC_INT_NEED \<lparr>resume = True, M = m, nread = n, val = v\<rparr>
         else DEC_INT_OVERFLOW)"
| "dec_int_loop st k v m (B # src) =
     (let v' = v + push_bit (unat m) (ucast B AND 0x7f);
          m' = m + 7
      in if B AND 0x80 \<noteq> 0 then dec_int_loop st (k + 1) v' m' src
         else if m' \<le> 63 \<or> (m' = 70 \<and> B \<le> 1 \<and> v' AND push_bit 63 1 \<noteq> 0)
         then DEC_INT_OK v' src
         else DEC_INT_OVERFLOW)"

text \<open>
  The source assumes at least one byte of input; \<open>None\<close> is a call without any.
\<close>

fun lsqpack_dec_int :: "byte list \<Rightarrow> nat \<Rightarrow> lsqpack_dec_int_state \<Rightarrow> dec_int_result option" where
  "lsqpack_dec_int [] prefix_bits st = None"
| "lsqpack_dec_int (b # src) prefix_bits st =
     (if resume st then Some (dec_int_loop st 0 (val st) (M st) (b # src))
      else
        (let pm = (ucast (prefix_max prefix_bits) :: byte);
             v = ucast (b AND pm) :: uint64
         in if v < ucast pm then Some (DEC_INT_OK v src)
            else Some (dec_int_loop st 1 v 0 src)))"

text \<open>
  The continuation bytes that the loop of \<open>lsqpack_enc_int\<close> and its final store write
  for a value, as a list; used to state what the encoder has put into the buffer.
\<close>

function cont_bytes :: "uint64 \<Rightarrow> byte list" where
  "cont_bytes v = (if 128 \<le> v then ucast (0x80 OR v) # cont_bytes (drop_bit 7 v) else [ucast v])"
  by pat_completeness auto
termination
proof (relation "measure unat")
  show "wf (measure (unat :: uint64 \<Rightarrow> nat))" by simp
next
  fix v :: uint64
  assume "128 \<le> v"
  then have "128 \<le> unat v" by (simp add: word_le_nat_alt)
  moreover have "unat (drop_bit 7 v) = unat v div 128"
    unfolding unat_drop_bit_eq by (simp add: drop_bit_eq_div)
  ultimately have "unat (drop_bit 7 v) < unat v" by simp
  then show "(drop_bit 7 v, v) \<in> measure unat" by simp
qed

declare cont_bytes.simps [simp del]

text \<open>
  A caller that hands the decoder one byte per call, keeping the state between calls
  and stopping at the first call that does not ask for more input.
\<close>

fun dec_int_bytewise :: "nat \<Rightarrow> lsqpack_dec_int_state \<Rightarrow> byte list \<Rightarrow> dec_int_result option list" where
  "dec_int_bytewise prefix_bits st [] = []"
| "dec_int_bytewise prefix_bits st (b # bs) =
     (case lsqpack_dec_int [b] prefix_bits st of
        Some (DEC_INT_NEED st') \<Rightarrow> Some (DEC_INT_NEED st') # dec_int_bytewise prefix_bits st' bs
      | r \<Rightarrow> [r])"

text \<open>
  The number that a run of continuation bytes stands for: seven bits per byte, least
  significant group first, in unbounded arithmetic.
\<close>

fun cont_value :: "byte list \<Rightarrow> nat" where
  "cont_value [] = 0"
| "cont_value (b # bs) = unat (b AND 0x7f) + 128 * cont_value bs"

text \<open>
  The states that the decoder saves when the input runs out after the prefix byte and
  \<open>j\<close> continuation bytes: the shift count is \<open>7 * j\<close>, \<open>j + 1\<close> bytes have been read, and
  the value accumulated is below \<open>2^(7 * j) + 255\<close> (the prefix is at most 255, each
  continuation byte adds seven bits).
\<close>

definition dec_int_saved :: "lsqpack_dec_int_state \<Rightarrow> nat \<Rightarrow> bool" where
  "dec_int_saved st j =
     (resume st \<and> unat (M st) = 7 * j \<and> unat (nread st) = j + 1 \<and> unat (val st) < 2 ^ (7 * j) + 255)"


section \<open>Huffman codec\<close>

subsection \<open>Tables\<close>

text \<open>\<open>encode_table\<close>: for each of the 256 byte values and for EOS, the code and its
  length in bits (the fields \<open>code\<close> and \<open>bits\<close> of \<open>struct encode_el\<close>).\<close>

record encode_el =
  ee_code :: "32 word"
  ee_bits :: int

definition encode_table :: "encode_el list" where
  "encode_table = map (\<lambda>(c, b). \<lparr>ee_code = c, ee_bits = b\<rparr>) [
    (0x1ff8, 13), (0x7fffd8, 23), (0xfffffe2, 28), (0xfffffe3, 28),
    (0xfffffe4, 28), (0xfffffe5, 28), (0xfffffe6, 28), (0xfffffe7, 28),
    (0xfffffe8, 28), (0xffffea, 24), (0x3ffffffc, 30), (0xfffffe9, 28),
    (0xfffffea, 28), (0x3ffffffd, 30), (0xfffffeb, 28), (0xfffffec, 28),
    (0xfffffed, 28), (0xfffffee, 28), (0xfffffef, 28), (0xffffff0, 28),
    (0xffffff1, 28), (0xffffff2, 28), (0x3ffffffe, 30), (0xffffff3, 28),
    (0xffffff4, 28), (0xffffff5, 28), (0xffffff6, 28), (0xffffff7, 28),
    (0xffffff8, 28), (0xffffff9, 28), (0xffffffa, 28), (0xffffffb, 28),
    (0x14, 6), (0x3f8, 10), (0x3f9, 10), (0xffa, 12),
    (0x1ff9, 13), (0x15, 6), (0xf8, 8), (0x7fa, 11),
    (0x3fa, 10), (0x3fb, 10), (0xf9, 8), (0x7fb, 11),
    (0xfa, 8), (0x16, 6), (0x17, 6), (0x18, 6),
    (0x0, 5), (0x1, 5), (0x2, 5), (0x19, 6),
    (0x1a, 6), (0x1b, 6), (0x1c, 6), (0x1d, 6),
    (0x1e, 6), (0x1f, 6), (0x5c, 7), (0xfb, 8),
    (0x7ffc, 15), (0x20, 6), (0xffb, 12), (0x3fc, 10),
    (0x1ffa, 13), (0x21, 6), (0x5d, 7), (0x5e, 7),
    (0x5f, 7), (0x60, 7), (0x61, 7), (0x62, 7),
    (0x63, 7), (0x64, 7), (0x65, 7), (0x66, 7),
    (0x67, 7), (0x68, 7), (0x69, 7), (0x6a, 7),
    (0x6b, 7), (0x6c, 7), (0x6d, 7), (0x6e, 7),
    (0x6f, 7), (0x70, 7), (0x71, 7), (0x72, 7),
    (0xfc, 8), (0x73, 7), (0xfd, 8), (0x1ffb, 13),
    (0x7fff0, 19), (0x1ffc, 13), (0x3ffc, 14), (0x22, 6),
    (0x7ffd, 15), (0x3, 5), (0x23, 6), (0x4, 5),
    (0x24, 6), (0x5, 5), (0x25, 6), (0x26, 6),
    (0x27, 6), (0x6, 5), (0x74, 7), (0x75, 7),
    (0x28, 6), (0x29, 6), (0x2a, 6), (0x7, 5),
    (0x2b, 6), (0x76, 7), (0x2c, 6), (0x8, 5),
    (0x9, 5), (0x2d, 6), (0x77, 7), (0x78, 7),
    (0x79, 7), (0x7a, 7), (0x7b, 7), (0x7ffe, 15),
    (0x7fc, 11), (0x3ffd, 14), (0x1ffd, 13), (0xffffffc, 28),
    (0xfffe6, 20), (0x3fffd2, 22), (0xfffe7, 20), (0xfffe8, 20),
    (0x3fffd3, 22), (0x3fffd4, 22), (0x3fffd5, 22), (0x7fffd9, 23),
    (0x3fffd6, 22), (0x7fffda, 23), (0x7fffdb, 23), (0x7fffdc, 23),
    (0x7fffdd, 23), (0x7fffde, 23), (0xffffeb, 24), (0x7fffdf, 23),
    (0xffffec, 24), (0xffffed, 24), (0x3fffd7, 22), (0x7fffe0, 23),
    (0xffffee, 24), (0x7fffe1, 23), (0x7fffe2, 23), (0x7fffe3, 23),
    (0x7fffe4, 23), (0x1fffdc, 21), (0x3fffd8, 22), (0x7fffe5, 23),
    (0x3fffd9, 22), (0x7fffe6, 23), (0x7fffe7, 23), (0xffffef, 24),
    (0x3fffda, 22), (0x1fffdd, 21), (0xfffe9, 20), (0x3fffdb, 22),
    (0x3fffdc, 22), (0x7fffe8, 23), (0x7fffe9, 23), (0x1fffde, 21),
    (0x7fffea, 23), (0x3fffdd, 22), (0x3fffde, 22), (0xfffff0, 24),
    (0x1fffdf, 21), (0x3fffdf, 22), (0x7fffeb, 23), (0x7fffec, 23),
    (0x1fffe0, 21), (0x1fffe1, 21), (0x3fffe0, 22), (0x1fffe2, 21),
    (0x7fffed, 23), (0x3fffe1, 22), (0x7fffee, 23), (0x7fffef, 23),
    (0xfffea, 20), (0x3fffe2, 22), (0x3fffe3, 22), (0x3fffe4, 22),
    (0x7ffff0, 23), (0x3fffe5, 22), (0x3fffe6, 22), (0x7ffff1, 23),
    (0x3ffffe0, 26), (0x3ffffe1, 26), (0xfffeb, 20), (0x7fff1, 19),
    (0x3fffe7, 22), (0x7ffff2, 23), (0x3fffe8, 22), (0x1ffffec, 25),
    (0x3ffffe2, 26), (0x3ffffe3, 26), (0x3ffffe4, 26), (0x7ffffde, 27),
    (0x7ffffdf, 27), (0x3ffffe5, 26), (0xfffff1, 24), (0x1ffffed, 25),
    (0x7fff2, 19), (0x1fffe3, 21), (0x3ffffe6, 26), (0x7ffffe0, 27),
    (0x7ffffe1, 27), (0x3ffffe7, 26), (0x7ffffe2, 27), (0xfffff2, 24),
    (0x1fffe4, 21), (0x1fffe5, 21), (0x3ffffe8, 26), (0x3ffffe9, 26),
    (0xffffffd, 28), (0x7ffffe3, 27), (0x7ffffe4, 27), (0x7ffffe5, 27),
    (0xfffec, 20), (0xfffff3, 24), (0xfffed, 20), (0x1fffe6, 21),
    (0x3fffe9, 22), (0x1fffe7, 21), (0x1fffe8, 21), (0x7ffff3, 23),
    (0x3fffea, 22), (0x3fffeb, 22), (0x1ffffee, 25), (0x1ffffef, 25),
    (0xfffff4, 24), (0xfffff5, 24), (0x3ffffea, 26), (0x7ffff4, 23),
    (0x3ffffeb, 26), (0x7ffffe6, 27), (0x3ffffec, 26), (0x3ffffed, 26),
    (0x7ffffe7, 27), (0x7ffffe8, 27), (0x7ffffe9, 27), (0x7ffffea, 27),
    (0x7ffffeb, 27), (0xffffffe, 28), (0x7ffffec, 27), (0x7ffffed, 27),
    (0x7ffffee, 27), (0x7ffffef, 27), (0x7fffff0, 27), (0x3ffffee, 26),
    (0x3fffffff, 30)]"

text \<open>\<open>decode_tables\<close>: 256 states, 16 transitions each (one per 4-bit nibble); an
  element holds the next state, the flags and the symbol (the fields \<open>state\<close>, \<open>flags\<close>
  and \<open>sym\<close> of \<open>struct decode_el\<close>).  The rows are written down in eight blocks of 32
  states.\<close>

record decode_el =
  de_state :: byte
  de_flags :: byte
  de_sym :: byte

definition HPACK_HUFFMAN_FLAG_ACCEPTED :: byte where "HPACK_HUFFMAN_FLAG_ACCEPTED = 0x01"
definition HPACK_HUFFMAN_FLAG_SYM :: byte where "HPACK_HUFFMAN_FLAG_SYM = 0x02"
definition HPACK_HUFFMAN_FLAG_FAIL :: byte where "HPACK_HUFFMAN_FLAG_FAIL = 0x04"

definition decode_rows_0 :: "(nat \<times> nat \<times> nat) list list" where
  "decode_rows_0 = [
    [(4, 0, 0), (5, 0, 0), (7, 0, 0), (8, 0, 0), (11, 0, 0), (12, 0, 0), (16, 0, 0), (19, 0, 0),
     (25, 0, 0), (28, 0, 0), (32, 0, 0), (35, 0, 0), (42, 0, 0), (49, 0, 0), (57, 0, 0), (64, 1, 0)],
    [(0, 3, 48), (0, 3, 49), (0, 3, 50), (0, 3, 97), (0, 3, 99), (0, 3, 101), (0, 3, 105), (0, 3, 111),
     (0, 3, 115), (0, 3, 116), (13, 0, 0), (14, 0, 0), (17, 0, 0), (18, 0, 0), (20, 0, 0), (21, 0, 0)],
    [(1, 2, 48), (22, 3, 48), (1, 2, 49), (22, 3, 49), (1, 2, 50), (22, 3, 50), (1, 2, 97), (22, 3, 97),
     (1, 2, 99), (22, 3, 99), (1, 2, 101), (22, 3, 101), (1, 2, 105), (22, 3, 105), (1, 2, 111), (22, 3, 111)],
    [(2, 2, 48), (9, 2, 48), (23, 2, 48), (40, 3, 48), (2, 2, 49), (9, 2, 49), (23, 2, 49), (40, 3, 49),
     (2, 2, 50), (9, 2, 50), (23, 2, 50), (40, 3, 50), (2, 2, 97), (9, 2, 97), (23, 2, 97), (40, 3, 97)],
    [(3, 2, 48), (6, 2, 48), (10, 2, 48), (15, 2, 48), (24, 2, 48), (31, 2, 48), (41, 2, 48), (56, 3, 48),
     (3, 2, 49), (6, 2, 49), (10, 2, 49), (15, 2, 49), (24, 2, 49), (31, 2, 49), (41, 2, 49), (56, 3, 49)],
    [(3, 2, 50), (6, 2, 50), (10, 2, 50), (15, 2, 50), (24, 2, 50), (31, 2, 50), (41, 2, 50), (56, 3, 50),
     (3, 2, 97), (6, 2, 97), (10, 2, 97), (15, 2, 97), (24, 2, 97), (31, 2, 97), (41, 2, 97), (56, 3, 97)],
    [(2, 2, 99), (9, 2, 99), (23, 2, 99), (40, 3, 99), (2, 2, 101), (9, 2, 101), (23, 2, 101), (40, 3, 101),
     (2, 2, 105), (9, 2, 105), (23, 2, 105), (40, 3, 105), (2, 2, 111), (9, 2, 111), (23, 2, 111), (40, 3, 111)],
    [(3, 2, 99), (6, 2, 99), (10, 2, 99), (15, 2, 99), (24, 2, 99), (31, 2, 99), (41, 2, 99), (56, 3, 99),
     (3, 2, 101), (6, 2, 101), (10, 2, 101), (15, 2, 101), (24, 2, 101), (31, 2, 101), (41, 2, 101), (56, 3, 101)],
    [(3, 2, 105), (6, 2, 105), (10, 2, 105), (15, 2, 105), (24, 2, 105), (31, 2, 105), (41, 2, 105), (56, 3, 105),
     (3, 2, 111), (6, 2, 111), (10, 2, 111), (15, 2, 111), (24, 2, 111), (31, 2, 111), (41, 2, 111), (56, 3, 111)],
    [(1, 2, 115), (22, 3, 115), (1, 2, 116), (22, 3, 116), (0, 3, 32), (0, 3, 37), (0, 3, 45), (0, 3, 46),
     (0, 3, 47), (0, 3, 51), (0, 3, 52), (0, 3, 53), (0, 3, 54), (0, 3, 55), (0, 3, 56), (0, 3, 57)],
    [(2, 2, 115), (9, 2, 115), (23, 2, 115), (40, 3, 115), (2, 2, 116), (9, 2, 116), (23, 2, 116), (40, 3, 116),
     (1, 2, 32), (22, 3, 32), (1, 2, 37), (22, 3, 37), (1, 2, 45), (22, 3, 45), (1, 2, 46), (22, 3, 46)],
    [(3, 2, 115), (6, 2, 115), (10, 2, 115), (15, 2, 115), (24, 2, 115), (31, 2, 115), (41, 2, 115), (56, 3, 115),
     (3, 2, 116), (6, 2, 116), (10, 2, 116), (15, 2, 116), (24, 2, 116), (31, 2, 116), (41, 2, 116), (56, 3, 116)],
    [(2, 2, 32), (9, 2, 32), (23, 2, 32), (40, 3, 32), (2, 2, 37), (9, 2, 37), (23, 2, 37), (40, 3, 37),
     (2, 2, 45), (9, 2, 45), (23, 2, 45), (40, 3, 45), (2, 2, 46), (9, 2, 46), (23, 2, 46), (40, 3, 46)],
    [(3, 2, 32), (6, 2, 32), (10, 2, 32), (15, 2, 32), (24, 2, 32), (31, 2, 32), (41, 2, 32), (56, 3, 32),
     (3, 2, 37), (6, 2, 37), (10, 2, 37), (15, 2, 37), (24, 2, 37), (31, 2, 37), (41, 2, 37), (56, 3, 37)],
    [(3, 2, 45), (6, 2, 45), (10, 2, 45), (15, 2, 45), (24, 2, 45), (31, 2, 45), (41, 2, 45), (56, 3, 45),
     (3, 2, 46), (6, 2, 46), (10, 2, 46), (15, 2, 46), (24, 2, 46), (31, 2, 46), (41, 2, 46), (56, 3, 46)],
    [(1, 2, 47), (22, 3, 47), (1, 2, 51), (22, 3, 51), (1, 2, 52), (22, 3, 52), (1, 2, 53), (22, 3, 53),
     (1, 2, 54), (22, 3, 54), (1, 2, 55), (22, 3, 55), (1, 2, 56), (22, 3, 56), (1, 2, 57), (22, 3, 57)],
    [(2, 2, 47), (9, 2, 47), (23, 2, 47), (40, 3, 47), (2, 2, 51), (9, 2, 51), (23, 2, 51), (40, 3, 51),
     (2, 2, 52), (9, 2, 52), (23, 2, 52), (40, 3, 52), (2, 2, 53), (9, 2, 53), (23, 2, 53), (40, 3, 53)],
    [(3, 2, 47), (6, 2, 47), (10, 2, 47), (15, 2, 47), (24, 2, 47), (31, 2, 47), (41, 2, 47), (56, 3, 47),
     (3, 2, 51), (6, 2, 51), (10, 2, 51), (15, 2, 51), (24, 2, 51), (31, 2, 51), (41, 2, 51), (56, 3, 51)],
    [(3, 2, 52), (6, 2, 52), (10, 2, 52), (15, 2, 52), (24, 2, 52), (31, 2, 52), (41, 2, 52), (56, 3, 52),
     (3, 2, 53), (6, 2, 53), (10, 2, 53), (15, 2, 53), (24, 2, 53), (31, 2, 53), (41, 2, 53), (56, 3, 53)],
    [(2, 2, 54), (9, 2, 54), (23, 2, 54), (40, 3, 54), (2, 2, 55), (9, 2, 55), (23, 2, 55), (40, 3, 55),
     (2, 2, 56), (9, 2, 56), (23, 2, 56), (40, 3, 56), (2, 2, 57), (9, 2, 57), (23, 2, 57), (40, 3, 57)],
    [(3, 2, 54), (6, 2, 54), (10, 2, 54), (15, 2, 54), (24, 2, 54), (31, 2, 54), (41, 2, 54), (56, 3, 54),
     (3, 2, 55), (6, 2, 55), (10, 2, 55), (15, 2, 55), (24, 2, 55), (31, 2, 55), (41, 2, 55), (56, 3, 55)],
    [(3, 2, 56), (6, 2, 56), (10, 2, 56), (15, 2, 56), (24, 2, 56), (31, 2, 56), (41, 2, 56), (56, 3, 56),
     (3, 2, 57), (6, 2, 57), (10, 2, 57), (15, 2, 57), (24, 2, 57), (31, 2, 57), (41, 2, 57), (56, 3, 57)],
    [(26, 0, 0), (27, 0, 0), (29, 0, 0), (30, 0, 0), (33, 0, 0), (34, 0, 0), (36, 0, 0), (37, 0, 0),
     (43, 0, 0), (46, 0, 0), (50, 0, 0), (53, 0, 0), (58, 0, 0), (61, 0, 0), (65, 0, 0), (68, 1, 0)],
    [(0, 3, 61), (0, 3, 65), (0, 3, 95), (0, 3, 98), (0, 3, 100), (0, 3, 102), (0, 3, 103), (0, 3, 104),
     (0, 3, 108), (0, 3, 109), (0, 3, 110), (0, 3, 112), (0, 3, 114), (0, 3, 117), (38, 0, 0), (39, 0, 0)],
    [(1, 2, 61), (22, 3, 61), (1, 2, 65), (22, 3, 65), (1, 2, 95), (22, 3, 95), (1, 2, 98), (22, 3, 98),
     (1, 2, 100), (22, 3, 100), (1, 2, 102), (22, 3, 102), (1, 2, 103), (22, 3, 103), (1, 2, 104), (22, 3, 104)],
    [(2, 2, 61), (9, 2, 61), (23, 2, 61), (40, 3, 61), (2, 2, 65), (9, 2, 65), (23, 2, 65), (40, 3, 65),
     (2, 2, 95), (9, 2, 95), (23, 2, 95), (40, 3, 95), (2, 2, 98), (9, 2, 98), (23, 2, 98), (40, 3, 98)],
    [(3, 2, 61), (6, 2, 61), (10, 2, 61), (15, 2, 61), (24, 2, 61), (31, 2, 61), (41, 2, 61), (56, 3, 61),
     (3, 2, 65), (6, 2, 65), (10, 2, 65), (15, 2, 65), (24, 2, 65), (31, 2, 65), (41, 2, 65), (56, 3, 65)],
    [(3, 2, 95), (6, 2, 95), (10, 2, 95), (15, 2, 95), (24, 2, 95), (31, 2, 95), (41, 2, 95), (56, 3, 95),
     (3, 2, 98), (6, 2, 98), (10, 2, 98), (15, 2, 98), (24, 2, 98), (31, 2, 98), (41, 2, 98), (56, 3, 98)],
    [(2, 2, 100), (9, 2, 100), (23, 2, 100), (40, 3, 100), (2, 2, 102), (9, 2, 102), (23, 2, 102), (40, 3, 102),
     (2, 2, 103), (9, 2, 103), (23, 2, 103), (40, 3, 103), (2, 2, 104), (9, 2, 104), (23, 2, 104), (40, 3, 104)],
    [(3, 2, 100), (6, 2, 100), (10, 2, 100), (15, 2, 100), (24, 2, 100), (31, 2, 100), (41, 2, 100), (56, 3, 100),
     (3, 2, 102), (6, 2, 102), (10, 2, 102), (15, 2, 102), (24, 2, 102), (31, 2, 102), (41, 2, 102), (56, 3, 102)],
    [(3, 2, 103), (6, 2, 103), (10, 2, 103), (15, 2, 103), (24, 2, 103), (31, 2, 103), (41, 2, 103), (56, 3, 103),
     (3, 2, 104), (6, 2, 104), (10, 2, 104), (15, 2, 104), (24, 2, 104), (31, 2, 104), (41, 2, 104), (56, 3, 104)],
    [(1, 2, 108), (22, 3, 108), (1, 2, 109), (22, 3, 109), (1, 2, 110), (22, 3, 110), (1, 2, 112), (22, 3, 112),
     (1, 2, 114), (22, 3, 114), (1, 2, 117), (22, 3, 117), (0, 3, 58), (0, 3, 66), (0, 3, 67), (0, 3, 68)]]"

definition decode_rows_1 :: "(nat \<times> nat \<times> nat) list list" where
  "decode_rows_1 = [
    [(2, 2, 108), (9, 2, 108), (23, 2, 108), (40, 3, 108), (2, 2, 109), (9, 2, 109), (23, 2, 109), (40, 3, 109),
     (2, 2, 110), (9, 2, 110), (23, 2, 110), (40, 3, 110), (2, 2, 112), (9, 2, 112), (23, 2, 112), (40, 3, 112)],
    [(3, 2, 108), (6, 2, 108), (10, 2, 108), (15, 2, 108), (24, 2, 108), (31, 2, 108), (41, 2, 108), (56, 3, 108),
     (3, 2, 109), (6, 2, 109), (10, 2, 109), (15, 2, 109), (24, 2, 109), (31, 2, 109), (41, 2, 109), (56, 3, 109)],
    [(3, 2, 110), (6, 2, 110), (10, 2, 110), (15, 2, 110), (24, 2, 110), (31, 2, 110), (41, 2, 110), (56, 3, 110),
     (3, 2, 112), (6, 2, 112), (10, 2, 112), (15, 2, 112), (24, 2, 112), (31, 2, 112), (41, 2, 112), (56, 3, 112)],
    [(2, 2, 114), (9, 2, 114), (23, 2, 114), (40, 3, 114), (2, 2, 117), (9, 2, 117), (23, 2, 117), (40, 3, 117),
     (1, 2, 58), (22, 3, 58), (1, 2, 66), (22, 3, 66), (1, 2, 67), (22, 3, 67), (1, 2, 68), (22, 3, 68)],
    [(3, 2, 114), (6, 2, 114), (10, 2, 114), (15, 2, 114), (24, 2, 114), (31, 2, 114), (41, 2, 114), (56, 3, 114),
     (3, 2, 117), (6, 2, 117), (10, 2, 117), (15, 2, 117), (24, 2, 117), (31, 2, 117), (41, 2, 117), (56, 3, 117)],
    [(2, 2, 58), (9, 2, 58), (23, 2, 58), (40, 3, 58), (2, 2, 66), (9, 2, 66), (23, 2, 66), (40, 3, 66),
     (2, 2, 67), (9, 2, 67), (23, 2, 67), (40, 3, 67), (2, 2, 68), (9, 2, 68), (23, 2, 68), (40, 3, 68)],
    [(3, 2, 58), (6, 2, 58), (10, 2, 58), (15, 2, 58), (24, 2, 58), (31, 2, 58), (41, 2, 58), (56, 3, 58),
     (3, 2, 66), (6, 2, 66), (10, 2, 66), (15, 2, 66), (24, 2, 66), (31, 2, 66), (41, 2, 66), (56, 3, 66)],
    [(3, 2, 67), (6, 2, 67), (10, 2, 67), (15, 2, 67), (24, 2, 67), (31, 2, 67), (41, 2, 67), (56, 3, 67),
     (3, 2, 68), (6, 2, 68), (10, 2, 68), (15, 2, 68), (24, 2, 68), (31, 2, 68), (41, 2, 68), (56, 3, 68)],
    [(44, 0, 0), (45, 0, 0), (47, 0, 0), (48, 0, 0), (51, 0, 0), (52, 0, 0), (54, 0, 0), (55, 0, 0),
     (59, 0, 0), (60, 0, 0), (62, 0, 0), (63, 0, 0), (66, 0, 0), (67, 0, 0), (69, 0, 0), (72, 1, 0)],
    [(0, 3, 69), (0, 3, 70), (0, 3, 71), (0, 3, 72), (0, 3, 73), (0, 3, 74), (0, 3, 75), (0, 3, 76),
     (0, 3, 77), (0, 3, 78), (0, 3, 79), (0, 3, 80), (0, 3, 81), (0, 3, 82), (0, 3, 83), (0, 3, 84)],
    [(1, 2, 69), (22, 3, 69), (1, 2, 70), (22, 3, 70), (1, 2, 71), (22, 3, 71), (1, 2, 72), (22, 3, 72),
     (1, 2, 73), (22, 3, 73), (1, 2, 74), (22, 3, 74), (1, 2, 75), (22, 3, 75), (1, 2, 76), (22, 3, 76)],
    [(2, 2, 69), (9, 2, 69), (23, 2, 69), (40, 3, 69), (2, 2, 70), (9, 2, 70), (23, 2, 70), (40, 3, 70),
     (2, 2, 71), (9, 2, 71), (23, 2, 71), (40, 3, 71), (2, 2, 72), (9, 2, 72), (23, 2, 72), (40, 3, 72)],
    [(3, 2, 69), (6, 2, 69), (10, 2, 69), (15, 2, 69), (24, 2, 69), (31, 2, 69), (41, 2, 69), (56, 3, 69),
     (3, 2, 70), (6, 2, 70), (10, 2, 70), (15, 2, 70), (24, 2, 70), (31, 2, 70), (41, 2, 70), (56, 3, 70)],
    [(3, 2, 71), (6, 2, 71), (10, 2, 71), (15, 2, 71), (24, 2, 71), (31, 2, 71), (41, 2, 71), (56, 3, 71),
     (3, 2, 72), (6, 2, 72), (10, 2, 72), (15, 2, 72), (24, 2, 72), (31, 2, 72), (41, 2, 72), (56, 3, 72)],
    [(2, 2, 73), (9, 2, 73), (23, 2, 73), (40, 3, 73), (2, 2, 74), (9, 2, 74), (23, 2, 74), (40, 3, 74),
     (2, 2, 75), (9, 2, 75), (23, 2, 75), (40, 3, 75), (2, 2, 76), (9, 2, 76), (23, 2, 76), (40, 3, 76)],
    [(3, 2, 73), (6, 2, 73), (10, 2, 73), (15, 2, 73), (24, 2, 73), (31, 2, 73), (41, 2, 73), (56, 3, 73),
     (3, 2, 74), (6, 2, 74), (10, 2, 74), (15, 2, 74), (24, 2, 74), (31, 2, 74), (41, 2, 74), (56, 3, 74)],
    [(3, 2, 75), (6, 2, 75), (10, 2, 75), (15, 2, 75), (24, 2, 75), (31, 2, 75), (41, 2, 75), (56, 3, 75),
     (3, 2, 76), (6, 2, 76), (10, 2, 76), (15, 2, 76), (24, 2, 76), (31, 2, 76), (41, 2, 76), (56, 3, 76)],
    [(1, 2, 77), (22, 3, 77), (1, 2, 78), (22, 3, 78), (1, 2, 79), (22, 3, 79), (1, 2, 80), (22, 3, 80),
     (1, 2, 81), (22, 3, 81), (1, 2, 82), (22, 3, 82), (1, 2, 83), (22, 3, 83), (1, 2, 84), (22, 3, 84)],
    [(2, 2, 77), (9, 2, 77), (23, 2, 77), (40, 3, 77), (2, 2, 78), (9, 2, 78), (23, 2, 78), (40, 3, 78),
     (2, 2, 79), (9, 2, 79), (23, 2, 79), (40, 3, 79), (2, 2, 80), (9, 2, 80), (23, 2, 80), (40, 3, 80)],
    [(3, 2, 77), (6, 2, 77), (10, 2, 77), (15, 2, 77), (24, 2, 77), (31, 2, 77), (41, 2, 77), (56, 3, 77),
     (3, 2, 78), (6, 2, 78), (10, 2, 78), (15, 2, 78), (24, 2, 78), (31, 2, 78), (41, 2, 78), (56, 3, 78)],
    [(3, 2, 79), (6, 2, 79), (10, 2, 79), (15, 2, 79), (24, 2, 79), (31, 2, 79), (41, 2, 79), (56, 3, 79),
     (3, 2, 80), (6, 2, 80), (10, 2, 80), (15, 2, 80), (24, 2, 80), (31, 2, 80), (41, 2, 80), (56, 3, 80)],
    [(2, 2, 81), (9, 2, 81), (23, 2, 81), (40, 3, 81), (2, 2, 82), (9, 2, 82), (23, 2, 82), (40, 3, 82),
     (2, 2, 83), (9, 2, 83), (23, 2, 83), (40, 3, 83), (2, 2, 84), (9, 2, 84), (23, 2, 84), (40, 3, 84)],
    [(3, 2, 81), (6, 2, 81), (10, 2, 81), (15, 2, 81), (24, 2, 81), (31, 2, 81), (41, 2, 81), (56, 3, 81),
     (3, 2, 82), (6, 2, 82), (10, 2, 82), (15, 2, 82), (24, 2, 82), (31, 2, 82), (41, 2, 82), (56, 3, 82)],
    [(3, 2, 83), (6, 2, 83), (10, 2, 83), (15, 2, 83), (24, 2, 83), (31, 2, 83), (41, 2, 83), (56, 3, 83),
     (3, 2, 84), (6, 2, 84), (10, 2, 84), (15, 2, 84), (24, 2, 84), (31, 2, 84), (41, 2, 84), (56, 3, 84)],
    [(0, 3, 85), (0, 3, 86), (0, 3, 87), (0, 3, 89), (0, 3, 106), (0, 3, 107), (0, 3, 113), (0, 3, 118),
     (0, 3, 119), (0, 3, 120), (0, 3, 121), (0, 3, 122), (70, 0, 0), (71, 0, 0), (73, 0, 0), (74, 1, 0)],
    [(1, 2, 85), (22, 3, 85), (1, 2, 86), (22, 3, 86), (1, 2, 87), (22, 3, 87), (1, 2, 89), (22, 3, 89),
     (1, 2, 106), (22, 3, 106), (1, 2, 107), (22, 3, 107), (1, 2, 113), (22, 3, 113), (1, 2, 118), (22, 3, 118)],
    [(2, 2, 85), (9, 2, 85), (23, 2, 85), (40, 3, 85), (2, 2, 86), (9, 2, 86), (23, 2, 86), (40, 3, 86),
     (2, 2, 87), (9, 2, 87), (23, 2, 87), (40, 3, 87), (2, 2, 89), (9, 2, 89), (23, 2, 89), (40, 3, 89)],
    [(3, 2, 85), (6, 2, 85), (10, 2, 85), (15, 2, 85), (24, 2, 85), (31, 2, 85), (41, 2, 85), (56, 3, 85),
     (3, 2, 86), (6, 2, 86), (10, 2, 86), (15, 2, 86), (24, 2, 86), (31, 2, 86), (41, 2, 86), (56, 3, 86)],
    [(3, 2, 87), (6, 2, 87), (10, 2, 87), (15, 2, 87), (24, 2, 87), (31, 2, 87), (41, 2, 87), (56, 3, 87),
     (3, 2, 89), (6, 2, 89), (10, 2, 89), (15, 2, 89), (24, 2, 89), (31, 2, 89), (41, 2, 89), (56, 3, 89)],
    [(2, 2, 106), (9, 2, 106), (23, 2, 106), (40, 3, 106), (2, 2, 107), (9, 2, 107), (23, 2, 107), (40, 3, 107),
     (2, 2, 113), (9, 2, 113), (23, 2, 113), (40, 3, 113), (2, 2, 118), (9, 2, 118), (23, 2, 118), (40, 3, 118)],
    [(3, 2, 106), (6, 2, 106), (10, 2, 106), (15, 2, 106), (24, 2, 106), (31, 2, 106), (41, 2, 106), (56, 3, 106),
     (3, 2, 107), (6, 2, 107), (10, 2, 107), (15, 2, 107), (24, 2, 107), (31, 2, 107), (41, 2, 107), (56, 3, 107)],
    [(3, 2, 113), (6, 2, 113), (10, 2, 113), (15, 2, 113), (24, 2, 113), (31, 2, 113), (41, 2, 113), (56, 3, 113),
     (3, 2, 118), (6, 2, 118), (10, 2, 118), (15, 2, 118), (24, 2, 118), (31, 2, 118), (41, 2, 118), (56, 3, 118)]]"

definition decode_rows_2 :: "(nat \<times> nat \<times> nat) list list" where
  "decode_rows_2 = [
    [(1, 2, 119), (22, 3, 119), (1, 2, 120), (22, 3, 120), (1, 2, 121), (22, 3, 121), (1, 2, 122), (22, 3, 122),
     (0, 3, 38), (0, 3, 42), (0, 3, 44), (0, 3, 59), (0, 3, 88), (0, 3, 90), (75, 0, 0), (78, 0, 0)],
    [(2, 2, 119), (9, 2, 119), (23, 2, 119), (40, 3, 119), (2, 2, 120), (9, 2, 120), (23, 2, 120), (40, 3, 120),
     (2, 2, 121), (9, 2, 121), (23, 2, 121), (40, 3, 121), (2, 2, 122), (9, 2, 122), (23, 2, 122), (40, 3, 122)],
    [(3, 2, 119), (6, 2, 119), (10, 2, 119), (15, 2, 119), (24, 2, 119), (31, 2, 119), (41, 2, 119), (56, 3, 119),
     (3, 2, 120), (6, 2, 120), (10, 2, 120), (15, 2, 120), (24, 2, 120), (31, 2, 120), (41, 2, 120), (56, 3, 120)],
    [(3, 2, 121), (6, 2, 121), (10, 2, 121), (15, 2, 121), (24, 2, 121), (31, 2, 121), (41, 2, 121), (56, 3, 121),
     (3, 2, 122), (6, 2, 122), (10, 2, 122), (15, 2, 122), (24, 2, 122), (31, 2, 122), (41, 2, 122), (56, 3, 122)],
    [(1, 2, 38), (22, 3, 38), (1, 2, 42), (22, 3, 42), (1, 2, 44), (22, 3, 44), (1, 2, 59), (22, 3, 59),
     (1, 2, 88), (22, 3, 88), (1, 2, 90), (22, 3, 90), (76, 0, 0), (77, 0, 0), (79, 0, 0), (81, 0, 0)],
    [(2, 2, 38), (9, 2, 38), (23, 2, 38), (40, 3, 38), (2, 2, 42), (9, 2, 42), (23, 2, 42), (40, 3, 42),
     (2, 2, 44), (9, 2, 44), (23, 2, 44), (40, 3, 44), (2, 2, 59), (9, 2, 59), (23, 2, 59), (40, 3, 59)],
    [(3, 2, 38), (6, 2, 38), (10, 2, 38), (15, 2, 38), (24, 2, 38), (31, 2, 38), (41, 2, 38), (56, 3, 38),
     (3, 2, 42), (6, 2, 42), (10, 2, 42), (15, 2, 42), (24, 2, 42), (31, 2, 42), (41, 2, 42), (56, 3, 42)],
    [(3, 2, 44), (6, 2, 44), (10, 2, 44), (15, 2, 44), (24, 2, 44), (31, 2, 44), (41, 2, 44), (56, 3, 44),
     (3, 2, 59), (6, 2, 59), (10, 2, 59), (15, 2, 59), (24, 2, 59), (31, 2, 59), (41, 2, 59), (56, 3, 59)],
    [(2, 2, 88), (9, 2, 88), (23, 2, 88), (40, 3, 88), (2, 2, 90), (9, 2, 90), (23, 2, 90), (40, 3, 90),
     (0, 3, 33), (0, 3, 34), (0, 3, 40), (0, 3, 41), (0, 3, 63), (80, 0, 0), (82, 0, 0), (84, 0, 0)],
    [(3, 2, 88), (6, 2, 88), (10, 2, 88), (15, 2, 88), (24, 2, 88), (31, 2, 88), (41, 2, 88), (56, 3, 88),
     (3, 2, 90), (6, 2, 90), (10, 2, 90), (15, 2, 90), (24, 2, 90), (31, 2, 90), (41, 2, 90), (56, 3, 90)],
    [(1, 2, 33), (22, 3, 33), (1, 2, 34), (22, 3, 34), (1, 2, 40), (22, 3, 40), (1, 2, 41), (22, 3, 41),
     (1, 2, 63), (22, 3, 63), (0, 3, 39), (0, 3, 43), (0, 3, 124), (83, 0, 0), (85, 0, 0), (88, 0, 0)],
    [(2, 2, 33), (9, 2, 33), (23, 2, 33), (40, 3, 33), (2, 2, 34), (9, 2, 34), (23, 2, 34), (40, 3, 34),
     (2, 2, 40), (9, 2, 40), (23, 2, 40), (40, 3, 40), (2, 2, 41), (9, 2, 41), (23, 2, 41), (40, 3, 41)],
    [(3, 2, 33), (6, 2, 33), (10, 2, 33), (15, 2, 33), (24, 2, 33), (31, 2, 33), (41, 2, 33), (56, 3, 33),
     (3, 2, 34), (6, 2, 34), (10, 2, 34), (15, 2, 34), (24, 2, 34), (31, 2, 34), (41, 2, 34), (56, 3, 34)],
    [(3, 2, 40), (6, 2, 40), (10, 2, 40), (15, 2, 40), (24, 2, 40), (31, 2, 40), (41, 2, 40), (56, 3, 40),
     (3, 2, 41), (6, 2, 41), (10, 2, 41), (15, 2, 41), (24, 2, 41), (31, 2, 41), (41, 2, 41), (56, 3, 41)],
    [(2, 2, 63), (9, 2, 63), (23, 2, 63), (40, 3, 63), (1, 2, 39), (22, 3, 39), (1, 2, 43), (22, 3, 43),
     (1, 2, 124), (22, 3, 124), (0, 3, 35), (0, 3, 62), (86, 0, 0), (87, 0, 0), (89, 0, 0), (90, 0, 0)],
    [(3, 2, 63), (6, 2, 63), (10, 2, 63), (15, 2, 63), (24, 2, 63), (31, 2, 63), (41, 2, 63), (56, 3, 63),
     (2, 2, 39), (9, 2, 39), (23, 2, 39), (40, 3, 39), (2, 2, 43), (9, 2, 43), (23, 2, 43), (40, 3, 43)],
    [(3, 2, 39), (6, 2, 39), (10, 2, 39), (15, 2, 39), (24, 2, 39), (31, 2, 39), (41, 2, 39), (56, 3, 39),
     (3, 2, 43), (6, 2, 43), (10, 2, 43), (15, 2, 43), (24, 2, 43), (31, 2, 43), (41, 2, 43), (56, 3, 43)],
    [(2, 2, 124), (9, 2, 124), (23, 2, 124), (40, 3, 124), (1, 2, 35), (22, 3, 35), (1, 2, 62), (22, 3, 62),
     (0, 3, 0), (0, 3, 36), (0, 3, 64), (0, 3, 91), (0, 3, 93), (0, 3, 126), (91, 0, 0), (92, 0, 0)],
    [(3, 2, 124), (6, 2, 124), (10, 2, 124), (15, 2, 124), (24, 2, 124), (31, 2, 124), (41, 2, 124), (56, 3, 124),
     (2, 2, 35), (9, 2, 35), (23, 2, 35), (40, 3, 35), (2, 2, 62), (9, 2, 62), (23, 2, 62), (40, 3, 62)],
    [(3, 2, 35), (6, 2, 35), (10, 2, 35), (15, 2, 35), (24, 2, 35), (31, 2, 35), (41, 2, 35), (56, 3, 35),
     (3, 2, 62), (6, 2, 62), (10, 2, 62), (15, 2, 62), (24, 2, 62), (31, 2, 62), (41, 2, 62), (56, 3, 62)],
    [(1, 2, 0), (22, 3, 0), (1, 2, 36), (22, 3, 36), (1, 2, 64), (22, 3, 64), (1, 2, 91), (22, 3, 91),
     (1, 2, 93), (22, 3, 93), (1, 2, 126), (22, 3, 126), (0, 3, 94), (0, 3, 125), (93, 0, 0), (94, 0, 0)],
    [(2, 2, 0), (9, 2, 0), (23, 2, 0), (40, 3, 0), (2, 2, 36), (9, 2, 36), (23, 2, 36), (40, 3, 36),
     (2, 2, 64), (9, 2, 64), (23, 2, 64), (40, 3, 64), (2, 2, 91), (9, 2, 91), (23, 2, 91), (40, 3, 91)],
    [(3, 2, 0), (6, 2, 0), (10, 2, 0), (15, 2, 0), (24, 2, 0), (31, 2, 0), (41, 2, 0), (56, 3, 0),
     (3, 2, 36), (6, 2, 36), (10, 2, 36), (15, 2, 36), (24, 2, 36), (31, 2, 36), (41, 2, 36), (56, 3, 36)],
    [(3, 2, 64), (6, 2, 64), (10, 2, 64), (15, 2, 64), (24, 2, 64), (31, 2, 64), (41, 2, 64), (56, 3, 64),
     (3, 2, 91), (6, 2, 91), (10, 2, 91), (15, 2, 91), (24, 2, 91), (31, 2, 91), (41, 2, 91), (56, 3, 91)],
    [(2, 2, 93), (9, 2, 93), (23, 2, 93), (40, 3, 93), (2, 2, 126), (9, 2, 126), (23, 2, 126), (40, 3, 126),
     (1, 2, 94), (22, 3, 94), (1, 2, 125), (22, 3, 125), (0, 3, 60), (0, 3, 96), (0, 3, 123), (95, 0, 0)],
    [(3, 2, 93), (6, 2, 93), (10, 2, 93), (15, 2, 93), (24, 2, 93), (31, 2, 93), (41, 2, 93), (56, 3, 93),
     (3, 2, 126), (6, 2, 126), (10, 2, 126), (15, 2, 126), (24, 2, 126), (31, 2, 126), (41, 2, 126), (56, 3, 126)],
    [(2, 2, 94), (9, 2, 94), (23, 2, 94), (40, 3, 94), (2, 2, 125), (9, 2, 125), (23, 2, 125), (40, 3, 125),
     (1, 2, 60), (22, 3, 60), (1, 2, 96), (22, 3, 96), (1, 2, 123), (22, 3, 123), (96, 0, 0), (110, 0, 0)],
    [(3, 2, 94), (6, 2, 94), (10, 2, 94), (15, 2, 94), (24, 2, 94), (31, 2, 94), (41, 2, 94), (56, 3, 94),
     (3, 2, 125), (6, 2, 125), (10, 2, 125), (15, 2, 125), (24, 2, 125), (31, 2, 125), (41, 2, 125), (56, 3, 125)],
    [(2, 2, 60), (9, 2, 60), (23, 2, 60), (40, 3, 60), (2, 2, 96), (9, 2, 96), (23, 2, 96), (40, 3, 96),
     (2, 2, 123), (9, 2, 123), (23, 2, 123), (40, 3, 123), (97, 0, 0), (101, 0, 0), (111, 0, 0), (133, 0, 0)],
    [(3, 2, 60), (6, 2, 60), (10, 2, 60), (15, 2, 60), (24, 2, 60), (31, 2, 60), (41, 2, 60), (56, 3, 60),
     (3, 2, 96), (6, 2, 96), (10, 2, 96), (15, 2, 96), (24, 2, 96), (31, 2, 96), (41, 2, 96), (56, 3, 96)],
    [(3, 2, 123), (6, 2, 123), (10, 2, 123), (15, 2, 123), (24, 2, 123), (31, 2, 123), (41, 2, 123), (56, 3, 123),
     (98, 0, 0), (99, 0, 0), (102, 0, 0), (105, 0, 0), (112, 0, 0), (119, 0, 0), (134, 0, 0), (153, 0, 0)],
    [(0, 3, 92), (0, 3, 195), (0, 3, 208), (100, 0, 0), (103, 0, 0), (104, 0, 0), (106, 0, 0), (107, 0, 0),
     (113, 0, 0), (116, 0, 0), (120, 0, 0), (126, 0, 0), (135, 0, 0), (142, 0, 0), (154, 0, 0), (169, 0, 0)]]"

definition decode_rows_3 :: "(nat \<times> nat \<times> nat) list list" where
  "decode_rows_3 = [
    [(1, 2, 92), (22, 3, 92), (1, 2, 195), (22, 3, 195), (1, 2, 208), (22, 3, 208), (0, 3, 128), (0, 3, 130),
     (0, 3, 131), (0, 3, 162), (0, 3, 184), (0, 3, 194), (0, 3, 224), (0, 3, 226), (108, 0, 0), (109, 0, 0)],
    [(2, 2, 92), (9, 2, 92), (23, 2, 92), (40, 3, 92), (2, 2, 195), (9, 2, 195), (23, 2, 195), (40, 3, 195),
     (2, 2, 208), (9, 2, 208), (23, 2, 208), (40, 3, 208), (1, 2, 128), (22, 3, 128), (1, 2, 130), (22, 3, 130)],
    [(3, 2, 92), (6, 2, 92), (10, 2, 92), (15, 2, 92), (24, 2, 92), (31, 2, 92), (41, 2, 92), (56, 3, 92),
     (3, 2, 195), (6, 2, 195), (10, 2, 195), (15, 2, 195), (24, 2, 195), (31, 2, 195), (41, 2, 195), (56, 3, 195)],
    [(3, 2, 208), (6, 2, 208), (10, 2, 208), (15, 2, 208), (24, 2, 208), (31, 2, 208), (41, 2, 208), (56, 3, 208),
     (2, 2, 128), (9, 2, 128), (23, 2, 128), (40, 3, 128), (2, 2, 130), (9, 2, 130), (23, 2, 130), (40, 3, 130)],
    [(3, 2, 128), (6, 2, 128), (10, 2, 128), (15, 2, 128), (24, 2, 128), (31, 2, 128), (41, 2, 128), (56, 3, 128),
     (3, 2, 130), (6, 2, 130), (10, 2, 130), (15, 2, 130), (24, 2, 130), (31, 2, 130), (41, 2, 130), (56, 3, 130)],
    [(1, 2, 131), (22, 3, 131), (1, 2, 162), (22, 3, 162), (1, 2, 184), (22, 3, 184), (1, 2, 194), (22, 3, 194),
     (1, 2, 224), (22, 3, 224), (1, 2, 226), (22, 3, 226), (0, 3, 153), (0, 3, 161), (0, 3, 167), (0, 3, 172)],
    [(2, 2, 131), (9, 2, 131), (23, 2, 131), (40, 3, 131), (2, 2, 162), (9, 2, 162), (23, 2, 162), (40, 3, 162),
     (2, 2, 184), (9, 2, 184), (23, 2, 184), (40, 3, 184), (2, 2, 194), (9, 2, 194), (23, 2, 194), (40, 3, 194)],
    [(3, 2, 131), (6, 2, 131), (10, 2, 131), (15, 2, 131), (24, 2, 131), (31, 2, 131), (41, 2, 131), (56, 3, 131),
     (3, 2, 162), (6, 2, 162), (10, 2, 162), (15, 2, 162), (24, 2, 162), (31, 2, 162), (41, 2, 162), (56, 3, 162)],
    [(3, 2, 184), (6, 2, 184), (10, 2, 184), (15, 2, 184), (24, 2, 184), (31, 2, 184), (41, 2, 184), (56, 3, 184),
     (3, 2, 194), (6, 2, 194), (10, 2, 194), (15, 2, 194), (24, 2, 194), (31, 2, 194), (41, 2, 194), (56, 3, 194)],
    [(2, 2, 224), (9, 2, 224), (23, 2, 224), (40, 3, 224), (2, 2, 226), (9, 2, 226), (23, 2, 226), (40, 3, 226),
     (1, 2, 153), (22, 3, 153), (1, 2, 161), (22, 3, 161), (1, 2, 167), (22, 3, 167), (1, 2, 172), (22, 3, 172)],
    [(3, 2, 224), (6, 2, 224), (10, 2, 224), (15, 2, 224), (24, 2, 224), (31, 2, 224), (41, 2, 224), (56, 3, 224),
     (3, 2, 226), (6, 2, 226), (10, 2, 226), (15, 2, 226), (24, 2, 226), (31, 2, 226), (41, 2, 226), (56, 3, 226)],
    [(2, 2, 153), (9, 2, 153), (23, 2, 153), (40, 3, 153), (2, 2, 161), (9, 2, 161), (23, 2, 161), (40, 3, 161),
     (2, 2, 167), (9, 2, 167), (23, 2, 167), (40, 3, 167), (2, 2, 172), (9, 2, 172), (23, 2, 172), (40, 3, 172)],
    [(3, 2, 153), (6, 2, 153), (10, 2, 153), (15, 2, 153), (24, 2, 153), (31, 2, 153), (41, 2, 153), (56, 3, 153),
     (3, 2, 161), (6, 2, 161), (10, 2, 161), (15, 2, 161), (24, 2, 161), (31, 2, 161), (41, 2, 161), (56, 3, 161)],
    [(3, 2, 167), (6, 2, 167), (10, 2, 167), (15, 2, 167), (24, 2, 167), (31, 2, 167), (41, 2, 167), (56, 3, 167),
     (3, 2, 172), (6, 2, 172), (10, 2, 172), (15, 2, 172), (24, 2, 172), (31, 2, 172), (41, 2, 172), (56, 3, 172)],
    [(114, 0, 0), (115, 0, 0), (117, 0, 0), (118, 0, 0), (121, 0, 0), (123, 0, 0), (127, 0, 0), (130, 0, 0),
     (136, 0, 0), (139, 0, 0), (143, 0, 0), (146, 0, 0), (155, 0, 0), (162, 0, 0), (170, 0, 0), (180, 0, 0)],
    [(0, 3, 176), (0, 3, 177), (0, 3, 179), (0, 3, 209), (0, 3, 216), (0, 3, 217), (0, 3, 227), (0, 3, 229),
     (0, 3, 230), (122, 0, 0), (124, 0, 0), (125, 0, 0), (128, 0, 0), (129, 0, 0), (131, 0, 0), (132, 0, 0)],
    [(1, 2, 176), (22, 3, 176), (1, 2, 177), (22, 3, 177), (1, 2, 179), (22, 3, 179), (1, 2, 209), (22, 3, 209),
     (1, 2, 216), (22, 3, 216), (1, 2, 217), (22, 3, 217), (1, 2, 227), (22, 3, 227), (1, 2, 229), (22, 3, 229)],
    [(2, 2, 176), (9, 2, 176), (23, 2, 176), (40, 3, 176), (2, 2, 177), (9, 2, 177), (23, 2, 177), (40, 3, 177),
     (2, 2, 179), (9, 2, 179), (23, 2, 179), (40, 3, 179), (2, 2, 209), (9, 2, 209), (23, 2, 209), (40, 3, 209)],
    [(3, 2, 176), (6, 2, 176), (10, 2, 176), (15, 2, 176), (24, 2, 176), (31, 2, 176), (41, 2, 176), (56, 3, 176),
     (3, 2, 177), (6, 2, 177), (10, 2, 177), (15, 2, 177), (24, 2, 177), (31, 2, 177), (41, 2, 177), (56, 3, 177)],
    [(3, 2, 179), (6, 2, 179), (10, 2, 179), (15, 2, 179), (24, 2, 179), (31, 2, 179), (41, 2, 179), (56, 3, 179),
     (3, 2, 209), (6, 2, 209), (10, 2, 209), (15, 2, 209), (24, 2, 209), (31, 2, 209), (41, 2, 209), (56, 3, 209)],
    [(2, 2, 216), (9, 2, 216), (23, 2, 216), (40, 3, 216), (2, 2, 217), (9, 2, 217), (23, 2, 217), (40, 3, 217),
     (2, 2, 227), (9, 2, 227), (23, 2, 227), (40, 3, 227), (2, 2, 229), (9, 2, 229), (23, 2, 229), (40, 3, 229)],
    [(3, 2, 216), (6, 2, 216), (10, 2, 216), (15, 2, 216), (24, 2, 216), (31, 2, 216), (41, 2, 216), (56, 3, 216),
     (3, 2, 217), (6, 2, 217), (10, 2, 217), (15, 2, 217), (24, 2, 217), (31, 2, 217), (41, 2, 217), (56, 3, 217)],
    [(3, 2, 227), (6, 2, 227), (10, 2, 227), (15, 2, 227), (24, 2, 227), (31, 2, 227), (41, 2, 227), (56, 3, 227),
     (3, 2, 229), (6, 2, 229), (10, 2, 229), (15, 2, 229), (24, 2, 229), (31, 2, 229), (41, 2, 229), (56, 3, 229)],
    [(1, 2, 230), (22, 3, 230), (0, 3, 129), (0, 3, 132), (0, 3, 133), (0, 3, 134), (0, 3, 136), (0, 3, 146),
     (0, 3, 154), (0, 3, 156), (0, 3, 160), (0, 3, 163), (0, 3, 164), (0, 3, 169), (0, 3, 170), (0, 3, 173)],
    [(2, 2, 230), (9, 2, 230), (23, 2, 230), (40, 3, 230), (1, 2, 129), (22, 3, 129), (1, 2, 132), (22, 3, 132),
     (1, 2, 133), (22, 3, 133), (1, 2, 134), (22, 3, 134), (1, 2, 136), (22, 3, 136), (1, 2, 146), (22, 3, 146)],
    [(3, 2, 230), (6, 2, 230), (10, 2, 230), (15, 2, 230), (24, 2, 230), (31, 2, 230), (41, 2, 230), (56, 3, 230),
     (2, 2, 129), (9, 2, 129), (23, 2, 129), (40, 3, 129), (2, 2, 132), (9, 2, 132), (23, 2, 132), (40, 3, 132)],
    [(3, 2, 129), (6, 2, 129), (10, 2, 129), (15, 2, 129), (24, 2, 129), (31, 2, 129), (41, 2, 129), (56, 3, 129),
     (3, 2, 132), (6, 2, 132), (10, 2, 132), (15, 2, 132), (24, 2, 132), (31, 2, 132), (41, 2, 132), (56, 3, 132)],
    [(2, 2, 133), (9, 2, 133), (23, 2, 133), (40, 3, 133), (2, 2, 134), (9, 2, 134), (23, 2, 134), (40, 3, 134),
     (2, 2, 136), (9, 2, 136), (23, 2, 136), (40, 3, 136), (2, 2, 146), (9, 2, 146), (23, 2, 146), (40, 3, 146)],
    [(3, 2, 133), (6, 2, 133), (10, 2, 133), (15, 2, 133), (24, 2, 133), (31, 2, 133), (41, 2, 133), (56, 3, 133),
     (3, 2, 134), (6, 2, 134), (10, 2, 134), (15, 2, 134), (24, 2, 134), (31, 2, 134), (41, 2, 134), (56, 3, 134)],
    [(3, 2, 136), (6, 2, 136), (10, 2, 136), (15, 2, 136), (24, 2, 136), (31, 2, 136), (41, 2, 136), (56, 3, 136),
     (3, 2, 146), (6, 2, 146), (10, 2, 146), (15, 2, 146), (24, 2, 146), (31, 2, 146), (41, 2, 146), (56, 3, 146)],
    [(1, 2, 154), (22, 3, 154), (1, 2, 156), (22, 3, 156), (1, 2, 160), (22, 3, 160), (1, 2, 163), (22, 3, 163),
     (1, 2, 164), (22, 3, 164), (1, 2, 169), (22, 3, 169), (1, 2, 170), (22, 3, 170), (1, 2, 173), (22, 3, 173)],
    [(2, 2, 154), (9, 2, 154), (23, 2, 154), (40, 3, 154), (2, 2, 156), (9, 2, 156), (23, 2, 156), (40, 3, 156),
     (2, 2, 160), (9, 2, 160), (23, 2, 160), (40, 3, 160), (2, 2, 163), (9, 2, 163), (23, 2, 163), (40, 3, 163)]]"

definition decode_rows_4 :: "(nat \<times> nat \<times> nat) list list" where
  "decode_rows_4 = [
    [(3, 2, 154), (6, 2, 154), (10, 2, 154), (15, 2, 154), (24, 2, 154), (31, 2, 154), (41, 2, 154), (56, 3, 154),
     (3, 2, 156), (6, 2, 156), (10, 2, 156), (15, 2, 156), (24, 2, 156), (31, 2, 156), (41, 2, 156), (56, 3, 156)],
    [(3, 2, 160), (6, 2, 160), (10, 2, 160), (15, 2, 160), (24, 2, 160), (31, 2, 160), (41, 2, 160), (56, 3, 160),
     (3, 2, 163), (6, 2, 163), (10, 2, 163), (15, 2, 163), (24, 2, 163), (31, 2, 163), (41, 2, 163), (56, 3, 163)],
    [(2, 2, 164), (9, 2, 164), (23, 2, 164), (40, 3, 164), (2, 2, 169), (9, 2, 169), (23, 2, 169), (40, 3, 169),
     (2, 2, 170), (9, 2, 170), (23, 2, 170), (40, 3, 170), (2, 2, 173), (9, 2, 173), (23, 2, 173), (40, 3, 173)],
    [(3, 2, 164), (6, 2, 164), (10, 2, 164), (15, 2, 164), (24, 2, 164), (31, 2, 164), (41, 2, 164), (56, 3, 164),
     (3, 2, 169), (6, 2, 169), (10, 2, 169), (15, 2, 169), (24, 2, 169), (31, 2, 169), (41, 2, 169), (56, 3, 169)],
    [(3, 2, 170), (6, 2, 170), (10, 2, 170), (15, 2, 170), (24, 2, 170), (31, 2, 170), (41, 2, 170), (56, 3, 170),
     (3, 2, 173), (6, 2, 173), (10, 2, 173), (15, 2, 173), (24, 2, 173), (31, 2, 173), (41, 2, 173), (56, 3, 173)],
    [(137, 0, 0), (138, 0, 0), (140, 0, 0), (141, 0, 0), (144, 0, 0), (145, 0, 0), (147, 0, 0), (150, 0, 0),
     (156, 0, 0), (159, 0, 0), (163, 0, 0), (166, 0, 0), (171, 0, 0), (174, 0, 0), (181, 0, 0), (190, 0, 0)],
    [(0, 3, 178), (0, 3, 181), (0, 3, 185), (0, 3, 186), (0, 3, 187), (0, 3, 189), (0, 3, 190), (0, 3, 196),
     (0, 3, 198), (0, 3, 228), (0, 3, 232), (0, 3, 233), (148, 0, 0), (149, 0, 0), (151, 0, 0), (152, 0, 0)],
    [(1, 2, 178), (22, 3, 178), (1, 2, 181), (22, 3, 181), (1, 2, 185), (22, 3, 185), (1, 2, 186), (22, 3, 186),
     (1, 2, 187), (22, 3, 187), (1, 2, 189), (22, 3, 189), (1, 2, 190), (22, 3, 190), (1, 2, 196), (22, 3, 196)],
    [(2, 2, 178), (9, 2, 178), (23, 2, 178), (40, 3, 178), (2, 2, 181), (9, 2, 181), (23, 2, 181), (40, 3, 181),
     (2, 2, 185), (9, 2, 185), (23, 2, 185), (40, 3, 185), (2, 2, 186), (9, 2, 186), (23, 2, 186), (40, 3, 186)],
    [(3, 2, 178), (6, 2, 178), (10, 2, 178), (15, 2, 178), (24, 2, 178), (31, 2, 178), (41, 2, 178), (56, 3, 178),
     (3, 2, 181), (6, 2, 181), (10, 2, 181), (15, 2, 181), (24, 2, 181), (31, 2, 181), (41, 2, 181), (56, 3, 181)],
    [(3, 2, 185), (6, 2, 185), (10, 2, 185), (15, 2, 185), (24, 2, 185), (31, 2, 185), (41, 2, 185), (56, 3, 185),
     (3, 2, 186), (6, 2, 186), (10, 2, 186), (15, 2, 186), (24, 2, 186), (31, 2, 186), (41, 2, 186), (56, 3, 186)],
    [(2, 2, 187), (9, 2, 187), (23, 2, 187), (40, 3, 187), (2, 2, 189), (9, 2, 189), (23, 2, 189), (40, 3, 189),
     (2, 2, 190), (9, 2, 190), (23, 2, 190), (40, 3, 190), (2, 2, 196), (9, 2, 196), (23, 2, 196), (40, 3, 196)],
    [(3, 2, 187), (6, 2, 187), (10, 2, 187), (15, 2, 187), (24, 2, 187), (31, 2, 187), (41, 2, 187), (56, 3, 187),
     (3, 2, 189), (6, 2, 189), (10, 2, 189), (15, 2, 189), (24, 2, 189), (31, 2, 189), (41, 2, 189), (56, 3, 189)],
    [(3, 2, 190), (6, 2, 190), (10, 2, 190), (15, 2, 190), (24, 2, 190), (31, 2, 190), (41, 2, 190), (56, 3, 190),
     (3, 2, 196), (6, 2, 196), (10, 2, 196), (15, 2, 196), (24, 2, 196), (31, 2, 196), (41, 2, 196), (56, 3, 196)],
    [(1, 2, 198), (22, 3, 198), (1, 2, 228), (22, 3, 228), (1, 2, 232), (22, 3, 232), (1, 2, 233), (22, 3, 233),
     (0, 3, 1), (0, 3, 135), (0, 3, 137), (0, 3, 138), (0, 3, 139), (0, 3, 140), (0, 3, 141), (0, 3, 143)],
    [(2, 2, 198), (9, 2, 198), (23, 2, 198), (40, 3, 198), (2, 2, 228), (9, 2, 228), (23, 2, 228), (40, 3, 228),
     (2, 2, 232), (9, 2, 232), (23, 2, 232), (40, 3, 232), (2, 2, 233), (9, 2, 233), (23, 2, 233), (40, 3, 233)],
    [(3, 2, 198), (6, 2, 198), (10, 2, 198), (15, 2, 198), (24, 2, 198), (31, 2, 198), (41, 2, 198), (56, 3, 198),
     (3, 2, 228), (6, 2, 228), (10, 2, 228), (15, 2, 228), (24, 2, 228), (31, 2, 228), (41, 2, 228), (56, 3, 228)],
    [(3, 2, 232), (6, 2, 232), (10, 2, 232), (15, 2, 232), (24, 2, 232), (31, 2, 232), (41, 2, 232), (56, 3, 232),
     (3, 2, 233), (6, 2, 233), (10, 2, 233), (15, 2, 233), (24, 2, 233), (31, 2, 233), (41, 2, 233), (56, 3, 233)],
    [(1, 2, 1), (22, 3, 1), (1, 2, 135), (22, 3, 135), (1, 2, 137), (22, 3, 137), (1, 2, 138), (22, 3, 138),
     (1, 2, 139), (22, 3, 139), (1, 2, 140), (22, 3, 140), (1, 2, 141), (22, 3, 141), (1, 2, 143), (22, 3, 143)],
    [(2, 2, 1), (9, 2, 1), (23, 2, 1), (40, 3, 1), (2, 2, 135), (9, 2, 135), (23, 2, 135), (40, 3, 135),
     (2, 2, 137), (9, 2, 137), (23, 2, 137), (40, 3, 137), (2, 2, 138), (9, 2, 138), (23, 2, 138), (40, 3, 138)],
    [(3, 2, 1), (6, 2, 1), (10, 2, 1), (15, 2, 1), (24, 2, 1), (31, 2, 1), (41, 2, 1), (56, 3, 1),
     (3, 2, 135), (6, 2, 135), (10, 2, 135), (15, 2, 135), (24, 2, 135), (31, 2, 135), (41, 2, 135), (56, 3, 135)],
    [(3, 2, 137), (6, 2, 137), (10, 2, 137), (15, 2, 137), (24, 2, 137), (31, 2, 137), (41, 2, 137), (56, 3, 137),
     (3, 2, 138), (6, 2, 138), (10, 2, 138), (15, 2, 138), (24, 2, 138), (31, 2, 138), (41, 2, 138), (56, 3, 138)],
    [(2, 2, 139), (9, 2, 139), (23, 2, 139), (40, 3, 139), (2, 2, 140), (9, 2, 140), (23, 2, 140), (40, 3, 140),
     (2, 2, 141), (9, 2, 141), (23, 2, 141), (40, 3, 141), (2, 2, 143), (9, 2, 143), (23, 2, 143), (40, 3, 143)],
    [(3, 2, 139), (6, 2, 139), (10, 2, 139), (15, 2, 139), (24, 2, 139), (31, 2, 139), (41, 2, 139), (56, 3, 139),
     (3, 2, 140), (6, 2, 140), (10, 2, 140), (15, 2, 140), (24, 2, 140), (31, 2, 140), (41, 2, 140), (56, 3, 140)],
    [(3, 2, 141), (6, 2, 141), (10, 2, 141), (15, 2, 141), (24, 2, 141), (31, 2, 141), (41, 2, 141), (56, 3, 141),
     (3, 2, 143), (6, 2, 143), (10, 2, 143), (15, 2, 143), (24, 2, 143), (31, 2, 143), (41, 2, 143), (56, 3, 143)],
    [(157, 0, 0), (158, 0, 0), (160, 0, 0), (161, 0, 0), (164, 0, 0), (165, 0, 0), (167, 0, 0), (168, 0, 0),
     (172, 0, 0), (173, 0, 0), (175, 0, 0), (177, 0, 0), (182, 0, 0), (185, 0, 0), (191, 0, 0), (207, 0, 0)],
    [(0, 3, 147), (0, 3, 149), (0, 3, 150), (0, 3, 151), (0, 3, 152), (0, 3, 155), (0, 3, 157), (0, 3, 158),
     (0, 3, 165), (0, 3, 166), (0, 3, 168), (0, 3, 174), (0, 3, 175), (0, 3, 180), (0, 3, 182), (0, 3, 183)],
    [(1, 2, 147), (22, 3, 147), (1, 2, 149), (22, 3, 149), (1, 2, 150), (22, 3, 150), (1, 2, 151), (22, 3, 151),
     (1, 2, 152), (22, 3, 152), (1, 2, 155), (22, 3, 155), (1, 2, 157), (22, 3, 157), (1, 2, 158), (22, 3, 158)],
    [(2, 2, 147), (9, 2, 147), (23, 2, 147), (40, 3, 147), (2, 2, 149), (9, 2, 149), (23, 2, 149), (40, 3, 149),
     (2, 2, 150), (9, 2, 150), (23, 2, 150), (40, 3, 150), (2, 2, 151), (9, 2, 151), (23, 2, 151), (40, 3, 151)],
    [(3, 2, 147), (6, 2, 147), (10, 2, 147), (15, 2, 147), (24, 2, 147), (31, 2, 147), (41, 2, 147), (56, 3, 147),
     (3, 2, 149), (6, 2, 149), (10, 2, 149), (15, 2, 149), (24, 2, 149), (31, 2, 149), (41, 2, 149), (56, 3, 149)],
    [(3, 2, 150), (6, 2, 150), (10, 2, 150), (15, 2, 150), (24, 2, 150), (31, 2, 150), (41, 2, 150), (56, 3, 150),
     (3, 2, 151), (6, 2, 151), (10, 2, 151), (15, 2, 151), (24, 2, 151), (31, 2, 151), (41, 2, 151), (56, 3, 151)],
    [(2, 2, 152), (9, 2, 152), (23, 2, 152), (40, 3, 152), (2, 2, 155), (9, 2, 155), (23, 2, 155), (40, 3, 155),
     (2, 2, 157), (9, 2, 157), (23, 2, 157), (40, 3, 157), (2, 2, 158), (9, 2, 158), (23, 2, 158), (40, 3, 158)]]"

definition decode_rows_5 :: "(nat \<times> nat \<times> nat) list list" where
  "decode_rows_5 = [
    [(3, 2, 152), (6, 2, 152), (10, 2, 152), (15, 2, 152), (24, 2, 152), (31, 2, 152), (41, 2, 152), (56, 3, 152),
     (3, 2, 155), (6, 2, 155), (10, 2, 155), (15, 2, 155), (24, 2, 155), (31, 2, 155), (41, 2, 155), (56, 3, 155)],
    [(3, 2, 157), (6, 2, 157), (10, 2, 157), (15, 2, 157), (24, 2, 157), (31, 2, 157), (41, 2, 157), (56, 3, 157),
     (3, 2, 158), (6, 2, 158), (10, 2, 158), (15, 2, 158), (24, 2, 158), (31, 2, 158), (41, 2, 158), (56, 3, 158)],
    [(1, 2, 165), (22, 3, 165), (1, 2, 166), (22, 3, 166), (1, 2, 168), (22, 3, 168), (1, 2, 174), (22, 3, 174),
     (1, 2, 175), (22, 3, 175), (1, 2, 180), (22, 3, 180), (1, 2, 182), (22, 3, 182), (1, 2, 183), (22, 3, 183)],
    [(2, 2, 165), (9, 2, 165), (23, 2, 165), (40, 3, 165), (2, 2, 166), (9, 2, 166), (23, 2, 166), (40, 3, 166),
     (2, 2, 168), (9, 2, 168), (23, 2, 168), (40, 3, 168), (2, 2, 174), (9, 2, 174), (23, 2, 174), (40, 3, 174)],
    [(3, 2, 165), (6, 2, 165), (10, 2, 165), (15, 2, 165), (24, 2, 165), (31, 2, 165), (41, 2, 165), (56, 3, 165),
     (3, 2, 166), (6, 2, 166), (10, 2, 166), (15, 2, 166), (24, 2, 166), (31, 2, 166), (41, 2, 166), (56, 3, 166)],
    [(3, 2, 168), (6, 2, 168), (10, 2, 168), (15, 2, 168), (24, 2, 168), (31, 2, 168), (41, 2, 168), (56, 3, 168),
     (3, 2, 174), (6, 2, 174), (10, 2, 174), (15, 2, 174), (24, 2, 174), (31, 2, 174), (41, 2, 174), (56, 3, 174)],
    [(2, 2, 175), (9, 2, 175), (23, 2, 175), (40, 3, 175), (2, 2, 180), (9, 2, 180), (23, 2, 180), (40, 3, 180),
     (2, 2, 182), (9, 2, 182), (23, 2, 182), (40, 3, 182), (2, 2, 183), (9, 2, 183), (23, 2, 183), (40, 3, 183)],
    [(3, 2, 175), (6, 2, 175), (10, 2, 175), (15, 2, 175), (24, 2, 175), (31, 2, 175), (41, 2, 175), (56, 3, 175),
     (3, 2, 180), (6, 2, 180), (10, 2, 180), (15, 2, 180), (24, 2, 180), (31, 2, 180), (41, 2, 180), (56, 3, 180)],
    [(3, 2, 182), (6, 2, 182), (10, 2, 182), (15, 2, 182), (24, 2, 182), (31, 2, 182), (41, 2, 182), (56, 3, 182),
     (3, 2, 183), (6, 2, 183), (10, 2, 183), (15, 2, 183), (24, 2, 183), (31, 2, 183), (41, 2, 183), (56, 3, 183)],
    [(0, 3, 188), (0, 3, 191), (0, 3, 197), (0, 3, 231), (0, 3, 239), (176, 0, 0), (178, 0, 0), (179, 0, 0),
     (183, 0, 0), (184, 0, 0), (186, 0, 0), (187, 0, 0), (192, 0, 0), (199, 0, 0), (208, 0, 0), (223, 0, 0)],
    [(1, 2, 188), (22, 3, 188), (1, 2, 191), (22, 3, 191), (1, 2, 197), (22, 3, 197), (1, 2, 231), (22, 3, 231),
     (1, 2, 239), (22, 3, 239), (0, 3, 9), (0, 3, 142), (0, 3, 144), (0, 3, 145), (0, 3, 148), (0, 3, 159)],
    [(2, 2, 188), (9, 2, 188), (23, 2, 188), (40, 3, 188), (2, 2, 191), (9, 2, 191), (23, 2, 191), (40, 3, 191),
     (2, 2, 197), (9, 2, 197), (23, 2, 197), (40, 3, 197), (2, 2, 231), (9, 2, 231), (23, 2, 231), (40, 3, 231)],
    [(3, 2, 188), (6, 2, 188), (10, 2, 188), (15, 2, 188), (24, 2, 188), (31, 2, 188), (41, 2, 188), (56, 3, 188),
     (3, 2, 191), (6, 2, 191), (10, 2, 191), (15, 2, 191), (24, 2, 191), (31, 2, 191), (41, 2, 191), (56, 3, 191)],
    [(3, 2, 197), (6, 2, 197), (10, 2, 197), (15, 2, 197), (24, 2, 197), (31, 2, 197), (41, 2, 197), (56, 3, 197),
     (3, 2, 231), (6, 2, 231), (10, 2, 231), (15, 2, 231), (24, 2, 231), (31, 2, 231), (41, 2, 231), (56, 3, 231)],
    [(2, 2, 239), (9, 2, 239), (23, 2, 239), (40, 3, 239), (1, 2, 9), (22, 3, 9), (1, 2, 142), (22, 3, 142),
     (1, 2, 144), (22, 3, 144), (1, 2, 145), (22, 3, 145), (1, 2, 148), (22, 3, 148), (1, 2, 159), (22, 3, 159)],
    [(3, 2, 239), (6, 2, 239), (10, 2, 239), (15, 2, 239), (24, 2, 239), (31, 2, 239), (41, 2, 239), (56, 3, 239),
     (2, 2, 9), (9, 2, 9), (23, 2, 9), (40, 3, 9), (2, 2, 142), (9, 2, 142), (23, 2, 142), (40, 3, 142)],
    [(3, 2, 9), (6, 2, 9), (10, 2, 9), (15, 2, 9), (24, 2, 9), (31, 2, 9), (41, 2, 9), (56, 3, 9),
     (3, 2, 142), (6, 2, 142), (10, 2, 142), (15, 2, 142), (24, 2, 142), (31, 2, 142), (41, 2, 142), (56, 3, 142)],
    [(2, 2, 144), (9, 2, 144), (23, 2, 144), (40, 3, 144), (2, 2, 145), (9, 2, 145), (23, 2, 145), (40, 3, 145),
     (2, 2, 148), (9, 2, 148), (23, 2, 148), (40, 3, 148), (2, 2, 159), (9, 2, 159), (23, 2, 159), (40, 3, 159)],
    [(3, 2, 144), (6, 2, 144), (10, 2, 144), (15, 2, 144), (24, 2, 144), (31, 2, 144), (41, 2, 144), (56, 3, 144),
     (3, 2, 145), (6, 2, 145), (10, 2, 145), (15, 2, 145), (24, 2, 145), (31, 2, 145), (41, 2, 145), (56, 3, 145)],
    [(3, 2, 148), (6, 2, 148), (10, 2, 148), (15, 2, 148), (24, 2, 148), (31, 2, 148), (41, 2, 148), (56, 3, 148),
     (3, 2, 159), (6, 2, 159), (10, 2, 159), (15, 2, 159), (24, 2, 159), (31, 2, 159), (41, 2, 159), (56, 3, 159)],
    [(0, 3, 171), (0, 3, 206), (0, 3, 215), (0, 3, 225), (0, 3, 236), (0, 3, 237), (188, 0, 0), (189, 0, 0),
     (193, 0, 0), (196, 0, 0), (200, 0, 0), (203, 0, 0), (209, 0, 0), (216, 0, 0), (224, 0, 0), (238, 0, 0)],
    [(1, 2, 171), (22, 3, 171), (1, 2, 206), (22, 3, 206), (1, 2, 215), (22, 3, 215), (1, 2, 225), (22, 3, 225),
     (1, 2, 236), (22, 3, 236), (1, 2, 237), (22, 3, 237), (0, 3, 199), (0, 3, 207), (0, 3, 234), (0, 3, 235)],
    [(2, 2, 171), (9, 2, 171), (23, 2, 171), (40, 3, 171), (2, 2, 206), (9, 2, 206), (23, 2, 206), (40, 3, 206),
     (2, 2, 215), (9, 2, 215), (23, 2, 215), (40, 3, 215), (2, 2, 225), (9, 2, 225), (23, 2, 225), (40, 3, 225)],
    [(3, 2, 171), (6, 2, 171), (10, 2, 171), (15, 2, 171), (24, 2, 171), (31, 2, 171), (41, 2, 171), (56, 3, 171),
     (3, 2, 206), (6, 2, 206), (10, 2, 206), (15, 2, 206), (24, 2, 206), (31, 2, 206), (41, 2, 206), (56, 3, 206)],
    [(3, 2, 215), (6, 2, 215), (10, 2, 215), (15, 2, 215), (24, 2, 215), (31, 2, 215), (41, 2, 215), (56, 3, 215),
     (3, 2, 225), (6, 2, 225), (10, 2, 225), (15, 2, 225), (24, 2, 225), (31, 2, 225), (41, 2, 225), (56, 3, 225)],
    [(2, 2, 236), (9, 2, 236), (23, 2, 236), (40, 3, 236), (2, 2, 237), (9, 2, 237), (23, 2, 237), (40, 3, 237),
     (1, 2, 199), (22, 3, 199), (1, 2, 207), (22, 3, 207), (1, 2, 234), (22, 3, 234), (1, 2, 235), (22, 3, 235)],
    [(3, 2, 236), (6, 2, 236), (10, 2, 236), (15, 2, 236), (24, 2, 236), (31, 2, 236), (41, 2, 236), (56, 3, 236),
     (3, 2, 237), (6, 2, 237), (10, 2, 237), (15, 2, 237), (24, 2, 237), (31, 2, 237), (41, 2, 237), (56, 3, 237)],
    [(2, 2, 199), (9, 2, 199), (23, 2, 199), (40, 3, 199), (2, 2, 207), (9, 2, 207), (23, 2, 207), (40, 3, 207),
     (2, 2, 234), (9, 2, 234), (23, 2, 234), (40, 3, 234), (2, 2, 235), (9, 2, 235), (23, 2, 235), (40, 3, 235)],
    [(3, 2, 199), (6, 2, 199), (10, 2, 199), (15, 2, 199), (24, 2, 199), (31, 2, 199), (41, 2, 199), (56, 3, 199),
     (3, 2, 207), (6, 2, 207), (10, 2, 207), (15, 2, 207), (24, 2, 207), (31, 2, 207), (41, 2, 207), (56, 3, 207)],
    [(3, 2, 234), (6, 2, 234), (10, 2, 234), (15, 2, 234), (24, 2, 234), (31, 2, 234), (41, 2, 234), (56, 3, 234),
     (3, 2, 235), (6, 2, 235), (10, 2, 235), (15, 2, 235), (24, 2, 235), (31, 2, 235), (41, 2, 235), (56, 3, 235)],
    [(194, 0, 0), (195, 0, 0), (197, 0, 0), (198, 0, 0), (201, 0, 0), (202, 0, 0), (204, 0, 0), (205, 0, 0),
     (210, 0, 0), (213, 0, 0), (217, 0, 0), (220, 0, 0), (225, 0, 0), (231, 0, 0), (239, 0, 0), (246, 0, 0)],
    [(0, 3, 192), (0, 3, 193), (0, 3, 200), (0, 3, 201), (0, 3, 202), (0, 3, 205), (0, 3, 210), (0, 3, 213),
     (0, 3, 218), (0, 3, 219), (0, 3, 238), (0, 3, 240), (0, 3, 242), (0, 3, 243), (0, 3, 255), (206, 0, 0)]]"

definition decode_rows_6 :: "(nat \<times> nat \<times> nat) list list" where
  "decode_rows_6 = [
    [(1, 2, 192), (22, 3, 192), (1, 2, 193), (22, 3, 193), (1, 2, 200), (22, 3, 200), (1, 2, 201), (22, 3, 201),
     (1, 2, 202), (22, 3, 202), (1, 2, 205), (22, 3, 205), (1, 2, 210), (22, 3, 210), (1, 2, 213), (22, 3, 213)],
    [(2, 2, 192), (9, 2, 192), (23, 2, 192), (40, 3, 192), (2, 2, 193), (9, 2, 193), (23, 2, 193), (40, 3, 193),
     (2, 2, 200), (9, 2, 200), (23, 2, 200), (40, 3, 200), (2, 2, 201), (9, 2, 201), (23, 2, 201), (40, 3, 201)],
    [(3, 2, 192), (6, 2, 192), (10, 2, 192), (15, 2, 192), (24, 2, 192), (31, 2, 192), (41, 2, 192), (56, 3, 192),
     (3, 2, 193), (6, 2, 193), (10, 2, 193), (15, 2, 193), (24, 2, 193), (31, 2, 193), (41, 2, 193), (56, 3, 193)],
    [(3, 2, 200), (6, 2, 200), (10, 2, 200), (15, 2, 200), (24, 2, 200), (31, 2, 200), (41, 2, 200), (56, 3, 200),
     (3, 2, 201), (6, 2, 201), (10, 2, 201), (15, 2, 201), (24, 2, 201), (31, 2, 201), (41, 2, 201), (56, 3, 201)],
    [(2, 2, 202), (9, 2, 202), (23, 2, 202), (40, 3, 202), (2, 2, 205), (9, 2, 205), (23, 2, 205), (40, 3, 205),
     (2, 2, 210), (9, 2, 210), (23, 2, 210), (40, 3, 210), (2, 2, 213), (9, 2, 213), (23, 2, 213), (40, 3, 213)],
    [(3, 2, 202), (6, 2, 202), (10, 2, 202), (15, 2, 202), (24, 2, 202), (31, 2, 202), (41, 2, 202), (56, 3, 202),
     (3, 2, 205), (6, 2, 205), (10, 2, 205), (15, 2, 205), (24, 2, 205), (31, 2, 205), (41, 2, 205), (56, 3, 205)],
    [(3, 2, 210), (6, 2, 210), (10, 2, 210), (15, 2, 210), (24, 2, 210), (31, 2, 210), (41, 2, 210), (56, 3, 210),
     (3, 2, 213), (6, 2, 213), (10, 2, 213), (15, 2, 213), (24, 2, 213), (31, 2, 213), (41, 2, 213), (56, 3, 213)],
    [(1, 2, 218), (22, 3, 218), (1, 2, 219), (22, 3, 219), (1, 2, 238), (22, 3, 238), (1, 2, 240), (22, 3, 240),
     (1, 2, 242), (22, 3, 242), (1, 2, 243), (22, 3, 243), (1, 2, 255), (22, 3, 255), (0, 3, 203), (0, 3, 204)],
    [(2, 2, 218), (9, 2, 218), (23, 2, 218), (40, 3, 218), (2, 2, 219), (9, 2, 219), (23, 2, 219), (40, 3, 219),
     (2, 2, 238), (9, 2, 238), (23, 2, 238), (40, 3, 238), (2, 2, 240), (9, 2, 240), (23, 2, 240), (40, 3, 240)],
    [(3, 2, 218), (6, 2, 218), (10, 2, 218), (15, 2, 218), (24, 2, 218), (31, 2, 218), (41, 2, 218), (56, 3, 218),
     (3, 2, 219), (6, 2, 219), (10, 2, 219), (15, 2, 219), (24, 2, 219), (31, 2, 219), (41, 2, 219), (56, 3, 219)],
    [(3, 2, 238), (6, 2, 238), (10, 2, 238), (15, 2, 238), (24, 2, 238), (31, 2, 238), (41, 2, 238), (56, 3, 238),
     (3, 2, 240), (6, 2, 240), (10, 2, 240), (15, 2, 240), (24, 2, 240), (31, 2, 240), (41, 2, 240), (56, 3, 240)],
    [(2, 2, 242), (9, 2, 242), (23, 2, 242), (40, 3, 242), (2, 2, 243), (9, 2, 243), (23, 2, 243), (40, 3, 243),
     (2, 2, 255), (9, 2, 255), (23, 2, 255), (40, 3, 255), (1, 2, 203), (22, 3, 203), (1, 2, 204), (22, 3, 204)],
    [(3, 2, 242), (6, 2, 242), (10, 2, 242), (15, 2, 242), (24, 2, 242), (31, 2, 242), (41, 2, 242), (56, 3, 242),
     (3, 2, 243), (6, 2, 243), (10, 2, 243), (15, 2, 243), (24, 2, 243), (31, 2, 243), (41, 2, 243), (56, 3, 243)],
    [(3, 2, 255), (6, 2, 255), (10, 2, 255), (15, 2, 255), (24, 2, 255), (31, 2, 255), (41, 2, 255), (56, 3, 255),
     (2, 2, 203), (9, 2, 203), (23, 2, 203), (40, 3, 203), (2, 2, 204), (9, 2, 204), (23, 2, 204), (40, 3, 204)],
    [(3, 2, 203), (6, 2, 203), (10, 2, 203), (15, 2, 203), (24, 2, 203), (31, 2, 203), (41, 2, 203), (56, 3, 203),
     (3, 2, 204), (6, 2, 204), (10, 2, 204), (15, 2, 204), (24, 2, 204), (31, 2, 204), (41, 2, 204), (56, 3, 204)],
    [(211, 0, 0), (212, 0, 0), (214, 0, 0), (215, 0, 0), (218, 0, 0), (219, 0, 0), (221, 0, 0), (222, 0, 0),
     (226, 0, 0), (228, 0, 0), (232, 0, 0), (235, 0, 0), (240, 0, 0), (243, 0, 0), (247, 0, 0), (250, 0, 0)],
    [(0, 3, 211), (0, 3, 212), (0, 3, 214), (0, 3, 221), (0, 3, 222), (0, 3, 223), (0, 3, 241), (0, 3, 244),
     (0, 3, 245), (0, 3, 246), (0, 3, 247), (0, 3, 248), (0, 3, 250), (0, 3, 251), (0, 3, 252), (0, 3, 253)],
    [(1, 2, 211), (22, 3, 211), (1, 2, 212), (22, 3, 212), (1, 2, 214), (22, 3, 214), (1, 2, 221), (22, 3, 221),
     (1, 2, 222), (22, 3, 222), (1, 2, 223), (22, 3, 223), (1, 2, 241), (22, 3, 241), (1, 2, 244), (22, 3, 244)],
    [(2, 2, 211), (9, 2, 211), (23, 2, 211), (40, 3, 211), (2, 2, 212), (9, 2, 212), (23, 2, 212), (40, 3, 212),
     (2, 2, 214), (9, 2, 214), (23, 2, 214), (40, 3, 214), (2, 2, 221), (9, 2, 221), (23, 2, 221), (40, 3, 221)],
    [(3, 2, 211), (6, 2, 211), (10, 2, 211), (15, 2, 211), (24, 2, 211), (31, 2, 211), (41, 2, 211), (56, 3, 211),
     (3, 2, 212), (6, 2, 212), (10, 2, 212), (15, 2, 212), (24, 2, 212), (31, 2, 212), (41, 2, 212), (56, 3, 212)],
    [(3, 2, 214), (6, 2, 214), (10, 2, 214), (15, 2, 214), (24, 2, 214), (31, 2, 214), (41, 2, 214), (56, 3, 214),
     (3, 2, 221), (6, 2, 221), (10, 2, 221), (15, 2, 221), (24, 2, 221), (31, 2, 221), (41, 2, 221), (56, 3, 221)],
    [(2, 2, 222), (9, 2, 222), (23, 2, 222), (40, 3, 222), (2, 2, 223), (9, 2, 223), (23, 2, 223), (40, 3, 223),
     (2, 2, 241), (9, 2, 241), (23, 2, 241), (40, 3, 241), (2, 2, 244), (9, 2, 244), (23, 2, 244), (40, 3, 244)],
    [(3, 2, 222), (6, 2, 222), (10, 2, 222), (15, 2, 222), (24, 2, 222), (31, 2, 222), (41, 2, 222), (56, 3, 222),
     (3, 2, 223), (6, 2, 223), (10, 2, 223), (15, 2, 223), (24, 2, 223), (31, 2, 223), (41, 2, 223), (56, 3, 223)],
    [(3, 2, 241), (6, 2, 241), (10, 2, 241), (15, 2, 241), (24, 2, 241), (31, 2, 241), (41, 2, 241), (56, 3, 241),
     (3, 2, 244), (6, 2, 244), (10, 2, 244), (15, 2, 244), (24, 2, 244), (31, 2, 244), (41, 2, 244), (56, 3, 244)],
    [(1, 2, 245), (22, 3, 245), (1, 2, 246), (22, 3, 246), (1, 2, 247), (22, 3, 247), (1, 2, 248), (22, 3, 248),
     (1, 2, 250), (22, 3, 250), (1, 2, 251), (22, 3, 251), (1, 2, 252), (22, 3, 252), (1, 2, 253), (22, 3, 253)],
    [(2, 2, 245), (9, 2, 245), (23, 2, 245), (40, 3, 245), (2, 2, 246), (9, 2, 246), (23, 2, 246), (40, 3, 246),
     (2, 2, 247), (9, 2, 247), (23, 2, 247), (40, 3, 247), (2, 2, 248), (9, 2, 248), (23, 2, 248), (40, 3, 248)],
    [(3, 2, 245), (6, 2, 245), (10, 2, 245), (15, 2, 245), (24, 2, 245), (31, 2, 245), (41, 2, 245), (56, 3, 245),
     (3, 2, 246), (6, 2, 246), (10, 2, 246), (15, 2, 246), (24, 2, 246), (31, 2, 246), (41, 2, 246), (56, 3, 246)],
    [(3, 2, 247), (6, 2, 247), (10, 2, 247), (15, 2, 247), (24, 2, 247), (31, 2, 247), (41, 2, 247), (56, 3, 247),
     (3, 2, 248), (6, 2, 248), (10, 2, 248), (15, 2, 248), (24, 2, 248), (31, 2, 248), (41, 2, 248), (56, 3, 248)],
    [(2, 2, 250), (9, 2, 250), (23, 2, 250), (40, 3, 250), (2, 2, 251), (9, 2, 251), (23, 2, 251), (40, 3, 251),
     (2, 2, 252), (9, 2, 252), (23, 2, 252), (40, 3, 252), (2, 2, 253), (9, 2, 253), (23, 2, 253), (40, 3, 253)],
    [(3, 2, 250), (6, 2, 250), (10, 2, 250), (15, 2, 250), (24, 2, 250), (31, 2, 250), (41, 2, 250), (56, 3, 250),
     (3, 2, 251), (6, 2, 251), (10, 2, 251), (15, 2, 251), (24, 2, 251), (31, 2, 251), (41, 2, 251), (56, 3, 251)],
    [(3, 2, 252), (6, 2, 252), (10, 2, 252), (15, 2, 252), (24, 2, 252), (31, 2, 252), (41, 2, 252), (56, 3, 252),
     (3, 2, 253), (6, 2, 253), (10, 2, 253), (15, 2, 253), (24, 2, 253), (31, 2, 253), (41, 2, 253), (56, 3, 253)],
    [(0, 3, 254), (227, 0, 0), (229, 0, 0), (230, 0, 0), (233, 0, 0), (234, 0, 0), (236, 0, 0), (237, 0, 0),
     (241, 0, 0), (242, 0, 0), (244, 0, 0), (245, 0, 0), (248, 0, 0), (249, 0, 0), (251, 0, 0), (252, 0, 0)]]"

definition decode_rows_7 :: "(nat \<times> nat \<times> nat) list list" where
  "decode_rows_7 = [
    [(1, 2, 254), (22, 3, 254), (0, 3, 2), (0, 3, 3), (0, 3, 4), (0, 3, 5), (0, 3, 6), (0, 3, 7),
     (0, 3, 8), (0, 3, 11), (0, 3, 12), (0, 3, 14), (0, 3, 15), (0, 3, 16), (0, 3, 17), (0, 3, 18)],
    [(2, 2, 254), (9, 2, 254), (23, 2, 254), (40, 3, 254), (1, 2, 2), (22, 3, 2), (1, 2, 3), (22, 3, 3),
     (1, 2, 4), (22, 3, 4), (1, 2, 5), (22, 3, 5), (1, 2, 6), (22, 3, 6), (1, 2, 7), (22, 3, 7)],
    [(3, 2, 254), (6, 2, 254), (10, 2, 254), (15, 2, 254), (24, 2, 254), (31, 2, 254), (41, 2, 254), (56, 3, 254),
     (2, 2, 2), (9, 2, 2), (23, 2, 2), (40, 3, 2), (2, 2, 3), (9, 2, 3), (23, 2, 3), (40, 3, 3)],
    [(3, 2, 2), (6, 2, 2), (10, 2, 2), (15, 2, 2), (24, 2, 2), (31, 2, 2), (41, 2, 2), (56, 3, 2),
     (3, 2, 3), (6, 2, 3), (10, 2, 3), (15, 2, 3), (24, 2, 3), (31, 2, 3), (41, 2, 3), (56, 3, 3)],
    [(2, 2, 4), (9, 2, 4), (23, 2, 4), (40, 3, 4), (2, 2, 5), (9, 2, 5), (23, 2, 5), (40, 3, 5),
     (2, 2, 6), (9, 2, 6), (23, 2, 6), (40, 3, 6), (2, 2, 7), (9, 2, 7), (23, 2, 7), (40, 3, 7)],
    [(3, 2, 4), (6, 2, 4), (10, 2, 4), (15, 2, 4), (24, 2, 4), (31, 2, 4), (41, 2, 4), (56, 3, 4),
     (3, 2, 5), (6, 2, 5), (10, 2, 5), (15, 2, 5), (24, 2, 5), (31, 2, 5), (41, 2, 5), (56, 3, 5)],
    [(3, 2, 6), (6, 2, 6), (10, 2, 6), (15, 2, 6), (24, 2, 6), (31, 2, 6), (41, 2, 6), (56, 3, 6),
     (3, 2, 7), (6, 2, 7), (10, 2, 7), (15, 2, 7), (24, 2, 7), (31, 2, 7), (41, 2, 7), (56, 3, 7)],
    [(1, 2, 8), (22, 3, 8), (1, 2, 11), (22, 3, 11), (1, 2, 12), (22, 3, 12), (1, 2, 14), (22, 3, 14),
     (1, 2, 15), (22, 3, 15), (1, 2, 16), (22, 3, 16), (1, 2, 17), (22, 3, 17), (1, 2, 18), (22, 3, 18)],
    [(2, 2, 8), (9, 2, 8), (23, 2, 8), (40, 3, 8), (2, 2, 11), (9, 2, 11), (23, 2, 11), (40, 3, 11),
     (2, 2, 12), (9, 2, 12), (23, 2, 12), (40, 3, 12), (2, 2, 14), (9, 2, 14), (23, 2, 14), (40, 3, 14)],
    [(3, 2, 8), (6, 2, 8), (10, 2, 8), (15, 2, 8), (24, 2, 8), (31, 2, 8), (41, 2, 8), (56, 3, 8),
     (3, 2, 11), (6, 2, 11), (10, 2, 11), (15, 2, 11), (24, 2, 11), (31, 2, 11), (41, 2, 11), (56, 3, 11)],
    [(3, 2, 12), (6, 2, 12), (10, 2, 12), (15, 2, 12), (24, 2, 12), (31, 2, 12), (41, 2, 12), (56, 3, 12),
     (3, 2, 14), (6, 2, 14), (10, 2, 14), (15, 2, 14), (24, 2, 14), (31, 2, 14), (41, 2, 14), (56, 3, 14)],
    [(2, 2, 15), (9, 2, 15), (23, 2, 15), (40, 3, 15), (2, 2, 16), (9, 2, 16), (23, 2, 16), (40, 3, 16),
     (2, 2, 17), (9, 2, 17), (23, 2, 17), (40, 3, 17), (2, 2, 18), (9, 2, 18), (23, 2, 18), (40, 3, 18)],
    [(3, 2, 15), (6, 2, 15), (10, 2, 15), (15, 2, 15), (24, 2, 15), (31, 2, 15), (41, 2, 15), (56, 3, 15),
     (3, 2, 16), (6, 2, 16), (10, 2, 16), (15, 2, 16), (24, 2, 16), (31, 2, 16), (41, 2, 16), (56, 3, 16)],
    [(3, 2, 17), (6, 2, 17), (10, 2, 17), (15, 2, 17), (24, 2, 17), (31, 2, 17), (41, 2, 17), (56, 3, 17),
     (3, 2, 18), (6, 2, 18), (10, 2, 18), (15, 2, 18), (24, 2, 18), (31, 2, 18), (41, 2, 18), (56, 3, 18)],
    [(0, 3, 19), (0, 3, 20), (0, 3, 21), (0, 3, 23), (0, 3, 24), (0, 3, 25), (0, 3, 26), (0, 3, 27),
     (0, 3, 28), (0, 3, 29), (0, 3, 30), (0, 3, 31), (0, 3, 127), (0, 3, 220), (0, 3, 249), (253, 0, 0)],
    [(1, 2, 19), (22, 3, 19), (1, 2, 20), (22, 3, 20), (1, 2, 21), (22, 3, 21), (1, 2, 23), (22, 3, 23),
     (1, 2, 24), (22, 3, 24), (1, 2, 25), (22, 3, 25), (1, 2, 26), (22, 3, 26), (1, 2, 27), (22, 3, 27)],
    [(2, 2, 19), (9, 2, 19), (23, 2, 19), (40, 3, 19), (2, 2, 20), (9, 2, 20), (23, 2, 20), (40, 3, 20),
     (2, 2, 21), (9, 2, 21), (23, 2, 21), (40, 3, 21), (2, 2, 23), (9, 2, 23), (23, 2, 23), (40, 3, 23)],
    [(3, 2, 19), (6, 2, 19), (10, 2, 19), (15, 2, 19), (24, 2, 19), (31, 2, 19), (41, 2, 19), (56, 3, 19),
     (3, 2, 20), (6, 2, 20), (10, 2, 20), (15, 2, 20), (24, 2, 20), (31, 2, 20), (41, 2, 20), (56, 3, 20)],
    [(3, 2, 21), (6, 2, 21), (10, 2, 21), (15, 2, 21), (24, 2, 21), (31, 2, 21), (41, 2, 21), (56, 3, 21),
     (3, 2, 23), (6, 2, 23), (10, 2, 23), (15, 2, 23), (24, 2, 23), (31, 2, 23), (41, 2, 23), (56, 3, 23)],
    [(2, 2, 24), (9, 2, 24), (23, 2, 24), (40, 3, 24), (2, 2, 25), (9, 2, 25), (23, 2, 25), (40, 3, 25),
     (2, 2, 26), (9, 2, 26), (23, 2, 26), (40, 3, 26), (2, 2, 27), (9, 2, 27), (23, 2, 27), (40, 3, 27)],
    [(3, 2, 24), (6, 2, 24), (10, 2, 24), (15, 2, 24), (24, 2, 24), (31, 2, 24), (41, 2, 24), (56, 3, 24),
     (3, 2, 25), (6, 2, 25), (10, 2, 25), (15, 2, 25), (24, 2, 25), (31, 2, 25), (41, 2, 25), (56, 3, 25)],
    [(3, 2, 26), (6, 2, 26), (10, 2, 26), (15, 2, 26), (24, 2, 26), (31, 2, 26), (41, 2, 26), (56, 3, 26),
     (3, 2, 27), (6, 2, 27), (10, 2, 27), (15, 2, 27), (24, 2, 27), (31, 2, 27), (41, 2, 27), (56, 3, 27)],
    [(1, 2, 28), (22, 3, 28), (1, 2, 29), (22, 3, 29), (1, 2, 30), (22, 3, 30), (1, 2, 31), (22, 3, 31),
     (1, 2, 127), (22, 3, 127), (1, 2, 220), (22, 3, 220), (1, 2, 249), (22, 3, 249), (254, 0, 0), (255, 0, 0)],
    [(2, 2, 28), (9, 2, 28), (23, 2, 28), (40, 3, 28), (2, 2, 29), (9, 2, 29), (23, 2, 29), (40, 3, 29),
     (2, 2, 30), (9, 2, 30), (23, 2, 30), (40, 3, 30), (2, 2, 31), (9, 2, 31), (23, 2, 31), (40, 3, 31)],
    [(3, 2, 28), (6, 2, 28), (10, 2, 28), (15, 2, 28), (24, 2, 28), (31, 2, 28), (41, 2, 28), (56, 3, 28),
     (3, 2, 29), (6, 2, 29), (10, 2, 29), (15, 2, 29), (24, 2, 29), (31, 2, 29), (41, 2, 29), (56, 3, 29)],
    [(3, 2, 30), (6, 2, 30), (10, 2, 30), (15, 2, 30), (24, 2, 30), (31, 2, 30), (41, 2, 30), (56, 3, 30),
     (3, 2, 31), (6, 2, 31), (10, 2, 31), (15, 2, 31), (24, 2, 31), (31, 2, 31), (41, 2, 31), (56, 3, 31)],
    [(2, 2, 127), (9, 2, 127), (23, 2, 127), (40, 3, 127), (2, 2, 220), (9, 2, 220), (23, 2, 220), (40, 3, 220),
     (2, 2, 249), (9, 2, 249), (23, 2, 249), (40, 3, 249), (0, 3, 10), (0, 3, 13), (0, 3, 22), (0, 4, 0)],
    [(3, 2, 127), (6, 2, 127), (10, 2, 127), (15, 2, 127), (24, 2, 127), (31, 2, 127), (41, 2, 127), (56, 3, 127),
     (3, 2, 220), (6, 2, 220), (10, 2, 220), (15, 2, 220), (24, 2, 220), (31, 2, 220), (41, 2, 220), (56, 3, 220)],
    [(3, 2, 249), (6, 2, 249), (10, 2, 249), (15, 2, 249), (24, 2, 249), (31, 2, 249), (41, 2, 249), (56, 3, 249),
     (1, 2, 10), (22, 3, 10), (1, 2, 13), (22, 3, 13), (1, 2, 22), (22, 3, 22), (0, 4, 0), (0, 4, 0)],
    [(2, 2, 10), (9, 2, 10), (23, 2, 10), (40, 3, 10), (2, 2, 13), (9, 2, 13), (23, 2, 13), (40, 3, 13),
     (2, 2, 22), (9, 2, 22), (23, 2, 22), (40, 3, 22), (0, 4, 0), (0, 4, 0), (0, 4, 0), (0, 4, 0)],
    [(3, 2, 10), (6, 2, 10), (10, 2, 10), (15, 2, 10), (24, 2, 10), (31, 2, 10), (41, 2, 10), (56, 3, 10),
     (3, 2, 13), (6, 2, 13), (10, 2, 13), (15, 2, 13), (24, 2, 13), (31, 2, 13), (41, 2, 13), (56, 3, 13)],
    [(3, 2, 22), (6, 2, 22), (10, 2, 22), (15, 2, 22), (24, 2, 22), (31, 2, 22), (41, 2, 22), (56, 3, 22),
     (0, 4, 0), (0, 4, 0), (0, 4, 0), (0, 4, 0), (0, 4, 0), (0, 4, 0), (0, 4, 0), (0, 4, 0)]]"

definition decode_tables_raw :: "(nat \<times> nat \<times> nat) list list" where
  "decode_tables_raw = decode_rows_0 @ decode_rows_1 @ decode_rows_2 @ decode_rows_3
     @ decode_rows_4 @ decode_rows_5 @ decode_rows_6 @ decode_rows_7"

definition decode_tables :: "decode_el list list" where
  "decode_tables =
     map (map (\<lambda>(s, f, y). \<lparr>de_state = of_nat s, de_flags = of_nat f, de_sym = of_nat y\<rparr>))
       decode_tables_raw"

subsection \<open>qenc\_huffman\_enc\<close>

text \<open>
  The inner loop that writes out whole bytes: while \<open>bits_left \<le> 32\<close>, the byte
  \<open>bits >> 32\<close> is stored and \<open>bits\<close> is shifted left by eight.  \<open>dst\<close> is the list of
  bytes written so far.
\<close>

function huff_flush :: "uint64 \<Rightarrow> int \<Rightarrow> byte list \<Rightarrow> uint64 \<times> int \<times> byte list" where
  "huff_flush acc bits_left dst =
     (if bits_left \<le> 32
      then huff_flush (push_bit 8 acc) (bits_left + 8) (dst @ [ucast (drop_bit 32 acc)])
      else (acc, bits_left, dst))"
  by pat_completeness auto
termination
  by (relation "measure (\<lambda>(acc, bits_left, dst). nat (33 - bits_left))") auto

declare huff_flush.simps [simp del]

text \<open>
  The outer loop over the source bytes; \<open>acc\<close> is the source's 64-bit \<open>bits\<close>.  \<open>None\<close>
  is the failed \<open>assert(bits_left >= cur_enc_code.bits)\<close>.
\<close>

fun huff_enc_loop :: "byte list \<Rightarrow> uint64 \<Rightarrow> int \<Rightarrow> byte list \<Rightarrow> (uint64 \<times> int \<times> byte list) option" where
  "huff_enc_loop [] acc bits_left dst = Some (acc, bits_left, dst)"
| "huff_enc_loop (c # src) acc bits_left dst =
     (let cur_enc_code = encode_table ! unat c in
      if \<not> ee_bits cur_enc_code \<le> bits_left then None
      else
        (case huff_flush
                (acc OR push_bit (nat (bits_left - ee_bits cur_enc_code)) (ucast (ee_code cur_enc_code)))
                (bits_left - ee_bits cur_enc_code) dst of
           (acc', bits_left', dst') \<Rightarrow> huff_enc_loop src acc' bits_left' dst'))"

text \<open>
  The result is the list of bytes written at \<open>dst\<close>; \<open>None\<close> is a failed assertion.
\<close>

definition qenc_huffman_enc :: "byte list \<Rightarrow> byte list option" where
  "qenc_huffman_enc src =
     (case huff_enc_loop src 0 40 [] of
        None \<Rightarrow> None
      | Some (acc, bits_left, dst) \<Rightarrow>
          if bits_left \<noteq> 40 then
            (if \<not> (bits_left < 40 \<and> 0 < bits_left) then None
             else Some (dst @ [ucast (drop_bit 32 (acc OR (push_bit (nat bits_left) 1 - 1)))]))
          else Some dst)"

subsection \<open>lsqpack\_huff\_decode\<close>

record lsqpack_decode_status =
  ds_state :: byte
  ds_eos :: bool

record lsqpack_huff_decode_state =
  hds_resume :: nat
  hds_status :: lsqpack_decode_status

text \<open>
  \<open>qdec_huff_dec4bits\<close>: \<open>None\<close> is the \<open>NULL\<close> returned on a FAIL transition; otherwise
  the bytes stored at \<open>dst\<close> (none or one) and the new status.
\<close>

definition qdec_huff_dec4bits :: "byte \<Rightarrow> lsqpack_decode_status \<Rightarrow> (byte list \<times> lsqpack_decode_status) option" where
  "qdec_huff_dec4bits src_4bits status =
     (let cur_dec_code = decode_tables ! unat (ds_state status) ! unat src_4bits in
      if de_flags cur_dec_code AND HPACK_HUFFMAN_FLAG_FAIL \<noteq> 0 then None
      else Some (if de_flags cur_dec_code AND HPACK_HUFFMAN_FLAG_SYM \<noteq> 0 then [de_sym cur_dec_code] else [],
                 \<lparr>ds_state = de_state cur_dec_code,
                  ds_eos = (de_flags cur_dec_code AND HPACK_HUFFMAN_FLAG_ACCEPTED \<noteq> 0)\<rparr>))"

datatype huff_dec_status = HUFF_DEC_OK | HUFF_DEC_END_SRC | HUFF_DEC_END_DST | HUFF_DEC_ERROR

record huff_decode_retval =
  hdr_status :: huff_dec_status
  n_dst :: nat
  n_src :: nat

text \<open>
  The loop of \<open>lsqpack_huff_decode\<close>, entered at one of its three labels (\<open>ck1\<close>, \<open>ck2\<close>,
  \<open>ck3\<close>, given as 1, 2, 3).  \<open>src\<close> is the input from \<open>p_src\<close> on, \<open>k\<close> is \<open>p_src - src\<close>,
  \<open>out\<close> is what has been stored at \<open>dst\<close> so far (so \<open>p_dst == dst_end\<close> is
  \<open>length out = dst_len\<close>).  The result holds the return value, the bytes stored and the
  state.  Entering at \<open>ck2\<close> or \<open>ck3\<close> without input reads past the source; this is \<open>None\<close>.
\<close>

fun huff_decode_loop :: "nat \<Rightarrow> byte list \<Rightarrow> nat \<Rightarrow> byte list \<Rightarrow> nat \<Rightarrow> bool
    \<Rightarrow> lsqpack_huff_decode_state \<Rightarrow> (huff_decode_retval \<times> byte list \<times> lsqpack_huff_decode_state) option" where
  "huff_decode_loop label [] k out dst_len final st =
     (if label \<noteq> 1 then None
      else if final
      then Some (\<lparr>hdr_status = (if ds_eos (hds_status st) then HUFF_DEC_OK else HUFF_DEC_ERROR),
                  n_dst = length out, n_src = k\<rparr>, out, st)
      else Some (\<lparr>hdr_status = HUFF_DEC_END_SRC, n_dst = length out, n_src = k\<rparr>, out,
                 st\<lparr>hds_resume := 1\<rparr>))"
| "huff_decode_loop label (b # src) k out dst_len final st =
     (if label = 1 \<and> length out = dst_len
      then Some (\<lparr>hdr_status = HUFF_DEC_END_DST, n_dst = dst_len, n_src = k\<rparr>, out,
                 st\<lparr>hds_resume := 2\<rparr>)
      else
        (case (if label = 3 then Some ([], hds_status st)
               else qdec_huff_dec4bits (drop_bit 4 b) (hds_status st)) of
           None \<Rightarrow> Some (\<lparr>hdr_status = HUFF_DEC_ERROR, n_dst = 0, n_src = 0\<rparr>, out, st)
         | Some (o1, s1) \<Rightarrow>
             if label \<noteq> 3 \<and> length (out @ o1) = dst_len
             then Some (\<lparr>hdr_status = HUFF_DEC_END_DST, n_dst = dst_len, n_src = k\<rparr>, out @ o1,
                        st\<lparr>hds_status := s1, hds_resume := 3\<rparr>)
             else
               (case qdec_huff_dec4bits (b AND 0xf) s1 of
                  None \<Rightarrow> Some (\<lparr>hdr_status = HUFF_DEC_ERROR, n_dst = 0, n_src = 0\<rparr>, out @ o1,
                                st\<lparr>hds_status := s1\<rparr>)
                | Some (o2, s2) \<Rightarrow>
                    huff_decode_loop 1 src (k + 1) (out @ o1 @ o2) dst_len final
                      (st\<lparr>hds_status := s2\<rparr>))))"

definition lsqpack_huff_decode :: "byte list \<Rightarrow> nat \<Rightarrow> lsqpack_huff_decode_state \<Rightarrow> bool
    \<Rightarrow> (huff_decode_retval \<times> byte list \<times> lsqpack_huff_decode_state) option" where
  "lsqpack_huff_decode src dst_len st final =
     (if hds_resume st = 1 then huff_decode_loop 1 src 0 [] dst_len final st
      else if hds_resume st = 2 then huff_decode_loop 2 src 0 [] dst_len final st
      else if hds_resume st = 3 then huff_decode_loop 3 src 0 [] dst_len final st
      else huff_decode_loop 1 src 0 [] dst_len final
             (st\<lparr>hds_status := \<lparr>ds_state = 0, ds_eos = True\<rparr>\<rparr>))"

section \<open>Encoder\<close>

subsection \<open>Static table\<close>

text \<open>Header names and values are byte strings; \<open>bytes_of\<close> turns a string literal into
  one, \<open>ch\<close> a character literal into a byte.\<close>

definition ch :: "char \<Rightarrow> byte" where
  "ch c = of_nat (of_char c)"

definition bytes_of :: "string \<Rightarrow> byte list" where
  "bytes_of s = map ch s"

text \<open>\<open>byte_at s i\<close> is \<open>*(s + i)\<close>.  Where the source looks at the byte behind the end
  of a string (the first byte of an empty value), the model reads 0, the terminator of
  a C string; the result of the lookup does not depend on it, since a match then also
  needs equal lengths.\<close>

definition byte_at :: "byte list \<Rightarrow> nat \<Rightarrow> byte" where
  "byte_at s i = (if i < length s then s ! i else 0)"

definition QPACK_STATIC_TABLE_SIZE :: nat where
  "QPACK_STATIC_TABLE_SIZE = 61"

definition static_table :: "(byte list \<times> byte list) list" where
  "static_table = map (\<lambda>(n, v). (bytes_of n, bytes_of v)) [
    ('':authority'', ''''),
    ('':method'', ''GET''),
    ('':method'', ''POST''),
    ('':path'', ''/''),
    ('':path'', ''/index.html''),
    ('':scheme'', ''http''),
    ('':scheme'', ''https''),
    ('':status'', ''200''),
    ('':status'', ''204''),
    ('':status'', ''206''),
    ('':status'', ''304''),
    ('':status'', ''400''),
    ('':status'', ''404''),
    ('':status'', ''500''),
    (''accept-charset'', ''''),
    (''accept-encoding'', ''gzip, deflate''),
    (''accept-language'', ''''),
    (''accept-ranges'', ''''),
    (''accept'', ''''),
    (''access-control-allow-origin'', ''''),
    (''age'', ''''),
    (''allow'', ''''),
    (''authorization'', ''''),
    (''cache-control'', ''''),
    (''content-disposition'', ''''),
    (''content-encoding'', ''''),
    (''content-language'', ''''),
    (''content-length'', ''''),
    (''content-location'', ''''),
    (''content-range'', ''''),
    (''content-type'', ''''),
    (''cookie'', ''''),
    (''date'', ''''),
    (''etag'', ''''),
    (''expect'', ''''),
    (''expires'', ''''),
    (''from'', ''''),
    (''host'', ''''),
    (''if-match'', ''''),
    (''if-modified-since'', ''''),
    (''if-none-match'', ''''),
    (''if-range'', ''''),
    (''if-unmodified-since'', ''''),
    (''last-modified'', ''''),
    (''link'', ''''),
    (''location'', ''''),
    (''max-forwards'', ''''),
    (''proxy-authenticate'', ''''),
    (''proxy-authorization'', ''''),
    (''range'', ''''),
    (''referer'', ''''),
    (''refresh'', ''''),
    (''retry-after'', ''''),
    (''server'', ''''),
    (''set-cookie'', ''''),
    (''strict-transport-security'', ''''),
    (''transfer-encoding'', ''''),
    (''user-agent'', ''''),
    (''vary'', ''''),
    (''via'', ''''),
    (''www-authenticate'', '''')]"

text \<open>The first \<open>switch\<close> of \<open>lsqpack_enc_get_stx_tab_id\<close>, on the first byte of the
  value; the result is the candidate index \<open>i\<close> (-1 for none).\<close>

definition stx_val_switch :: "byte list \<Rightarrow> int" where
  "stx_val_switch v =
     (let c = byte_at v 0; val_len = length v in
      if c = ch CHR ''G'' then 1
      else if c = ch CHR ''P'' then 2
      else if c = ch CHR ''/'' then (if val_len = 1 then 3 else if val_len = 11 then 4 else -1)
      else if c = ch CHR ''h'' then (if val_len = 4 then 5 else if val_len = 5 then 6 else -1)
      else if c = ch CHR ''2'' then
        (if val_len = 3 then
           (if byte_at v 2 = ch CHR ''0'' then 7
            else if byte_at v 2 = ch CHR ''4'' then 8
            else if byte_at v 2 = ch CHR ''6'' then 9
            else -1)
         else -1)
      else if c = ch CHR ''3'' then 10
      else if c = ch CHR ''4'' then
        (if val_len = 3 then
           (if byte_at v 2 = ch CHR ''0'' then 11
            else if byte_at v 2 = ch CHR ''4'' then 12
            else -1)
         else -1)
      else if c = ch CHR ''5'' then 13
      else if c = ch CHR ''g'' then 15
      else -1)"

text \<open>The second \<open>switch\<close>, on the name.\<close>

definition stx_name_switch :: "byte list \<Rightarrow> int" where
  "stx_name_switch n =
     (let c = byte_at n 0; name_len = length n in
      if c = ch CHR '':'' then
        (let c1 = byte_at n 1 in
         if c1 = ch CHR ''a'' then 0
         else if c1 = ch CHR ''m'' then 1
         else if c1 = ch CHR ''p'' then 3
         else if c1 = ch CHR ''s'' then (if byte_at n 2 = ch CHR ''c'' then 5 else 7)
         else -1)
      else if c = ch CHR ''a'' then
        (if name_len = 3 then 20
         else if name_len = 5 then 21
         else if name_len = 6 then 18
         else if name_len = 13 then (if byte_at n 1 = ch CHR ''u'' then 22 else 17)
         else if name_len = 14 then 14
         else if name_len = 15 then (if byte_at n 7 = ch CHR ''l'' then 16 else 15)
         else if name_len = 27 then 19
         else -1)
      else if c = ch CHR ''c'' then
        (if name_len = 6 then 31
         else if name_len = 12 then 30
         else if name_len = 13 then (if byte_at n 1 = ch CHR ''a'' then 23 else 29)
         else if name_len = 14 then 27
         else if name_len = 16 then
           (if byte_at n 9 = ch CHR ''n'' then 25
            else if byte_at n 9 = ch CHR ''a'' then 26
            else if byte_at n 9 = ch CHR ''o'' then 28
            else -1)
         else if name_len = 19 then 24
         else -1)
      else if c = ch CHR ''d'' then 32
      else if c = ch CHR ''e'' then
        (if name_len = 4 then 33
         else if name_len = 6 then 34
         else if name_len = 7 then 35
         else -1)
      else if c = ch CHR ''f'' then 36
      else if c = ch CHR ''h'' then 37
      else if c = ch CHR ''i'' then
        (if name_len = 8 then (if byte_at n 3 = ch CHR ''m'' then 38 else 41)
         else if name_len = 13 then 40
         else if name_len = 17 then 39
         else if name_len = 19 then 42
         else -1)
      else if c = ch CHR ''l'' then
        (if name_len = 4 then 44
         else if name_len = 8 then 45
         else if name_len = 13 then 43
         else -1)
      else if c = ch CHR ''m'' then 46
      else if c = ch CHR ''p'' then (if name_len = 18 then 47 else 48)
      else if c = ch CHR ''r'' then
        (if 5 \<le> name_len then
           (if byte_at n 4 = ch CHR ''e'' then (if name_len = 5 then 49 else 51)
            else if byte_at n 4 = ch CHR ''r'' then 50
            else if byte_at n 4 = ch CHR ''y'' then 52
            else -1)
         else -1)
      else if c = ch CHR ''s'' then
        (if name_len = 6 then 53
         else if name_len = 10 then 54
         else if name_len = 25 then 55
         else -1)
      else if c = ch CHR ''t'' then 56
      else if c = ch CHR ''u'' then 57
      else if c = ch CHR ''v'' then (if name_len = 4 then 58 else 59)
      else if c = ch CHR ''w'' then 60
      else -1)"

text \<open>
  \<open>lsqpack_enc_get_stx_tab_id\<close>: the static table id (0 for none) and \<open>*val_matched\<close>.
  The comparisons of the lengths and the two \<open>memcmp\<close> calls are the equality of the
  byte strings.  For a name shorter than three bytes the source leaves
  \<open>*val_matched\<close> unset; its callers do not read it then, and the model gives False.
\<close>

definition lsqpack_enc_get_stx_tab_id :: "byte list \<Rightarrow> byte list \<Rightarrow> nat \<times> bool" where
  "lsqpack_enc_get_stx_tab_id name v =
     (if length name < 3 then (0, False)
      else
        (let i = stx_val_switch v in
         if 0 < i \<and> snd (static_table ! nat i) = v \<and> fst (static_table ! nat i) = name
         then (nat i + 1, True)
         else
           (let i = stx_name_switch name in
            if 0 \<le> i \<and> fst (static_table ! nat i) = name
            then (nat i + 1, False)
            else (0, False))))"

subsection \<open>Encoder state\<close>

text \<open>
  Modelled from the spec: \<open>lsqpack_abs_id_t\<close> and \<open>LSQPACK_MAX_ABS_ID\<close> are declared in
  the header, which is not part of the sources at hand.  The specification describes
  the absolute id as a 62-bit counter; the model holds it in 64 bits and takes
  \<open>2^62 - 1\<close> as the largest id.
\<close>

type_synonym lsqpack_abs_id_t = uint64

definition LSQPACK_MAX_ABS_ID :: lsqpack_abs_id_t where
  "LSQPACK_MAX_ABS_ID = 2 ^ 62 - 1"

definition MAX_QUIC_STREAM_ID :: uint64 where
  "MAX_QUIC_STREAM_ID = 2 ^ 62 - 1"

record lsqpack_enc_table_entry =
  ete_id :: lsqpack_abs_id_t
  ete_n_reffd :: unsigned
  ete_nameval_hash :: unsigned
  ete_name_hash :: unsigned
  ete_name_len :: unsigned
  ete_val_len :: unsigned
  ete_name :: "byte list"
  ete_value :: "byte list"

definition DYNAMIC_ENTRY_OVERHEAD :: unsigned where
  "DYNAMIC_ENTRY_OVERHEAD = 32"

definition ENTRY_COST :: "unsigned \<Rightarrow> unsigned \<Rightarrow> unsigned" where
  "ENTRY_COST name_len value_len = DYNAMIC_ENTRY_OVERHEAD + name_len + value_len"

definition ETE_SIZE :: "lsqpack_enc_table_entry \<Rightarrow> unsigned" where
  "ETE_SIZE ete = ENTRY_COST (ete_name_len ete) (ete_val_len ete)"

text \<open>
  An entry lives on three lists.  \<open>qpe_all_entries\<close> holds the entries themselves, oldest
  first; the two chains of a bucket hold pointers to entries, which the model writes as
  the entries' ids (an id is given to one entry only).
\<close>

record lsqpack_double_enc_head =
  by_name :: "lsqpack_abs_id_t list"
  by_nameval :: "lsqpack_abs_id_t list"

record lsqpack_header_info =
  qhi_stream_id :: uint64
  qhi_seqno :: unsigned
  qhi_at_risk :: bool
  qhi_min_id :: lsqpack_abs_id_t
  qhi_max_id :: lsqpack_abs_id_t

record enc_cur_header =
  hinfo :: lsqpack_header_info
  n_risked :: unsigned
  base_idx :: lsqpack_abs_id_t
  search_cutoff :: lsqpack_abs_id_t
  use_dynamic_table :: bool
  others_at_risk :: bool

datatype dec_stream_handler = no_handler | enc_proc_header_ack_h | enc_proc_table_synch_h | enc_proc_stream_cancel_h

record enc_dec_stream_state =
  dec_int_state :: lsqpack_dec_int_state
  handler :: dec_stream_handler

text \<open>\<open>qpe_header_flag\<close> is the bit \<open>LSQPACK_ENC_HEADER\<close> of \<open>qpe_flags\<close>, the only flag the
  source uses.\<close>

record lsqpack_enc =
  qpe_ins_count :: lsqpack_abs_id_t
  qpe_max_acked_id :: lsqpack_abs_id_t
  qpe_header_flag :: bool
  qpe_cur_capacity :: unsigned
  qpe_max_capacity :: unsigned
  qpe_max_risked_streams :: unsigned
  qpe_cur_streams_at_risk :: unsigned
  qpe_nelem :: unsigned
  qpe_nbits :: nat
  qpe_all_entries :: "lsqpack_enc_table_entry list"
  qpe_buckets :: "lsqpack_double_enc_head list"
  qpe_hinfos_arr :: "lsqpack_header_info list"
  qpe_hinfos_count :: unsigned
  qpe_hinfos_nalloc :: unsigned
  qpe_cur_header :: enc_cur_header
  qpe_dec_stream_state :: enc_dec_stream_state

definition N_BUCKETS :: "nat \<Rightarrow> unsigned" where
  "N_BUCKETS n_bits = push_bit n_bits 1"

definition BUCKNO :: "nat \<Rightarrow> unsigned \<Rightarrow> nat" where
  "BUCKNO n_bits hash = unat (hash AND (N_BUCKETS n_bits - 1))"

text \<open>
  The hash function (XXH32, seeded with the encoder's address) is outside the sources;
  it is a parameter: the hash of a name, and the hash of a name and a value.
\<close>

type_synonym xxh = "(byte list \<Rightarrow> unsigned) \<times> (byte list \<Rightarrow> byte list \<Rightarrow> unsigned)"

subsection \<open>lsqpack\_enc\_init\<close>

text \<open>The structure after \<open>memset(enc, 0, sizeof( *enc))\<close>.\<close>

definition zero_header_info :: lsqpack_header_info where
  "zero_header_info = \<lparr>qhi_stream_id = 0, qhi_seqno = 0, qhi_at_risk = False, qhi_min_id = 0, qhi_max_id = 0\<rparr>"

definition zero_enc :: lsqpack_enc where
  "zero_enc = \<lparr>qpe_ins_count = 0, qpe_max_acked_id = 0, qpe_header_flag = False,
     qpe_cur_capacity = 0, qpe_max_capacity = 0, qpe_max_risked_streams = 0,
     qpe_cur_streams_at_risk = 0, qpe_nelem = 0, qpe_nbits = 0, qpe_all_entries = [],
     qpe_buckets = [], qpe_hinfos_arr = [], qpe_hinfos_count = 0, qpe_hinfos_nalloc = 0,
     qpe_cur_header = \<lparr>hinfo = zero_header_info, n_risked = 0, base_idx = 0, search_cutoff = 0,
        use_dynamic_table = False, others_at_risk = False\<rparr>,
     qpe_dec_stream_state = \<lparr>dec_int_state = \<lparr>resume = False, M = 0, nread = 0, val = 0\<rparr>,
        handler = no_handler\<rparr>\<rparr>"

datatype errno_val = EINVAL

text \<open>
  The two limits \<open>LSQPACK_MAX_DYN_TABLE_SIZE\<close> and \<open>LSQPACK_MAX_MAX_RISKED_STREAMS\<close> are
  declared in the header, which is not part of the sources at hand; they are
  parameters, as is the outcome of \<open>malloc\<close>.  The result is the return value, what the
  function stores in \<open>errno\<close> (if anything) and the encoder structure.
\<close>

definition lsqpack_enc_init :: "unsigned \<Rightarrow> unsigned \<Rightarrow> bool \<Rightarrow> lsqpack_enc \<Rightarrow> unsigned \<Rightarrow> unsigned
    \<Rightarrow> int \<times> errno_val option \<times> lsqpack_enc" where
  "lsqpack_enc_init max_dyn_table_size max_max_risked_streams malloc_ok enc dyn_table_size max_risked_streams =
     (let nbits = 2 in
      if max_dyn_table_size < dyn_table_size \<or> max_max_risked_streams < max_risked_streams
      then (-1, Some EINVAL, enc)
      else if \<not> malloc_ok then (-1, None, enc)
      else (0, None, zero_enc\<lparr>qpe_max_capacity := dyn_table_size,
                               qpe_max_risked_streams := max_risked_streams,
                               qpe_buckets := replicate (unat (N_BUCKETS nbits)) \<lparr>by_name = [], by_nameval = []\<rparr>,
                               qpe_nbits := nbits\<rparr>))"

subsection \<open>Searching the tables\<close>

datatype table_type = TT_STATIC | TT_DYNAMIC

record enc_search_result =
  esr_found :: bool
  esr_table_type :: table_type
  esr_entry_id :: lsqpack_abs_id_t
  esr_value_match :: bool
  esr_entry :: "lsqpack_abs_id_t option"

definition esr_none :: enc_search_result where
  "esr_none = \<lparr>esr_found = False, esr_table_type = TT_STATIC, esr_entry_id = 0,
               esr_value_match = False, esr_entry = None\<rparr>"

definition qenc_find_entry_in_static_table :: "byte list \<Rightarrow> byte list \<Rightarrow> enc_search_result" where
  "qenc_find_entry_in_static_table name v =
     (case lsqpack_enc_get_stx_tab_id name v of
        (static_table_id, val_matched) \<Rightarrow>
          if 0 < static_table_id
          then \<lparr>esr_found = True, esr_table_type = TT_STATIC, esr_entry_id = of_nat static_table_id,
                esr_value_match = val_matched, esr_entry = None\<rparr>
          else esr_none)"

text \<open>The entry a pointer refers to.\<close>

definition entry_at :: "lsqpack_enc \<Rightarrow> lsqpack_abs_id_t \<Rightarrow> lsqpack_enc_table_entry option" where
  "entry_at enc p = find (\<lambda>e. ete_id e = p) (qpe_all_entries enc)"

text \<open>The entries of a chain, in the order of the chain.\<close>

definition chain_entries :: "lsqpack_enc \<Rightarrow> lsqpack_abs_id_t list \<Rightarrow> lsqpack_enc_table_entry list" where
  "chain_entries enc chain = List.map_filter (entry_at enc) chain"

definition qenc_find_entry_in_either_table :: "xxh \<Rightarrow> lsqpack_enc \<Rightarrow> bool \<Rightarrow> byte list \<Rightarrow> byte list \<Rightarrow> enc_search_result" where
  "qenc_find_entry_in_either_table H enc risk name v =
     (case lsqpack_enc_get_stx_tab_id name v of
        (static_table_id, val_matched) \<Rightarrow>
          if 0 < static_table_id \<and> val_matched
          then \<lparr>esr_found = True, esr_table_type = TT_STATIC, esr_entry_id = of_nat static_table_id,
                esr_value_match = True, esr_entry = None\<rparr>
          else
            (let name_len = (of_nat (length name) :: unsigned);
                 value_len = (of_nat (length v) :: unsigned);
                 name_hash = fst H name;
                 nameval_hash = snd H name v;
                 cutoff = search_cutoff (qpe_cur_header enc)
             in case find (\<lambda>entry. nameval_hash = ete_nameval_hash entry
                             \<and> name_len = ete_name_len entry
                             \<and> value_len = ete_val_len entry
                             \<and> (risk \<or> ete_id entry \<le> qpe_max_acked_id enc)
                             \<and> (cutoff = 0 \<or> cutoff < ete_id entry)
                             \<and> name = ete_name entry \<and> v = ete_value entry)
                       (chain_entries enc (by_nameval (qpe_buckets enc ! BUCKNO (qpe_nbits enc) nameval_hash))) of
                  Some entry \<Rightarrow>
                    \<lparr>esr_found = True, esr_table_type = TT_DYNAMIC, esr_entry_id = ete_id entry,
                     esr_value_match = True, esr_entry = Some (ete_id entry)\<rparr>
                | None \<Rightarrow>
                    if 0 < static_table_id
                    then \<lparr>esr_found = True, esr_table_type = TT_STATIC, esr_entry_id = of_nat static_table_id,
                          esr_value_match = False, esr_entry = None\<rparr>
                    else
                      (case find (\<lambda>entry. name_hash = ete_name_hash entry
                                    \<and> name_len = ete_name_len entry
                                    \<and> (risk \<or> ete_id entry \<le> qpe_max_acked_id enc)
                                    \<and> (cutoff = 0 \<or> cutoff < ete_id entry)
                                    \<and> name = ete_name entry)
                              (chain_entries enc (by_name (qpe_buckets enc ! BUCKNO (qpe_nbits enc) name_hash))) of
                         Some entry \<Rightarrow>
                           \<lparr>esr_found = True, esr_table_type = TT_DYNAMIC, esr_entry_id = ete_id entry,
                            esr_value_match = False, esr_entry = Some (ete_id entry)\<rparr>
                       | None \<Rightarrow> esr_none)))"

definition qenc_find_entry :: "xxh \<Rightarrow> lsqpack_enc \<Rightarrow> bool \<Rightarrow> byte list \<Rightarrow> byte list \<Rightarrow> enc_search_result" where
  "qenc_find_entry H enc risk name v =
     (if use_dynamic_table (qpe_cur_header enc)
      then qenc_find_entry_in_either_table H enc risk name v
      else qenc_find_entry_in_static_table name v)"

subsection \<open>Strings on the wire\<close>

definition lsqpack_val2len :: "uint64 \<Rightarrow> nat \<Rightarrow> nat" where
  "lsqpack_val2len v prefix_bits =
     (let mask = push_bit prefix_bits (1::uint64) - 1 in
      1 + (if mask \<le> v then 1 else 0)
        + (if push_bit 7 1 + mask \<le> v then 1 else 0)
        + (if push_bit 14 1 + mask \<le> v then 1 else 0)
        + (if push_bit 21 1 + mask \<le> v then 1 else 0)
        + (if push_bit 28 1 + mask \<le> v then 1 else 0)
        + (if push_bit 35 1 + mask \<le> v then 1 else 0)
        + (if push_bit 42 1 + mask \<le> v then 1 else 0)
        + (if push_bit 49 1 + mask \<le> v then 1 else 0)
        + (if push_bit 56 1 + mask \<le> v then 1 else 0)
        + (if push_bit 63 1 + mask \<le> v then 1 else 0))"

text \<open>Storing a run of bytes at a position of a buffer (as \<open>memcpy\<close> does).\<close>

definition write_at :: "byte list \<Rightarrow> nat \<Rightarrow> byte list \<Rightarrow> byte list" where
  "write_at buf pos bs = take pos buf @ bs @ drop (pos + length bs) buf"

text \<open>\<open>lsqpack_enc_int_nocheck\<close>; its loop and final store write \<open>cont_bytes\<close>.\<close>

definition lsqpack_enc_int_nocheck :: "byte list \<Rightarrow> nat \<Rightarrow> uint64 \<Rightarrow> nat \<Rightarrow> byte list" where
  "lsqpack_enc_int_nocheck buf dst v prefix_bits =
     (if v < ucast (prefix_max prefix_bits)
      then buf[dst := buf ! dst OR ucast v]
      else write_at (buf[dst := buf ! dst OR ucast (prefix_max prefix_bits)]) (dst + 1)
             (cont_bytes (v - ucast (prefix_max prefix_bits))))"

text \<open>
  \<open>lsqpack_enc_enc_str\<close>: \<open>dst\<close> is a position in \<open>buf\<close> with \<open>dst_len\<close> bytes of room.  The
  result is the buffer and the return value (-1, or the number of bytes written);
  \<open>None\<close> is a failed assertion.  Sizes are natural numbers: the 32-bit sums of the
  source do not wrap for strings shorter than \<open>2^32 / 30\<close> bytes.
\<close>

definition lsqpack_enc_enc_str :: "nat \<Rightarrow> byte list \<Rightarrow> nat \<Rightarrow> nat \<Rightarrow> byte list \<Rightarrow> (byte list \<times> int) option" where
  "lsqpack_enc_enc_str prefix_bits buf dst dst_len str =
     (let str_len = length str;
          enc_size_bits = nat (sum_list (map (\<lambda>c. ee_bits (encode_table ! unat c)) str));
          enc_size_bytes = enc_size_bits div 8 + (if enc_size_bits mod 8 \<noteq> 0 then 1 else 0)
      in if enc_size_bytes < str_len then
           (let len_size = lsqpack_val2len (of_nat enc_size_bytes) prefix_bits in
            if len_size + enc_size_bytes \<le> dst_len then
              (let buf1 = buf[dst := (buf ! dst AND NOT (push_bit (prefix_bits + 1) 1 - 1)) OR push_bit prefix_bits 1];
                   buf2 = lsqpack_enc_int_nocheck buf1 dst (of_nat enc_size_bytes) prefix_bits
               in case qenc_huffman_enc str of
                    None \<Rightarrow> None
                  | Some hs \<Rightarrow>
                      if length hs \<noteq> enc_size_bytes then None
                      else Some (write_at buf2 (dst + len_size) hs, int (len_size + enc_size_bytes)))
            else Some (buf, -1))
         else
           (let len_size = lsqpack_val2len (of_nat str_len) prefix_bits in
            if len_size + str_len \<le> dst_len then
              (let buf1 = buf[dst := buf ! dst AND NOT (push_bit (prefix_bits + 1) 1 - 1)];
                   buf2 = lsqpack_enc_int_nocheck buf1 dst (of_nat str_len) prefix_bits
               in Some (write_at buf2 (dst + len_size) str, int (len_size + str_len)))
            else Some (buf, -1)))"

subsection \<open>The encoder's dynamic table\<close>

text \<open>Removing the head of a chain (\<open>STAILQ_REMOVE_HEAD\<close>) in bucket \<open>buckno\<close>.\<close>

definition remove_head_nameval :: "lsqpack_double_enc_head list \<Rightarrow> nat \<Rightarrow> lsqpack_double_enc_head list" where
  "remove_head_nameval bs buckno = bs[buckno := (bs ! buckno)\<lparr>by_nameval := tl (by_nameval (bs ! buckno))\<rparr>]"

definition remove_head_name :: "lsqpack_double_enc_head list \<Rightarrow> nat \<Rightarrow> lsqpack_double_enc_head list" where
  "remove_head_name bs buckno = bs[buckno := (bs ! buckno)\<lparr>by_name := tl (by_name (bs ! buckno))\<rparr>]"

text \<open>\<open>qenc_drop_oldest_entry\<close>; \<open>None\<close> is a failed assertion.\<close>

definition qenc_drop_oldest_entry :: "lsqpack_enc \<Rightarrow> lsqpack_enc option" where
  "qenc_drop_oldest_entry enc =
     (case qpe_all_entries enc of
        [] \<Rightarrow> None
      | entry # rest \<Rightarrow>
          (let b1 = BUCKNO (qpe_nbits enc) (ete_nameval_hash entry);
               b2 = BUCKNO (qpe_nbits enc) (ete_name_hash entry)
           in if by_nameval (qpe_buckets enc ! b1) = [] \<or> hd (by_nameval (qpe_buckets enc ! b1)) \<noteq> ete_id entry
              then None
              else if by_name (remove_head_nameval (qpe_buckets enc) b1 ! b2) = []
                      \<or> hd (by_name (remove_head_nameval (qpe_buckets enc) b1 ! b2)) \<noteq> ete_id entry
              then None
              else Some (enc\<lparr>qpe_all_entries := rest,
                              qpe_buckets := remove_head_name (remove_head_nameval (qpe_buckets enc) b1) b2,
                              qpe_cur_capacity := qpe_cur_capacity enc - ETE_SIZE entry,
                              qpe_nelem := qpe_nelem enc - 1\<rparr>)))"

function qenc_remove_overflow_entries :: "lsqpack_enc \<Rightarrow> lsqpack_enc option" where
  "qenc_remove_overflow_entries enc =
     (if qpe_max_capacity enc < qpe_cur_capacity enc
      then (case qenc_drop_oldest_entry enc of
              None \<Rightarrow> None
            | Some enc' \<Rightarrow> qenc_remove_overflow_entries enc')
      else Some enc)"
  by pat_completeness auto
termination
  by (relation "measure (\<lambda>enc. length (qpe_all_entries enc))")
     (auto simp: qenc_drop_oldest_entry_def Let_def split: list.splits if_splits)

declare qenc_remove_overflow_entries.simps [simp del]

text \<open>
  \<open>qenc_grow_tables\<close>, when \<open>malloc\<close> has succeeded: bucket \<open>n\<close> of the old array is split
  over the buckets \<open>n\<close> and \<open>n + N_BUCKETS(old_nbits)\<close> of the new one, by the next bit of
  the hash, each chain keeping its order.
\<close>

definition grow_idx :: "nat \<Rightarrow> unsigned \<Rightarrow> nat" where
  "grow_idx old_nbits hash = unat (drop_bit old_nbits (of_nat (BUCKNO (old_nbits + 1) hash) :: unsigned) AND 1)"

definition split_bucket :: "lsqpack_enc \<Rightarrow> nat \<Rightarrow> lsqpack_double_enc_head \<Rightarrow> lsqpack_double_enc_head" where
  "split_bucket enc idx b =
     \<lparr>by_name = filter (\<lambda>p. case entry_at enc p of None \<Rightarrow> False
                               | Some e \<Rightarrow> grow_idx (qpe_nbits enc) (ete_name_hash e) = idx) (by_name b),
      by_nameval = filter (\<lambda>p. case entry_at enc p of None \<Rightarrow> False
                               | Some e \<Rightarrow> grow_idx (qpe_nbits enc) (ete_nameval_hash e) = idx) (by_nameval b)\<rparr>"

definition qenc_grow_tables :: "bool \<Rightarrow> lsqpack_enc \<Rightarrow> int \<times> lsqpack_enc" where
  "qenc_grow_tables malloc_ok enc =
     (if \<not> malloc_ok then (-1, enc)
      else (0, enc\<lparr>qpe_nbits := qpe_nbits enc + 1,
                   qpe_buckets := map (split_bucket enc 0) (take (unat (N_BUCKETS (qpe_nbits enc))) (qpe_buckets enc))
                                @ map (split_bucket enc 1) (take (unat (N_BUCKETS (qpe_nbits enc))) (qpe_buckets enc))\<rparr>))"

text \<open>
  \<open>lsqpack_enc_push_entry\<close>.  The two booleans say whether the \<open>malloc\<close> of
  \<open>qenc_grow_tables\<close> and the \<open>malloc\<close> of the entry succeed.  The function stores every
  field of the new entry but \<open>ete_n_reffd\<close>, which keeps whatever the memory returned by
  \<open>malloc\<close> holds: that content is the third component of \<open>mem\<close>.  The result is the
  pointer returned (\<open>None\<close> for \<open>NULL\<close>) and the encoder; the outer \<open>None\<close> is a failed
  assertion.
\<close>

type_synonym push_mem = "bool \<times> bool \<times> unsigned"

definition lsqpack_enc_push_entry :: "xxh \<Rightarrow> push_mem \<Rightarrow> lsqpack_enc \<Rightarrow> byte list \<Rightarrow> byte list
    \<Rightarrow> (lsqpack_abs_id_t option \<times> lsqpack_enc) option" where
  "lsqpack_enc_push_entry H mem enc name v =
     (let grow = (N_BUCKETS (qpe_nbits enc) div 2 \<le> qpe_nelem enc);
          g = (if grow then qenc_grow_tables (fst mem) enc else (0, enc))
      in if grow \<and> fst g \<noteq> 0 then Some (None, enc)
         else if \<not> fst (snd mem) then Some (None, snd g)
         else
           (let enc1 = snd g;
                name_len = (of_nat (length name) :: unsigned);
                value_len = (of_nat (length v) :: unsigned);
                name_hash = fst H name;
                nameval_hash = snd H name v;
                entry = \<lparr>ete_id = 1 + qpe_ins_count enc1, ete_n_reffd = snd (snd mem),
                         ete_nameval_hash = nameval_hash, ete_name_hash = name_hash,
                         ete_name_len = name_len, ete_val_len = value_len,
                         ete_name = name, ete_value = v\<rparr>;
                b1 = BUCKNO (qpe_nbits enc1) nameval_hash;
                bs1 = (qpe_buckets enc1)[b1 := (qpe_buckets enc1 ! b1)
                         \<lparr>by_nameval := by_nameval (qpe_buckets enc1 ! b1) @ [ete_id entry]\<rparr>];
                b2 = BUCKNO (qpe_nbits enc1) name_hash;
                bs2 = bs1[b2 := (bs1 ! b2)\<lparr>by_name := by_name (bs1 ! b2) @ [ete_id entry]\<rparr>];
                enc2 = enc1\<lparr>qpe_ins_count := qpe_ins_count enc1 + 1,
                            qpe_all_entries := qpe_all_entries enc1 @ [entry],
                            qpe_buckets := bs2,
                            qpe_cur_capacity := qpe_cur_capacity enc1 + ENTRY_COST name_len value_len,
                            qpe_nelem := qpe_nelem enc1 + 1\<rparr>
            in case qenc_remove_overflow_entries enc2 of
                 None \<Rightarrow> None
               | Some enc3 \<Rightarrow> Some (Some (ete_id entry), enc3)))"

definition lsqpack_enc_set_max_capacity :: "lsqpack_enc \<Rightarrow> unsigned \<Rightarrow> lsqpack_enc option" where
  "lsqpack_enc_set_max_capacity enc max_capacity =
     qenc_remove_overflow_entries (enc\<lparr>qpe_max_capacity := max_capacity\<rparr>)"

text \<open>
  \<open>enc_has_or_can_evict_at_least\<close>.  \<open>avail\<close> is a \<open>size_t\<close>, taken here as 64 bits, set
  from the 32-bit difference of the two capacities.  The loop runs over the entries,
  oldest first, with the source's \<open>min_id = 0\<close>.  The result is the return value and the
  encoder (whose \<open>search_cutoff\<close> the loop may set).
\<close>

fun evict_loop :: "lsqpack_abs_id_t \<Rightarrow> uint64 \<Rightarrow> uint64 \<Rightarrow> lsqpack_enc \<Rightarrow> lsqpack_enc_table_entry list
    \<Rightarrow> bool \<times> lsqpack_enc" where
  "evict_loop min_id avail new_entry_size enc [] = (False, enc)"
| "evict_loop min_id avail new_entry_size enc (entry # rest) =
     (if ete_id entry < min_id then
        (if new_entry_size \<le> avail + ucast (ETE_SIZE entry)
         then (True, enc\<lparr>qpe_cur_header := (qpe_cur_header enc)\<lparr>search_cutoff := ete_id entry\<rparr>\<rparr>)
         else evict_loop min_id (avail + ucast (ETE_SIZE entry)) new_entry_size enc rest)
      else (False, enc))"

definition enc_has_or_can_evict_at_least :: "lsqpack_enc \<Rightarrow> uint64 \<Rightarrow> bool \<times> lsqpack_enc" where
  "enc_has_or_can_evict_at_least enc new_entry_size =
     (let avail = (ucast (qpe_max_capacity enc - qpe_cur_capacity enc) :: uint64) in
      if new_entry_size \<le> avail then (True, enc)
      else evict_loop 0 avail new_entry_size enc (qpe_all_entries enc))"

subsection \<open>lsqpack\_enc\_start\_header and lsqpack\_enc\_end\_header\<close>

text \<open>
  \<open>lsqpack_enc_start_header\<close>; the boolean is the outcome of \<open>realloc\<close> (asked for only
  when the array of header infos is full).  The array itself is a list that keeps its
  elements.
\<close>

definition lsqpack_enc_start_header :: "bool \<Rightarrow> lsqpack_enc \<Rightarrow> uint64 \<Rightarrow> unsigned \<Rightarrow> int \<times> lsqpack_enc" where
  "lsqpack_enc_start_header realloc_ok enc stream_id seqno =
     (if qpe_header_flag enc then (-1, enc)
      else
        (let hdr0 = \<lparr>hinfo = zero_header_info\<lparr>qhi_stream_id := stream_id, qhi_seqno := seqno\<rparr>,
                     n_risked = 0, base_idx = qpe_ins_count enc, search_cutoff = 0,
                     use_dynamic_table = True, others_at_risk = others_at_risk (qpe_cur_header enc)\<rparr>;
             enc1 = enc\<lparr>qpe_cur_header := hdr0\<rparr>;
             enc2 = (if qpe_hinfos_count enc1 = qpe_hinfos_nalloc enc1 then
                       (if realloc_ok
                        then enc1\<lparr>qpe_hinfos_nalloc :=
                                (if qpe_hinfos_nalloc enc1 \<noteq> 0 then qpe_hinfos_nalloc enc1 * 2 else 4)\<rparr>
                        else enc1\<lparr>qpe_cur_header := hdr0\<lparr>use_dynamic_table := False\<rparr>\<rparr>)
                     else enc1);
             at_risk = (seqno \<noteq> 0 \<and>
                        (\<exists>h \<in> set (take (unat (qpe_hinfos_count enc2)) (qpe_hinfos_arr enc2)).
                            qhi_stream_id h = stream_id \<and> qhi_at_risk h))
         in (0, enc2\<lparr>qpe_cur_header := (qpe_cur_header enc2)\<lparr>others_at_risk := at_risk\<rparr>,
                      qpe_header_flag := True\<rparr>)))"

text \<open>
  \<open>lsqpack_enc_end_header\<close>; \<open>buf\<close> is the whole output buffer, \<open>sz\<close> its length.  The
  result is the return value, the buffer and the encoder; \<open>None\<close> is a failed assertion.
\<close>

definition lsqpack_enc_end_header :: "lsqpack_enc \<Rightarrow> byte list \<Rightarrow> (int \<times> byte list \<times> lsqpack_enc) option" where
  "lsqpack_enc_end_header enc buf =
     (let sz = length buf; max_id = qhi_max_id (hinfo (qpe_cur_header enc)); base = base_idx (qpe_cur_header enc) in
      if \<not> qpe_header_flag enc then Some (-1, buf, enc)
      else if max_id \<noteq> 0 then
        (case lsqpack_enc_int (buf[0 := 0]) 0 sz max_id 8 of
           None \<Rightarrow> None
         | Some (buf1, dst) \<Rightarrow>
             if dst \<le> 0 then Some (0, buf1, enc)
             else if sz \<le> dst then Some (0, buf1, enc)
             else
               (let sign = (if max_id \<le> base then 0 else 1 :: byte);
                    diff = (if max_id \<le> base then base - max_id else max_id - base)
                in case lsqpack_enc_int (buf1[dst := push_bit 7 sign]) dst sz diff 7 of
                     None \<Rightarrow> None
                   | Some (buf2, dst2) \<Rightarrow>
                       if dst2 \<le> dst then Some (0, buf2, enc)
                       else Some (int dst2, buf2, enc\<lparr>qpe_header_flag := False\<rparr>)))
      else if 2 \<le> sz then Some (2, write_at buf 0 [0, 0], enc\<lparr>qpe_header_flag := False\<rparr>)
      else Some (0, buf, enc))"

subsection \<open>lsqpack\_enc\_encode\<close>

datatype lsqpack_enc_status = LQES_OK | LQES_NOBUF_ENC | LQES_NOBUF_HEAD

datatype enc_action = EEA_NONE | EEA_INS_NAMEREF | EEA_INS_LIT

datatype hea_action = EHA_INDEXED_NEW | EHA_INDEXED_STAT | EHA_INDEXED_DYN
  | EHA_LIT_WITH_NAME_STAT | EHA_LIT_WITH_NAME_DYN | EHA_LIT_WITH_NAME_NEW | EHA_LIT

datatype tab_action = ETA_NOOP | ETA_NEW

record encode_program =
  ep_enc_action :: enc_action
  ep_hea_action :: hea_action
  ep_tab_action :: tab_action
  EPF_REF_FOUND :: bool
  EPF_REF_NEW :: bool

text \<open>The table \<open>encode_programs\<close>, indexed by found, table type, value matched, index
  and risk.\<close>

definition encode_programs :: "bool \<Rightarrow> table_type \<Rightarrow> bool \<Rightarrow> bool \<Rightarrow> bool \<Rightarrow> encode_program" where
  "encode_programs found tt value_match index risk =
     (if \<not> found then
        (if \<not> index then
           \<lparr>ep_enc_action = EEA_NONE, ep_hea_action = EHA_LIT, ep_tab_action = ETA_NOOP,
            EPF_REF_FOUND = False, EPF_REF_NEW = False\<rparr>
         else if \<not> risk then
           \<lparr>ep_enc_action = EEA_INS_LIT, ep_hea_action = EHA_LIT, ep_tab_action = ETA_NEW,
            EPF_REF_FOUND = False, EPF_REF_NEW = False\<rparr>
         else
           \<lparr>ep_enc_action = EEA_INS_LIT, ep_hea_action = EHA_INDEXED_NEW, ep_tab_action = ETA_NEW,
            EPF_REF_FOUND = False, EPF_REF_NEW = True\<rparr>)
      else if tt = TT_STATIC then
        (if \<not> value_match then
           (if \<not> index then
              \<lparr>ep_enc_action = EEA_NONE, ep_hea_action = EHA_LIT_WITH_NAME_STAT, ep_tab_action = ETA_NOOP,
               EPF_REF_FOUND = False, EPF_REF_NEW = False\<rparr>
            else if \<not> risk then
              \<lparr>ep_enc_action = EEA_INS_NAMEREF, ep_hea_action = EHA_LIT_WITH_NAME_STAT, ep_tab_action = ETA_NEW,
               EPF_REF_FOUND = False, EPF_REF_NEW = False\<rparr>
            else
              \<lparr>ep_enc_action = EEA_INS_NAMEREF, ep_hea_action = EHA_INDEXED_NEW, ep_tab_action = ETA_NEW,
               EPF_REF_FOUND = False, EPF_REF_NEW = True\<rparr>)
         else
           \<lparr>ep_enc_action = EEA_NONE, ep_hea_action = EHA_INDEXED_STAT, ep_tab_action = ETA_NOOP,
            EPF_REF_FOUND = False, EPF_REF_NEW = False\<rparr>)
      else
        (if \<not> value_match then
           (if \<not> index then
              \<lparr>ep_enc_action = EEA_NONE, ep_hea_action = EHA_LIT_WITH_NAME_DYN, ep_tab_action = ETA_NOOP,
               EPF_REF_FOUND = True, EPF_REF_NEW = False\<rparr>
            else
              \<lparr>ep_enc_action = EEA_INS_NAMEREF, ep_hea_action = EHA_LIT_WITH_NAME_NEW, ep_tab_action = ETA_NEW,
               EPF_REF_FOUND = True, EPF_REF_NEW = True\<rparr>)
         else
           \<lparr>ep_enc_action = EEA_NONE, ep_hea_action = EHA_INDEXED_DYN, ep_tab_action = ETA_NOOP,
            EPF_REF_FOUND = True, EPF_REF_NEW = False\<rparr>))"

text \<open>
  A part of \<open>lsqpack_enc_encode\<close> ends in a failed assertion, in an early \<open>return\<close> of a
  status, or goes on with a value.  An early \<open>return\<close> carries the output buffers as the
  function has written them by then: the first byte of a representation and the bytes
  of an integer are stored before the shortage of room is noticed.
\<close>

datatype ('e, 'a) outcome = Assert_failed | Early lsqpack_enc_status 'e | Go 'a

type_synonym put_outcome = "(byte list, byte list \<times> nat) outcome"

text \<open>An integer followed by a string, both written at the front of a buffer whose first
  byte has been set: the common shape of the representations.  \<open>nobuf\<close> is the status
  returned when the buffer is too small.\<close>

definition put_int :: "lsqpack_enc_status \<Rightarrow> byte list \<Rightarrow> byte \<Rightarrow> uint64 \<Rightarrow> nat \<Rightarrow> put_outcome" where
  "put_int nobuf buf first ident prefix_bits =
     (case lsqpack_enc_int (buf[0 := first]) 0 (length buf) ident prefix_bits of
        None \<Rightarrow> Assert_failed
      | Some (buf1, dst) \<Rightarrow> if dst \<le> 0 then Early nobuf buf1 else Go (buf1, dst))"

definition put_str :: "lsqpack_enc_status \<Rightarrow> nat \<Rightarrow> byte list \<Rightarrow> nat \<Rightarrow> byte list \<Rightarrow> put_outcome" where
  "put_str nobuf prefix_bits buf dst str =
     (case lsqpack_enc_enc_str prefix_bits buf dst (length buf - dst) str of
        None \<Rightarrow> Assert_failed
      | Some (buf1, r) \<Rightarrow> if r < 0 then Early nobuf buf1 else Go (buf1, dst + nat r))"

definition put_int_str :: "lsqpack_enc_status \<Rightarrow> byte list \<Rightarrow> byte \<Rightarrow> uint64 \<Rightarrow> nat \<Rightarrow> byte list \<Rightarrow> put_outcome" where
  "put_int_str nobuf buf first ident prefix_bits str =
     (case put_int nobuf buf first ident prefix_bits of
        Go (buf1, dst) \<Rightarrow> put_str nobuf 7 buf1 dst str
      | r \<Rightarrow> r)"

text \<open>The \<open>switch\<close> on \<open>prog.ep_enc_action\<close>: the encoder-stream buffer and \<open>enc_sz\<close>.\<close>

definition encode_enc_action :: "encode_program \<Rightarrow> enc_search_result \<Rightarrow> lsqpack_enc \<Rightarrow> byte list
    \<Rightarrow> byte list \<Rightarrow> byte list \<Rightarrow> put_outcome" where
  "encode_enc_action prog esr enc enc_buf name v =
     (case ep_enc_action prog of
        EEA_INS_NAMEREF \<Rightarrow>
          if esr_table_type esr = TT_STATIC
          then put_int_str LQES_NOBUF_ENC enc_buf (0x80 OR 0x40) (esr_entry_id esr) 6 v
          else put_int_str LQES_NOBUF_ENC enc_buf 0x80 (qpe_ins_count enc - esr_entry_id esr) 6 v
      | EEA_INS_LIT \<Rightarrow>
          (case put_str LQES_NOBUF_ENC 5 (enc_buf[0 := 0x40]) 0 name of
             Go (buf1, dst) \<Rightarrow> put_str LQES_NOBUF_ENC 7 buf1 dst v
           | r \<Rightarrow> r)
      | EEA_NONE \<Rightarrow> Go (enc_buf, 0))"

text \<open>The labels \<open>post_base_idx\<close> and \<open>post_base_name_ref\<close>.\<close>

definition post_base_idx :: "lsqpack_enc \<Rightarrow> byte list \<Rightarrow> lsqpack_abs_id_t \<Rightarrow> put_outcome" where
  "post_base_idx enc hea_buf ident =
     (if \<not> base_idx (qpe_cur_header enc) < ident then Assert_failed
      else put_int LQES_NOBUF_HEAD hea_buf 0x10 (ident - base_idx (qpe_cur_header enc)) 4)"

definition post_base_name_ref :: "lsqpack_enc \<Rightarrow> byte list \<Rightarrow> bool \<Rightarrow> lsqpack_abs_id_t \<Rightarrow> byte list \<Rightarrow> put_outcome" where
  "post_base_name_ref enc hea_buf no_index ident v =
     (if \<not> base_idx (qpe_cur_header enc) < ident then Assert_failed
      else put_int_str LQES_NOBUF_HEAD hea_buf (push_bit 3 (if no_index then 1 else 0))
             (ident - base_idx (qpe_cur_header enc)) 3 v)"

text \<open>The \<open>switch\<close> on \<open>prog.ep_hea_action\<close>: the header-block buffer and \<open>hea_sz\<close>.
  \<open>no_index\<close> is \<open>flags & LQEF_NO_INDEX\<close>.\<close>

definition encode_hea_action :: "encode_program \<Rightarrow> enc_search_result \<Rightarrow> lsqpack_enc \<Rightarrow> byte list
    \<Rightarrow> byte list \<Rightarrow> byte list \<Rightarrow> bool \<Rightarrow> put_outcome" where
  "encode_hea_action prog esr enc hea_buf name v no_index =
     (case ep_hea_action prog of
        EHA_INDEXED_STAT \<Rightarrow> put_int LQES_NOBUF_HEAD hea_buf (0x80 OR 0x40) (esr_entry_id esr) 6
      | EHA_INDEXED_NEW \<Rightarrow> post_base_idx enc hea_buf (qpe_ins_count enc + 1)
      | EHA_INDEXED_DYN \<Rightarrow>
          if base_idx (qpe_cur_header enc) < esr_entry_id esr
          then post_base_idx enc hea_buf (esr_entry_id esr)
          else put_int LQES_NOBUF_HEAD hea_buf 0x80 (esr_entry_id esr) 6
      | EHA_LIT \<Rightarrow>
          (case put_str LQES_NOBUF_HEAD 3
                  (hea_buf[0 := 0x20 OR push_bit 4 (if no_index then 1 else 0)]) 0 name of
             Go (buf1, dst) \<Rightarrow> put_str LQES_NOBUF_HEAD 7 buf1 dst v
           | r \<Rightarrow> r)
      | EHA_LIT_WITH_NAME_NEW \<Rightarrow> post_base_name_ref enc hea_buf no_index (esr_entry_id esr) v
      | EHA_LIT_WITH_NAME_DYN \<Rightarrow>
          if base_idx (qpe_cur_header enc) < esr_entry_id esr
          then post_base_name_ref enc hea_buf no_index (esr_entry_id esr) v
          else put_int_str LQES_NOBUF_HEAD hea_buf (0x40 OR push_bit 5 (if no_index then 1 else 0))
                 (base_idx (qpe_cur_header enc) - esr_entry_id esr) 4 v
      | EHA_LIT_WITH_NAME_STAT \<Rightarrow>
          put_int_str LQES_NOBUF_HEAD hea_buf (0x40 OR push_bit 5 (if no_index then 1 else 0) OR 0x10)
            (esr_entry_id esr) 4 v)"

text \<open>Changing the entry a pointer refers to.\<close>

definition update_entry :: "lsqpack_abs_id_t \<Rightarrow> (lsqpack_enc_table_entry \<Rightarrow> lsqpack_enc_table_entry)
    \<Rightarrow> lsqpack_enc \<Rightarrow> lsqpack_enc" where
  "update_entry p f enc = enc\<lparr>qpe_all_entries := map (\<lambda>e. if ete_id e = p then f e else e) (qpe_all_entries enc)\<rparr>"

definition upd_hinfo :: "(lsqpack_header_info \<Rightarrow> lsqpack_header_info) \<Rightarrow> lsqpack_enc \<Rightarrow> lsqpack_enc" where
  "upd_hinfo f enc = enc\<lparr>qpe_cur_header := (qpe_cur_header enc)\<lparr>hinfo := f (hinfo (qpe_cur_header enc))\<rparr>\<rparr>"

definition add_n_risked :: "unsigned \<Rightarrow> lsqpack_enc \<Rightarrow> lsqpack_enc" where
  "add_n_risked k enc = enc\<lparr>qpe_cur_header := (qpe_cur_header enc)\<lparr>n_risked := n_risked (qpe_cur_header enc) + k\<rparr>\<rparr>"

text \<open>The bookkeeping under \<open>EPF_REF_NEW\<close> for the entry just pushed.\<close>

definition ref_new :: "lsqpack_abs_id_t \<Rightarrow> lsqpack_enc \<Rightarrow> lsqpack_enc option" where
  "ref_new new_id enc =
     (let enc1 = update_entry new_id (\<lambda>e. e\<lparr>ete_n_reffd := ete_n_reffd e + 1\<rparr>) enc in
      if \<not> qhi_max_id (hinfo (qpe_cur_header enc1)) < new_id then None
      else
        (let enc2 = add_n_risked 1 (upd_hinfo (\<lambda>h. h\<lparr>qhi_max_id := new_id\<rparr>) enc1) in
         Some (if qhi_min_id (hinfo (qpe_cur_header enc2)) = 0 \<or> new_id < qhi_min_id (hinfo (qpe_cur_header enc2))
               then upd_hinfo (\<lambda>h. h\<lparr>qhi_min_id := new_id\<rparr>) enc2 else enc2)))"

text \<open>The bookkeeping under \<open>EPF_REF_FOUND\<close> for the entry found.\<close>

definition ref_found :: "enc_search_result \<Rightarrow> lsqpack_enc \<Rightarrow> lsqpack_enc option" where
  "ref_found esr enc =
     (if esr_table_type esr \<noteq> TT_DYNAMIC then None
      else
        (let ident = esr_entry_id esr;
             enc1 = (case esr_entry esr of
                       None \<Rightarrow> enc
                     | Some p \<Rightarrow> update_entry p (\<lambda>e. e\<lparr>ete_n_reffd := ete_n_reffd e + 1\<rparr>) enc);
             enc2 = add_n_risked (if qpe_max_acked_id enc1 < ident then 1 else 0) enc1;
             enc3 = (if qhi_min_id (hinfo (qpe_cur_header enc2)) = 0 \<or> ident < qhi_min_id (hinfo (qpe_cur_header enc2))
                     then upd_hinfo (\<lambda>h. h\<lparr>qhi_min_id := ident\<rparr>) enc2 else enc2)
         in Some (if qhi_max_id (hinfo (qpe_cur_header enc3)) = 0 \<or> qhi_max_id (hinfo (qpe_cur_header enc3)) < ident
                  then upd_hinfo (\<lambda>h. h\<lparr>qhi_max_id := ident\<rparr>) enc3 else enc3)))"

text \<open>The \<open>switch\<close> on \<open>prog.ep_tab_action\<close>: \<open>Inr\<close> is the \<open>goto restart\<close> after a failed
  push, with the encoder as the push has left it; \<open>None\<close> is a failed assertion.\<close>

definition encode_tab_action :: "xxh \<Rightarrow> push_mem \<Rightarrow> encode_program \<Rightarrow> lsqpack_enc \<Rightarrow> byte list
    \<Rightarrow> byte list \<Rightarrow> (lsqpack_enc + lsqpack_enc) option" where
  "encode_tab_action H mem prog enc name v =
     (case ep_tab_action prog of
        ETA_NOOP \<Rightarrow> Some (Inl enc)
      | ETA_NEW \<Rightarrow>
          (case lsqpack_enc_push_entry H mem enc name v of
             None \<Rightarrow> None
           | Some (None, enc1) \<Rightarrow> Some (Inr enc1)
           | Some (Some new_entry, enc1) \<Rightarrow>
               if EPF_REF_NEW prog
               then (case ref_new new_entry enc1 of
                       None \<Rightarrow> None | Some enc2 \<Rightarrow> Some (Inl enc2))
               else Some (Inl enc1)))"

text \<open>
  One pass from the label \<open>restart\<close> to the end of the function, for a given value of
  \<open>index\<close>.  \<open>Inr\<close> (inside \<open>Go\<close>) is the \<open>goto restart\<close> after a failed push, with the
  encoder as the push has left it and the two buffers as this pass has written them.
  An early \<open>return\<close> carries the two buffers as written by then.
\<close>

record encode_out =
  eo_enc_buf :: "byte list"
  eo_enc_sz :: nat
  eo_hea_buf :: "byte list"
  eo_hea_sz :: nat
  eo_enc :: lsqpack_enc

definition encode_pass :: "xxh \<Rightarrow> push_mem \<Rightarrow> lsqpack_enc \<Rightarrow> byte list \<Rightarrow> byte list \<Rightarrow> byte list
    \<Rightarrow> byte list \<Rightarrow> bool \<Rightarrow> bool
    \<Rightarrow> (byte list \<times> byte list, encode_out + lsqpack_enc \<times> byte list \<times> byte list) outcome" where
  "encode_pass H mem enc enc_buf hea_buf name v no_index index =
     (let risk = (0 < n_risked (qpe_cur_header enc) \<or> others_at_risk (qpe_cur_header enc)
                  \<or> qpe_cur_streams_at_risk enc < qpe_max_risked_streams enc);
          esr = qenc_find_entry H enc risk name v;
          prog = encode_programs (esr_found esr) (esr_table_type esr) (esr_value_match esr) index risk
      in case encode_enc_action prog esr enc enc_buf name v of
           Assert_failed \<Rightarrow> Assert_failed
         | Early s enc_buf' \<Rightarrow> Early s (enc_buf', hea_buf)
         | Go (enc_buf', enc_sz) \<Rightarrow>
             (case encode_hea_action prog esr enc hea_buf name v no_index of
                Assert_failed \<Rightarrow> Assert_failed
              | Early s hea_buf' \<Rightarrow> Early s (enc_buf', hea_buf')
              | Go (hea_buf', hea_sz) \<Rightarrow>
                  (case encode_tab_action H mem prog enc name v of
                     None \<Rightarrow> Assert_failed
                   | Some (Inr enc1) \<Rightarrow> Go (Inr (enc1, enc_buf', hea_buf'))
                   | Some (Inl enc1) \<Rightarrow>
                       (case (if EPF_REF_FOUND prog then ref_found esr enc1 else Some enc1) of
                          None \<Rightarrow> Assert_failed
                        | Some enc2 \<Rightarrow>
                            Go (Inl \<lparr>eo_enc_buf = enc_buf', eo_enc_sz = enc_sz,
                                     eo_hea_buf = hea_buf', eo_hea_sz = hea_sz, eo_enc = enc2\<rparr>)))))"

text \<open>
  \<open>lsqpack_enc_encode\<close>.  \<open>enc_buf\<close> and \<open>hea_buf\<close> are the two output buffers, their
  lengths the sizes passed in \<open>*enc_sz_p\<close> and \<open>*hea_sz_p\<close>.  The result is the status,
  the two buffers as the function leaves them, the two sizes (\<open>*enc_sz_p\<close> and
  \<open>*hea_sz_p\<close> are stored only with \<open>LQES_OK\<close>; with another status they keep the sizes
  passed in) and the encoder the function leaves behind.  After a failed push the
  second pass writes into the buffers that the first pass has written.  \<open>None\<close> is a
  failed assertion.
\<close>

definition lsqpack_enc_encode :: "xxh \<Rightarrow> push_mem \<Rightarrow> lsqpack_enc \<Rightarrow> byte list \<Rightarrow> byte list \<Rightarrow> byte list
    \<Rightarrow> byte list \<Rightarrow> bool \<Rightarrow> (lsqpack_enc_status \<times> encode_out) option" where
  "lsqpack_enc_encode H mem enc enc_buf hea_buf name v no_index =
     (let early = (\<lambda>e bufs. \<lparr>eo_enc_buf = fst bufs, eo_enc_sz = length enc_buf,
                             eo_hea_buf = snd bufs, eo_hea_sz = length hea_buf, eo_enc = e\<rparr>) in
      if hea_buf = [] then Some (LQES_NOBUF_HEAD, early enc (enc_buf, hea_buf))
      else
        (let can = (if \<not> no_index \<and> use_dynamic_table (qpe_cur_header enc)
                       \<and> qpe_ins_count enc < LSQPACK_MAX_ABS_ID
                    then enc_has_or_can_evict_at_least enc
                           (ucast (ENTRY_COST (of_nat (length name)) (of_nat (length v))))
                    else (False, enc));
             index = fst can; enc0 = snd can
         in case encode_pass H mem enc0 enc_buf hea_buf name v no_index index of
              Assert_failed \<Rightarrow> None
            | Early s bufs \<Rightarrow> Some (s, early enc0 bufs)
            | Go (Inl out) \<Rightarrow> Some (LQES_OK, out)
            | Go (Inr (enc1, enc_buf1, hea_buf1)) \<Rightarrow>
                (case encode_pass H mem enc1 enc_buf1 hea_buf1 name v no_index False of
                   Assert_failed \<Rightarrow> None
                 | Early s bufs \<Rightarrow> Some (s, early enc1 bufs)
                 | Go (Inl out) \<Rightarrow> Some (LQES_OK, out)
                 | Go (Inr r) \<Rightarrow> None)))"

subsection \<open>The decoder stream\<close>

text \<open>The three handlers; each returns -1 (the last statement of each is
  \<open>return -1;  /* TODO */\<close>) and leaves the encoder as it is.\<close>

definition enc_proc_header_ack :: "lsqpack_enc \<Rightarrow> uint64 \<Rightarrow> int" where
  "enc_proc_header_ack enc stream_id = (if MAX_QUIC_STREAM_ID < stream_id then -1 else -1)"

definition enc_proc_table_synch :: "lsqpack_enc \<Rightarrow> uint64 \<Rightarrow> int" where
  "enc_proc_table_synch enc abs_id = (if LSQPACK_MAX_ABS_ID < abs_id then -1 else -1)"

definition enc_proc_stream_cancel :: "lsqpack_enc \<Rightarrow> uint64 \<Rightarrow> int" where
  "enc_proc_stream_cancel enc stream_id = (if MAX_QUIC_STREAM_ID < stream_id then -1 else -1)"

fun call_handler :: "dec_stream_handler \<Rightarrow> lsqpack_enc \<Rightarrow> uint64 \<Rightarrow> int option" where
  "call_handler no_handler enc v = None"
| "call_handler enc_proc_header_ack_h enc v = Some (enc_proc_header_ack enc v)"
| "call_handler enc_proc_table_synch_h enc v = Some (enc_proc_table_synch enc v)"
| "call_handler enc_proc_stream_cancel_h enc v = Some (enc_proc_stream_cancel enc v)"

definition set_resume :: "bool \<Rightarrow> lsqpack_enc \<Rightarrow> lsqpack_enc" where
  "set_resume r enc = enc\<lparr>qpe_dec_stream_state := (qpe_dec_stream_state enc)
       \<lparr>dec_int_state := (dec_int_state (qpe_dec_stream_state enc))\<lparr>resume := r\<rparr>\<rparr>\<rparr>"

text \<open>
  \<open>lsqpack_enc_decoder_in\<close>: the loop over the input.  \<open>None\<close> is a failed assertion (the
  \<open>assert\<close> in the branch of the stream cancellation, or a call through a handler that
  was never set).  The prefix width is only used by a call of the integer decoder
  that is not resumed.  A decoded integer always consumes a byte of the input; the
  comparison of the lengths before the recursive call states that for the termination
  proof and has no counterpart in the source.
\<close>

function lsqpack_enc_decoder_in :: "lsqpack_enc \<Rightarrow> byte list \<Rightarrow> (int \<times> lsqpack_enc) option" where
  "lsqpack_enc_decoder_in enc buf =
     (case buf of
        [] \<Rightarrow> Some (0, enc)
      | b # rest \<Rightarrow>
          (case (if resume (dec_int_state (qpe_dec_stream_state enc)) then Some (0, enc)
                 else if b AND 0x80 \<noteq> 0
                 then Some (7, enc\<lparr>qpe_dec_stream_state := (qpe_dec_stream_state enc)\<lparr>handler := enc_proc_header_ack_h\<rparr>\<rparr>)
                 else if b AND 0xC = 0
                 then Some (6, enc\<lparr>qpe_dec_stream_state := (qpe_dec_stream_state enc)\<lparr>handler := enc_proc_table_synch_h\<rparr>\<rparr>)
                 else if b AND 0xC \<noteq> 0x40 then None
                 else Some (6, enc\<lparr>qpe_dec_stream_state := (qpe_dec_stream_state enc)\<lparr>handler := enc_proc_stream_cancel_h\<rparr>\<rparr>)) of
             None \<Rightarrow> None
           | Some (prefix_bits, enc1) \<Rightarrow>
               (case lsqpack_dec_int buf prefix_bits (dec_int_state (qpe_dec_stream_state enc1)) of
                  None \<Rightarrow> None
                | Some (DEC_INT_OK v buf') \<Rightarrow>
                    (case call_handler (handler (qpe_dec_stream_state enc1)) enc1 v of
                       None \<Rightarrow> None
                     | Some r \<Rightarrow>
                         if r \<noteq> 0 then Some (-1, enc1)
                         else if length buf' < length buf
                         then lsqpack_enc_decoder_in (set_resume False enc1) buf'
                         else None)
                | Some (DEC_INT_NEED st') \<Rightarrow>
                    Some (0, set_resume True
                               (enc1\<lparr>qpe_dec_stream_state := (qpe_dec_stream_state enc1)\<lparr>dec_int_state := st'\<rparr>\<rparr>))
                | Some DEC_INT_OVERFLOW \<Rightarrow> Some (-1, enc1))))"
  by pat_completeness auto
termination
  by (relation "measure (\<lambda>(enc, buf). length buf)") auto

declare lsqpack_enc_decoder_in.simps [simp del]

subsection \<open>Scenarios\<close>

text \<open>The header block that the decoder reads: the prefix written by
  \<open>lsqpack_enc_end_header\<close>, then the bytes written by \<open>lsqpack_enc_encode\<close>.\<close>

definition header_block :: "int \<times> byte list \<times> lsqpack_enc \<Rightarrow> encode_out \<Rightarrow> byte list" where
  "header_block pfx out = take (nat (fst pfx)) (fst (snd pfx)) @ take (eo_hea_sz out) (eo_hea_buf out)"

text \<open>
  An encoder is initialised with the given table size and number of risked streams, a
  header is started on stream \<open>stream_id\<close>, one name and value are encoded into buffers
  \<open>enc_buf\<close> and \<open>hea_buf\<close>, and the header is ended into \<open>pfx_buf\<close>.  The result is the
  status of the encoding, its output and the header block.
\<close>

definition encode_one_header :: "xxh \<Rightarrow> unsigned \<Rightarrow> unsigned \<Rightarrow> unsigned \<Rightarrow> unsigned \<Rightarrow> bool \<times> bool \<times> push_mem
    \<Rightarrow> uint64 \<Rightarrow> unsigned \<Rightarrow> byte list \<Rightarrow> byte list \<Rightarrow> byte list \<Rightarrow> byte list \<Rightarrow> byte list \<Rightarrow> bool
    \<Rightarrow> (lsqpack_enc_status \<times> encode_out \<times> byte list) option" where
  "encode_one_header H max_dyn max_risked dyn_table_size max_risked_streams mem stream_id seqno
       enc_buf hea_buf pfx_buf name v no_index =
     (case lsqpack_enc_init max_dyn max_risked (fst mem) zero_enc dyn_table_size max_risked_streams of
        (r0, e0, enc0) \<Rightarrow>
          if r0 \<noteq> 0 then None
          else (case lsqpack_enc_start_header (fst (snd mem)) enc0 stream_id seqno of
                  (r1, enc1) \<Rightarrow>
                    if r1 \<noteq> 0 then None
                    else (case lsqpack_enc_encode H (snd (snd mem)) enc1 enc_buf hea_buf name v no_index of
                            None \<Rightarrow> None
                          | Some (s, out) \<Rightarrow>
                              (case lsqpack_enc_end_header (eo_enc out) pfx_buf of
                                 None \<Rightarrow> None
                               | Some pfx \<Rightarrow> Some (s, out, header_block pfx out)))))"

definition header_block_of :: "(lsqpack_enc_status \<times> encode_out \<times> byte list) option
    \<Rightarrow> (lsqpack_enc_status \<times> byte list) option" where
  "header_block_of r = (case r of None \<Rightarrow> None | Some (s, out, hb) \<Rightarrow> Some (s, hb))"

text \<open>A hash function for the evaluation of scenarios: every string hashes to 0.\<close>

definition zero_xxh :: xxh where
  "zero_xxh = (\<lambda>name. 0, \<lambda>name v. 0)"

text \<open>
  Two header blocks of one header each, on the streams 0 and 4, with every allocation
  succeeding and returning zeroed memory, and output buffers of 64 bytes; the result is
  the encoder before the
  second call of \<open>lsqpack_enc_encode\<close> and the result of that call.
\<close>

definition encode_two_headers :: "xxh \<Rightarrow> unsigned \<Rightarrow> unsigned \<Rightarrow> byte list \<times> byte list \<Rightarrow> byte list \<times> byte list
    \<Rightarrow> (lsqpack_enc \<times> (lsqpack_enc_status \<times> encode_out) option) option" where
  "encode_two_headers H dyn_table_size max_risked_streams h1 h2 =
     (case encode_one_header H dyn_table_size max_risked_streams dyn_table_size max_risked_streams
             (True, True, True, True, 0) 0 0 (replicate 64 0) (replicate 64 0) (replicate 64 0)
             (fst h1) (snd h1) False of
        None \<Rightarrow> None
      | Some (s, out, hb) \<Rightarrow>
          (case lsqpack_enc_end_header (eo_enc out) (replicate 64 0) of
             None \<Rightarrow> None
           | Some (r, buf, enc1) \<Rightarrow>
               (case lsqpack_enc_start_header True enc1 4 0 of
                  (r2, enc2) \<Rightarrow>
                    if r2 \<noteq> 0 then None
                    else Some (enc2, lsqpack_enc_encode H (True, True, 0) enc2 (replicate 64 0) (replicate 64 0)
                                       (fst h2) (snd h2) False))))"


section \<open>Decoder\<close>

subsection \<open>Entries and the array of the dynamic table\<close>

text \<open>
  An entry of the decoder's table: the two lengths and the memory behind them, which
  holds the name and then the value.  Entries are values in the model.  The field
  \<open>dte_refcnt\<close> is left out: it is read by \<open>qdec_decref_entry\<close> only, to decide when
  the memory of an entry is released, and memory is not released in the model.
\<close>

record lsqpack_dec_table_entry =
  dte_name_len :: unsigned
  dte_val_len :: unsigned
  dte_buf :: "byte list"

definition DTE_NAME :: "lsqpack_dec_table_entry \<Rightarrow> byte list" where
  "DTE_NAME dte = take (unat (dte_name_len dte)) (dte_buf dte)"

definition DTE_SIZE :: "lsqpack_dec_table_entry \<Rightarrow> unsigned" where
  "DTE_SIZE dte = ENTRY_COST (dte_name_len dte) (dte_val_len dte)"

text \<open>
  \<open>struct lsqpack_arr\<close> is declared in the header, which is not part of the sources at
  hand; its four fields are those the code uses.  The slots of \<open>els\<close> hold pointers to
  entries; a slot that was never written is \<open>None\<close>.  Counts and positions are natural
  numbers (the array holds fewer than \<open>2^31\<close> slots); \<open>arr_els\<close> has \<open>arr_nalloc\<close> slots.
\<close>

record lsqpack_arr =
  arr_nalloc :: nat
  arr_off :: nat
  arr_nelem :: nat
  arr_els :: "lsqpack_dec_table_entry option list"

definition lsqpack_arr_init :: lsqpack_arr where
  "lsqpack_arr_init = \<lparr>arr_nalloc = 0, arr_off = 0, arr_nelem = 0, arr_els = []\<rparr>"

definition lsqpack_arr_count :: "lsqpack_arr \<Rightarrow> nat" where
  "lsqpack_arr_count a = arr_nelem a"

text \<open>\<open>lsqpack_arr_get\<close>; \<open>None\<close> is the failed assertion, or a slot outside the array or
  never written.\<close>

definition lsqpack_arr_get :: "lsqpack_arr \<Rightarrow> nat \<Rightarrow> lsqpack_dec_table_entry option" where
  "lsqpack_arr_get a i =
     (if i < arr_nelem a \<and> arr_off a + i < length (arr_els a) then arr_els a ! (arr_off a + i)
      else None)"

text \<open>\<open>lsqpack_arr_shift\<close>: the element and the array; \<open>None\<close> as for \<open>lsqpack_arr_get\<close>.\<close>

definition lsqpack_arr_shift :: "lsqpack_arr \<Rightarrow> (lsqpack_dec_table_entry \<times> lsqpack_arr) option" where
  "lsqpack_arr_shift a =
     (if 0 < arr_nelem a \<and> arr_off a < length (arr_els a) then
        (case arr_els a ! arr_off a of
           None \<Rightarrow> None
         | Some e \<Rightarrow> Some (e, a\<lparr>arr_nelem := arr_nelem a - 1, arr_off := arr_off a + 1\<rparr>))
      else None)"

text \<open>
  \<open>lsqpack_arr_push\<close>, with the outcome of \<open>malloc\<close>: a free slot behind the elements;
  or the elements moved to the front (\<open>memmove\<close>); or a new array of twice the size.
\<close>

definition lsqpack_arr_push :: "bool \<Rightarrow> lsqpack_arr \<Rightarrow> lsqpack_dec_table_entry \<Rightarrow> int \<times> lsqpack_arr" where
  "lsqpack_arr_push malloc_ok arr v =
     (if arr_off arr + arr_nelem arr < arr_nalloc arr then
        (0, arr\<lparr>arr_els := (arr_els arr)[arr_off arr + arr_nelem arr := Some v],
                arr_nelem := arr_nelem arr + 1\<rparr>)
      else if arr_nalloc arr div 2 < arr_off arr then
        (0, arr\<lparr>arr_els := (take (arr_nelem arr) (drop (arr_off arr) (arr_els arr))
                              @ drop (arr_nelem arr) (arr_els arr))[arr_nelem arr := Some v],
                arr_off := 0,
                arr_nelem := arr_nelem arr + 1\<rparr>)
      else
        (let n = (if arr_nalloc arr \<noteq> 0 then arr_nalloc arr * 2 else 64) in
         if \<not> malloc_ok then (-1, arr)
         else (0, \<lparr>arr_nalloc = n, arr_off = 0, arr_nelem = arr_nelem arr + 1,
                   arr_els = (take (arr_nelem arr) (drop (arr_off arr) (arr_els arr))
                              @ replicate (n - arr_nelem arr) None)[arr_nelem arr := Some v]\<rparr>)))"

text \<open>The entries stored, oldest first.\<close>

definition arr_entries :: "lsqpack_arr \<Rightarrow> lsqpack_dec_table_entry option list" where
  "arr_entries a = take (arr_nelem a) (drop (arr_off a) (arr_els a))"

subsection \<open>The min-heap of blocked header blocks\<close>

text \<open>
  \<open>mhe_hbrc\<close> points to a read context; pointers to read contexts are addresses (natural
  numbers) into the store of the decoder below.  \<open>struct lsqpack_min_heap\<close> is declared
  in the absent header; its three fields are those the code uses.  Counts and positions
  are natural numbers.  Memory that \<open>realloc\<close> adds is filled with \<open>mhe_null\<close>.
\<close>

record lsqpack_min_heap_elem =
  mhe_hbrc :: nat
  mhe_max_id :: lsqpack_abs_id_t

record lsqpack_min_heap =
  mh_elems :: "lsqpack_min_heap_elem list"
  mh_nelem :: nat
  mh_nalloc :: nat

definition mhe_null :: lsqpack_min_heap_elem where
  "mhe_null = \<lparr>mhe_hbrc = 0, mhe_max_id = 0\<rparr>"

definition MHE_PARENT :: "nat \<Rightarrow> nat" where
  "MHE_PARENT i = (i - 1) div 2"

definition MHE_LCHILD :: "nat \<Rightarrow> nat" where
  "MHE_LCHILD i = 2 * i + 1"

definition MHE_RCHILD :: "nat \<Rightarrow> nat" where
  "MHE_RCHILD i = 2 * i + 2"

definition mh_count :: "lsqpack_min_heap \<Rightarrow> nat" where
  "mh_count heap = mh_nelem heap"

definition mh_key :: "lsqpack_min_heap \<Rightarrow> nat \<Rightarrow> lsqpack_abs_id_t" where
  "mh_key heap i = mhe_max_id (mh_elems heap ! i)"

definition mh_swap :: "lsqpack_min_heap \<Rightarrow> nat \<Rightarrow> nat \<Rightarrow> lsqpack_min_heap" where
  "mh_swap heap i j = heap\<lparr>mh_elems := (mh_elems heap)[i := mh_elems heap ! j, j := mh_elems heap ! i]\<rparr>"

definition mh_smallest :: "lsqpack_min_heap \<Rightarrow> nat \<Rightarrow> nat" where
  "mh_smallest heap i =
     (if MHE_LCHILD i < mh_nelem heap then
        (let s = (if mh_key heap (MHE_LCHILD i) < mh_key heap i then MHE_LCHILD i else i) in
         if MHE_RCHILD i < mh_nelem heap \<and> mh_key heap (MHE_RCHILD i) < mh_key heap s
         then MHE_RCHILD i else s)
      else i)"

text \<open>\<open>mh_heapify\<close>; \<open>None\<close> is the failed assertion.\<close>

function mh_heapify :: "lsqpack_min_heap \<Rightarrow> nat \<Rightarrow> lsqpack_min_heap option" where
  "mh_heapify heap i =
     (if \<not> i < mh_nelem heap then None
      else if mh_smallest heap i \<noteq> i
      then mh_heapify (mh_swap heap (mh_smallest heap i) i) (mh_smallest heap i)
      else Some heap)"
  by pat_completeness auto
termination
  by (relation "measure (\<lambda>(heap, i). mh_nelem heap - i)")
     (auto simp add: mh_smallest_def mh_swap_def MHE_LCHILD_def MHE_RCHILD_def Let_def split: if_splits)

declare mh_heapify.simps [simp del]

text \<open>The loop of \<open>mh_insert\<close> that moves the new element up.\<close>

function mh_sift_up :: "lsqpack_min_heap \<Rightarrow> nat \<Rightarrow> lsqpack_min_heap" where
  "mh_sift_up heap i =
     (if 0 < i \<and> mh_key heap i < mh_key heap (MHE_PARENT i)
      then mh_sift_up (mh_swap heap (MHE_PARENT i) i) (MHE_PARENT i)
      else heap)"
  by pat_completeness auto
termination
  by (relation "measure (\<lambda>(heap, i). i)") (auto simp add: MHE_PARENT_def)

declare mh_sift_up.simps [simp del]

text \<open>
  \<open>mh_insert\<close>, with the outcome of \<open>realloc\<close>.  The source stores the new \<open>mh_nalloc\<close>
  before it calls \<open>realloc\<close> and keeps it when \<open>realloc\<close> fails.  \<open>None\<close>: the new element
  would be stored behind the end of the array.
\<close>

definition mh_insert :: "bool \<Rightarrow> lsqpack_min_heap \<Rightarrow> nat \<Rightarrow> lsqpack_abs_id_t
    \<Rightarrow> (int \<times> lsqpack_min_heap) option" where
  "mh_insert realloc_ok heap conn v =
     (let full = (mh_nalloc heap \<le> mh_nelem heap);
          heap1 = (if full
                   then heap\<lparr>mh_nalloc := (if mh_nalloc heap \<noteq> 0 then mh_nalloc heap * 2 else 4)\<rparr>
                   else heap)
      in if full \<and> \<not> realloc_ok then Some (-1, heap1)
         else
           (let heap2 = (if full
                         then heap1\<lparr>mh_elems := take (mh_nalloc heap1) (mh_elems heap1)
                                       @ replicate (mh_nalloc heap1 - length (mh_elems heap1)) mhe_null\<rparr>
                         else heap1)
            in if \<not> mh_nelem heap2 < length (mh_elems heap2) then None
               else Some (0, mh_sift_up
                               (heap2\<lparr>mh_elems := (mh_elems heap2)[mh_nelem heap2 :=
                                                      \<lparr>mhe_hbrc = conn, mhe_max_id = v\<rparr>],
                                       mh_nelem := mh_nelem heap2 + 1\<rparr>)
                               (mh_nelem heap2))))"

text \<open>
  \<open>mh_pop\<close>: the pointer returned (\<open>None\<close> for \<open>NULL\<close>) and the heap; the outer \<open>None\<close> is
  the failed assertion of \<open>mh_heapify\<close>.
\<close>

definition mh_pop :: "lsqpack_min_heap \<Rightarrow> lsqpack_abs_id_t \<Rightarrow> (nat option \<times> lsqpack_min_heap) option" where
  "mh_pop heap largest_id =
     (if mh_nelem heap = 0 \<or> largest_id < mh_key heap 0 then Some (None, heap)
      else
        (let hbrc = mhe_hbrc (mh_elems heap ! 0);
             heap1 = heap\<lparr>mh_nelem := mh_nelem heap - 1\<rparr>
         in if 0 < mh_nelem heap1
            then (case mh_heapify (heap1\<lparr>mh_elems := (mh_elems heap1)[0 := mh_elems heap1 ! mh_nelem heap1]\<rparr>) 0 of
                    None \<Rightarrow> None
                  | Some heap2 \<Rightarrow> Some (Some hbrc, heap2))
            else Some (Some hbrc, heap1)))"

subsection \<open>The decoder\<close>

text \<open>The part of a read context that the functions below use.\<close>

record header_block_read_ctx =
  hbrc_stream :: nat
  hbrc_size :: nat
  hbrc_largest_ref :: lsqpack_abs_id_t
  hbrc_have_largest_ref :: bool
  hbrc_blocked :: bool
  hbrc_lr_min_sz :: nat

datatype read_header_status = RHS_DONE | RHS_BLOCKED | RHS_NEED | RHS_ERROR

text \<open>The states of \<open>lsqpack_dec_enc_in\<close>.\<close>

datatype dei_state =
    DEI_NEXT_INST
  | DEI_WINR_READ_NAME_IDX
  | DEI_WINR_BEGIN_READ_VAL_LEN
  | DEI_WINR_READ_VAL_LEN
  | DEI_WINR_READ_VALUE_PLAIN
  | DEI_WINR_READ_VALUE_HUFFMAN
  | DEI_DUP_READ_IDX
  | DEI_SIZE_UPD_READ_IDX
  | DEI_WONR_READ_NAME_LEN
  | DEI_WONR_READ_NAME_HUFFMAN
  | DEI_WONR_READ_NAME_PLAIN
  | DEI_WONR_BEGIN_READ_VAL_LEN
  | DEI_WONR_READ_VAL_LEN
  | DEI_WONR_READ_VALUE_HUFFMAN
  | DEI_WONR_READ_VALUE_PLAIN

text \<open>
  \<open>qpd_enc_state\<close>: the state and the union \<open>ctx_u\<close> of the four instruction contexts
  (\<open>with_namref\<close>, \<open>wo_namref\<close>, \<open>duplicate\<close>, \<open>size_update\<close>).  Their declaration is in the
  absent header.  The model keeps the fields of the four contexts side by side; the
  member \<open>dec_int_state\<close>, which each context has and which the code reaches through
  two of them while reading one integer, is one field for all four.  Integers that
  \<open>lsqpack_dec_int\<close> stores are 64 bits wide, the others are taken as \<open>unsigned\<close>.
\<close>

record dec_enc_state =
  dei_resume :: dei_state
  dei_int_state :: lsqpack_dec_int_state
  winr_huff_state :: lsqpack_huff_decode_state
  winr_is_static :: bool
  winr_is_huffman :: bool
  winr_name_idx :: uint64
  winr_val_len :: uint64
  winr_name_len :: unsigned
  winr_name :: "byte list"
  winr_reffed_entry :: "lsqpack_dec_table_entry option"
  winr_entry :: "lsqpack_dec_table_entry option"
  winr_alloced_val_len :: unsigned
  winr_val_off :: unsigned
  winr_nread :: unsigned
  wonr_huff_state :: lsqpack_huff_decode_state
  wonr_is_huffman :: bool
  wonr_str_len :: uint64
  wonr_entry :: "lsqpack_dec_table_entry option"
  wonr_alloced_len :: unsigned
  wonr_str_off :: unsigned
  wonr_nread :: unsigned
  dupl_index :: uint64
  tbsz_new_size :: uint64

text \<open>
  \<open>struct lsqpack_dec\<close> is declared in the absent header; the fields are those the code
  uses, the capacities and the limit \<open>unsigned\<close> as the arguments that set them, the two
  counters of type \<open>lsqpack_abs_id_t\<close>.  The list \<open>qpd_hbrcs\<close> holds pointers to read
  contexts.  Four more fields stand for the world around the decoder: the read
  contexts allocated so far, by address (\<open>qpd_store\<close>), and the next address that
  \<open>malloc\<close> hands out (\<open>qpd_next\<close>); the outcomes of the allocations to come
  (\<open>qpd_mem\<close>; when the list is used up, allocations succeed); and the calls of
  \<open>qpd_wantread_header_block\<close> and \<open>qpd_header_block_done\<close> made so far.
\<close>

record lsqpack_dec =
  qpd_max_capacity :: unsigned
  qpd_cur_max_capacity :: unsigned
  qpd_cur_capacity :: unsigned
  qpd_max_risked_streams :: unsigned
  qpd_ins_count :: lsqpack_abs_id_t
  qpd_del_count :: lsqpack_abs_id_t
  qpd_dyn_table :: lsqpack_arr
  qpd_blocked_headers :: lsqpack_min_heap
  qpd_hbrcs :: "nat list"
  qpd_enc_state :: dec_enc_state
  qpd_store :: "nat \<Rightarrow> header_block_read_ctx option"
  qpd_next :: nat
  qpd_mem :: "bool list"
  qpd_wantread_calls :: "(nat \<times> bool) list"
  qpd_done_calls :: "nat list"

text \<open>One allocation: its outcome and the decoder with the outcomes that remain.\<close>

definition alloc :: "lsqpack_dec \<Rightarrow> bool \<times> lsqpack_dec" where
  "alloc dec = (case qpd_mem dec of [] \<Rightarrow> (True, dec) | b # bs \<Rightarrow> (b, dec\<lparr>qpd_mem := bs\<rparr>))"

definition zero_dec_int_state :: lsqpack_dec_int_state where
  "zero_dec_int_state = \<lparr>resume = False, M = 0, nread = 0, val = 0\<rparr>"

definition zero_huff_state :: lsqpack_huff_decode_state where
  "zero_huff_state = \<lparr>hds_resume = 0, hds_status = \<lparr>ds_state = 0, ds_eos = False\<rparr>\<rparr>"

definition zero_enc_state :: dec_enc_state where
  "zero_enc_state = \<lparr>dei_resume = DEI_NEXT_INST, dei_int_state = zero_dec_int_state,
     winr_huff_state = zero_huff_state, winr_is_static = False, winr_is_huffman = False,
     winr_name_idx = 0, winr_val_len = 0, winr_name_len = 0, winr_name = [],
     winr_reffed_entry = None, winr_entry = None, winr_alloced_val_len = 0, winr_val_off = 0,
     winr_nread = 0, wonr_huff_state = zero_huff_state, wonr_is_huffman = False, wonr_str_len = 0,
     wonr_entry = None, wonr_alloced_len = 0, wonr_str_off = 0, wonr_nread = 0,
     dupl_index = 0, tbsz_new_size = 0\<rparr>"

text \<open>
  \<open>lsqpack_dec_init\<close>; \<open>mem\<close> gives the outcomes of the allocations to come.  Addresses
  start at 1: \<open>malloc\<close> does not hand out \<open>NULL\<close>.
\<close>

definition lsqpack_dec_init :: "bool list \<Rightarrow> unsigned \<Rightarrow> unsigned \<Rightarrow> lsqpack_dec" where
  "lsqpack_dec_init mem dyn_table_size max_risked_streams =
     \<lparr>qpd_max_capacity = dyn_table_size, qpd_cur_max_capacity = dyn_table_size,
      qpd_cur_capacity = 0, qpd_max_risked_streams = max_risked_streams,
      qpd_ins_count = 0, qpd_del_count = 0, qpd_dyn_table = lsqpack_arr_init,
      qpd_blocked_headers = \<lparr>mh_elems = [], mh_nelem = 0, mh_nalloc = 0\<rparr>,
      qpd_hbrcs = [], qpd_enc_state = zero_enc_state,
      qpd_store = (\<lambda>a. None), qpd_next = 1, qpd_mem = mem,
      qpd_wantread_calls = [], qpd_done_calls = []\<rparr>"

subsection \<open>The dynamic table of the decoder\<close>

text \<open>
  \<open>qdec_get_table_entry_rel\<close>; \<open>None\<close> is \<open>NULL\<close> (or what \<open>lsqpack_arr_get\<close> gives for a slot
  that holds no entry).
\<close>

definition qdec_get_table_entry_rel :: "lsqpack_dec \<Rightarrow> lsqpack_abs_id_t \<Rightarrow> lsqpack_dec_table_entry option" where
  "qdec_get_table_entry_rel dec relative_idx =
     (if unat relative_idx < lsqpack_arr_count (qpd_dyn_table dec)
      then lsqpack_arr_get (qpd_dyn_table dec)
             (lsqpack_arr_count (qpd_dyn_table dec) - 1 - unat relative_idx)
      else None)"

text \<open>\<open>qdec_drop_oldest_entry\<close>; \<open>None\<close> is the failed assertion of \<open>lsqpack_arr_shift\<close>.\<close>

definition qdec_drop_oldest_entry :: "lsqpack_dec \<Rightarrow> lsqpack_dec option" where
  "qdec_drop_oldest_entry dec =
     (case lsqpack_arr_shift (qpd_dyn_table dec) of
        None \<Rightarrow> None
      | Some (entry, arr) \<Rightarrow>
          Some (dec\<lparr>qpd_dyn_table := arr,
                    qpd_cur_capacity := qpd_cur_capacity dec - DTE_SIZE entry,
                    qpd_del_count := qpd_del_count dec + 1\<rparr>))"

function qdec_remove_overflow_entries :: "lsqpack_dec \<Rightarrow> lsqpack_dec option" where
  "qdec_remove_overflow_entries dec =
     (if qpd_cur_max_capacity dec < qpd_cur_capacity dec
      then (case qdec_drop_oldest_entry dec of
              None \<Rightarrow> None
            | Some dec' \<Rightarrow> qdec_remove_overflow_entries dec')
      else Some dec)"
  by pat_completeness auto
termination
  by (relation "measure (\<lambda>dec. arr_nelem (qpd_dyn_table dec))")
     (auto simp add: qdec_drop_oldest_entry_def lsqpack_arr_shift_def split: option.splits if_splits)

declare qdec_remove_overflow_entries.simps [simp del]

definition qdec_update_max_capacity :: "lsqpack_dec \<Rightarrow> unsigned \<Rightarrow> lsqpack_dec option" where
  "qdec_update_max_capacity dec new_capacity =
     qdec_remove_overflow_entries (dec\<lparr>qpd_cur_max_capacity := new_capacity\<rparr>)"

definition lsqpack_dec_set_max_capacity :: "lsqpack_dec \<Rightarrow> unsigned \<Rightarrow> lsqpack_dec option" where
  "lsqpack_dec_set_max_capacity dec max_capacity =
     qdec_update_max_capacity (dec\<lparr>qpd_max_capacity := max_capacity\<rparr>) max_capacity"

subsection \<open>Blocked header blocks\<close>

text \<open>
  \<open>qdec_process_blocked_headers\<close>: each read context that \<open>mh_pop\<close> returns has its flag
  \<open>HBRC_BLOCKED\<close> cleared and its stream passed to \<open>qpd_wantread_header_block\<close> with 1.
  \<open>None\<close>: a failed assertion, or a pointer to a read context that does not exist.
\<close>

function qdec_process_blocked_headers :: "lsqpack_dec \<Rightarrow> lsqpack_dec option" where
  "qdec_process_blocked_headers dec =
     (case mh_pop (qpd_blocked_headers dec) (qpd_ins_count dec) of
        None \<Rightarrow> None
      | Some (None, heap) \<Rightarrow> Some (dec\<lparr>qpd_blocked_headers := heap\<rparr>)
      | Some (Some a, heap) \<Rightarrow>
          (case qpd_store dec a of
             None \<Rightarrow> None
           | Some read_ctx \<Rightarrow>
               if mh_nelem heap < mh_nelem (qpd_blocked_headers dec)
               then qdec_process_blocked_headers
                      (dec\<lparr>qpd_blocked_headers := heap,
                            qpd_store := (qpd_store dec)(a \<mapsto> read_ctx\<lparr>hbrc_blocked := False\<rparr>),
                            qpd_wantread_calls := qpd_wantread_calls dec @ [(hbrc_stream read_ctx, True)]\<rparr>)
               else None))"
  by pat_completeness auto
termination
  by (relation "measure (\<lambda>dec. mh_nelem (qpd_blocked_headers dec))") auto

declare qdec_process_blocked_headers.simps [simp del]

text \<open>
  \<open>lsqpack_dec_push_entry\<close>: the return value and the decoder; \<open>None\<close> as in the functions
  it calls.
\<close>

definition lsqpack_dec_push_entry :: "lsqpack_dec \<Rightarrow> lsqpack_dec_table_entry \<Rightarrow> (int \<times> lsqpack_dec) option" where
  "lsqpack_dec_push_entry dec entry =
     (case alloc dec of
        (malloc_ok, dec0) \<Rightarrow>
          (case lsqpack_arr_push malloc_ok (qpd_dyn_table dec0) entry of
             (r, arr) \<Rightarrow>
               if r = 0 then
                 (case qdec_remove_overflow_entries
                         (dec0\<lparr>qpd_dyn_table := arr,
                                qpd_cur_capacity := qpd_cur_capacity dec0 + DTE_SIZE entry,
                                qpd_ins_count := qpd_ins_count dec0 + 1\<rparr>) of
                    None \<Rightarrow> None
                  | Some dec1 \<Rightarrow>
                      (case qdec_process_blocked_headers dec1 of
                         None \<Rightarrow> None
                       | Some dec2 \<Rightarrow> Some (0, dec2)))
               else Some (-1, dec0\<lparr>qpd_dyn_table := arr\<rparr>)))"

text \<open>\<open>stash_blocked_header\<close> for the read context at address \<open>a\<close>.\<close>

definition stash_blocked_header :: "lsqpack_dec \<Rightarrow> nat \<Rightarrow> (int \<times> lsqpack_dec) option" where
  "stash_blocked_header dec a =
     (if unat (qpd_max_risked_streams dec) \<le> mh_count (qpd_blocked_headers dec) then Some (-1, dec)
      else
        (case qpd_store dec a of
           None \<Rightarrow> None
         | Some read_ctx \<Rightarrow>
             (case alloc dec of
                (realloc_ok, dec0) \<Rightarrow>
                  (case mh_insert realloc_ok (qpd_blocked_headers dec0) a (hbrc_largest_ref read_ctx) of
                     None \<Rightarrow> None
                   | Some (r, heap) \<Rightarrow>
                       if r = 0
                       then Some (0, dec0\<lparr>qpd_blocked_headers := heap,
                                          qpd_store := (qpd_store dec0)(a \<mapsto> read_ctx\<lparr>hbrc_blocked := True\<rparr>)\<rparr>)
                       else Some (-1, dec0\<lparr>qpd_blocked_headers := heap\<rparr>)))))"

text \<open>\<open>find_header_block_read_ctx\<close>: the first read context of the list with the stream.\<close>

definition find_header_block_read_ctx :: "lsqpack_dec \<Rightarrow> nat \<Rightarrow> nat option" where
  "find_header_block_read_ctx dec stream =
     find (\<lambda>a. case qpd_store dec a of None \<Rightarrow> False | Some read_ctx \<Rightarrow> hbrc_stream read_ctx = stream)
       (qpd_hbrcs dec)"

text \<open>
  \<open>qdec_read_header\<close> pulls the bytes of the header block through the callback
  \<open>qpd_read_header_block\<close> and parses them; it changes the read context and reads the
  decoder.  What it returns and the read context it leaves are given by the parameter
  \<open>rh\<close> of the two functions that call it.
\<close>

type_synonym read_header = "lsqpack_dec \<Rightarrow> header_block_read_ctx \<Rightarrow> read_header_status \<times> header_block_read_ctx"

text \<open>\<open>lsqpack_dec_header_read\<close>; \<open>None\<close> as in \<open>stash_blocked_header\<close>.\<close>

definition lsqpack_dec_header_read :: "read_header \<Rightarrow> lsqpack_dec \<Rightarrow> nat \<Rightarrow> (int \<times> lsqpack_dec) option" where
  "lsqpack_dec_header_read rh dec stream =
     (case find_header_block_read_ctx dec stream of
        None \<Rightarrow> Some (-1, dec)
      | Some a \<Rightarrow>
          (case qpd_store dec a of
             None \<Rightarrow> None
           | Some read_ctx0 \<Rightarrow>
               (case rh dec read_ctx0 of
                  (st, read_ctx) \<Rightarrow>
                    (let dec1 = dec\<lparr>qpd_store := (qpd_store dec)(a \<mapsto> read_ctx)\<rparr> in
                     case st of
                       RHS_DONE \<Rightarrow>
                         Some (0, dec1\<lparr>qpd_done_calls := qpd_done_calls dec1 @ [hbrc_stream read_ctx],
                                       qpd_hbrcs := remove1 a (qpd_hbrcs dec1),
                                       qpd_store := (qpd_store dec1)(a := None)\<rparr>)
                     | RHS_NEED \<Rightarrow>
                         Some (0, dec1\<lparr>qpd_wantread_calls :=
                                         qpd_wantread_calls dec1 @ [(hbrc_stream read_ctx, True)]\<rparr>)
                     | RHS_BLOCKED \<Rightarrow>
                         (case stash_blocked_header dec1 a of
                            None \<Rightarrow> None
                          | Some (r, dec2) \<Rightarrow>
                              if r = 0
                              then Some (0, dec2\<lparr>qpd_wantread_calls :=
                                                  qpd_wantread_calls dec2 @ [(hbrc_stream read_ctx, False)]\<rparr>)
                              else Some (-1, dec2))
                     | RHS_ERROR \<Rightarrow> Some (-1, dec1)))))"

text \<open>\<open>lsqpack_dec_header_in\<close>.\<close>

definition lsqpack_dec_header_in :: "read_header \<Rightarrow> lsqpack_dec \<Rightarrow> nat \<Rightarrow> nat \<Rightarrow> (int \<times> lsqpack_dec) option" where
  "lsqpack_dec_header_in rh dec stream header_size =
     (let read_ctx_buf = \<lparr>hbrc_stream = stream, hbrc_size = header_size, hbrc_largest_ref = 0,
                          hbrc_have_largest_ref = False, hbrc_blocked = False,
                          hbrc_lr_min_sz = lsqpack_val2len (qpd_del_count dec) 8\<rparr>
      in case rh dec read_ctx_buf of
           (st, read_ctx) \<Rightarrow>
             (case st of
                RHS_DONE \<Rightarrow> Some (0, dec\<lparr>qpd_done_calls := qpd_done_calls dec @ [stream]\<rparr>)
              | RHS_ERROR \<Rightarrow> Some (-1, dec)
              | _ \<Rightarrow>
                  (case alloc dec of
                     (malloc_ok, dec0) \<Rightarrow>
                       if \<not> malloc_ok then Some (-1, dec0)
                       else
                         (let a = qpd_next dec0;
                              dec1 = dec0\<lparr>qpd_next := a + 1,
                                          qpd_store := (qpd_store dec0)(a \<mapsto> read_ctx),
                                          qpd_hbrcs := qpd_hbrcs dec0 @ [a]\<rparr>
                          in case (if st = RHS_BLOCKED then stash_blocked_header dec1 a else Some (0, dec1)) of
                               None \<Rightarrow> None
                             | Some (r, dec2) \<Rightarrow>
                                 if r \<noteq> 0 then Some (-1, dec2)
                                 else Some (0, dec2\<lparr>qpd_wantread_calls :=
                                                     qpd_wantread_calls dec2 @ [(stream, st = RHS_NEED)]\<rparr>)))))"

subsection \<open>lsqpack\_dec\_enc\_in\<close>

text \<open>
  One pass through the body of the loop ends in undefined behaviour (a failed
  assertion, a null pointer followed, memory used outside its block), in a \<open>return\<close>,
  or at the end of the \<open>switch\<close> with the rest of the input.
\<close>

datatype dec_step = DEC_UNDEF | DEC_RETURN int lsqpack_dec | DEC_CONT lsqpack_dec "byte list"

definition upd_es :: "(dec_enc_state \<Rightarrow> dec_enc_state) \<Rightarrow> lsqpack_dec \<Rightarrow> lsqpack_dec" where
  "upd_es f dec = dec\<lparr>qpd_enc_state := f (qpd_enc_state dec)\<rparr>"

text \<open>
  The memory of an entry is a list of bytes.  \<open>store_at\<close> is \<open>memcpy\<close> into it, \<open>None\<close> when
  the bytes do not fit; \<open>resize\<close> is what \<open>realloc\<close> leaves (new bytes are taken as 0).
\<close>

definition store_at :: "byte list \<Rightarrow> nat \<Rightarrow> byte list \<Rightarrow> byte list option" where
  "store_at buf pos bs = (if pos + length bs \<le> length buf then Some (write_at buf pos bs) else None)"

definition resize :: "byte list \<Rightarrow> nat \<Rightarrow> byte list" where
  "resize buf n = take n buf @ replicate (n - length buf) 0"

text \<open>\<open>MIN((unsigned) (end - buf), remaining)\<close>, a number of bytes.\<close>

definition dei_size :: "byte list \<Rightarrow> uint64 \<Rightarrow> nat" where
  "dei_size buf remaining = unat (min (ucast (of_nat (length buf) :: unsigned)) remaining)"

text \<open>
  A call of \<open>lsqpack_dec_int\<close> on the shared state and the three ways to go on: with the
  value and the rest of the input, \<open>return 0\<close> when more input is needed, \<open>return -1\<close>.
\<close>

definition dei_read_int :: "nat \<Rightarrow> lsqpack_dec \<Rightarrow> byte list \<Rightarrow> (uint64 \<Rightarrow> byte list \<Rightarrow> dec_step) \<Rightarrow> dec_step" where
  "dei_read_int prefix_bits dec buf k =
     (case lsqpack_dec_int buf prefix_bits (dei_int_state (qpd_enc_state dec)) of
        None \<Rightarrow> DEC_UNDEF
      | Some (DEC_INT_OK v rest) \<Rightarrow> k v rest
      | Some (DEC_INT_NEED st) \<Rightarrow> DEC_RETURN 0 (upd_es (\<lambda>s. s\<lparr>dei_int_state := st\<rparr>) dec)
      | Some DEC_INT_OVERFLOW \<Rightarrow> DEC_RETURN (-1) dec)"

text \<open>
  The end of an insertion: \<open>lsqpack_dec_push_entry\<close>, then either the next instruction
  or \<open>return -1\<close>; \<open>clear\<close> sets the pointer to the entry to \<open>NULL\<close>.
\<close>

definition dei_push :: "lsqpack_dec \<Rightarrow> lsqpack_dec_table_entry \<Rightarrow> byte list
    \<Rightarrow> (dec_enc_state \<Rightarrow> dec_enc_state) \<Rightarrow> dec_step" where
  "dei_push dec entry rest clear =
     (case lsqpack_dec_push_entry dec entry of
        None \<Rightarrow> DEC_UNDEF
      | Some (r, dec') \<Rightarrow>
          if r = 0 then DEC_CONT (upd_es (\<lambda>s. clear (s\<lparr>dei_resume := DEI_NEXT_INST\<rparr>)) dec') rest
          else DEC_RETURN (-1) (upd_es clear dec'))"

subsubsection \<open>Insert with name reference\<close>

definition dei_winr_read_name_idx :: "nat \<Rightarrow> lsqpack_dec \<Rightarrow> byte list \<Rightarrow> dec_step" where
  "dei_winr_read_name_idx prefix_bits dec buf =
     dei_read_int prefix_bits dec buf (\<lambda>v rest.
       (let dec1 = upd_es (\<lambda>s. s\<lparr>winr_name_idx := v\<rparr>) dec in
        if winr_is_static (qpd_enc_state dec1) then
          (if v < 1 \<or> of_nat QPACK_STATIC_TABLE_SIZE < v then DEC_RETURN (-1) dec1
           else DEC_CONT (upd_es (\<lambda>s. s\<lparr>winr_reffed_entry := None,
                                          dei_resume := DEI_WINR_BEGIN_READ_VAL_LEN\<rparr>) dec1) rest)
        else
          (case qdec_get_table_entry_rel dec1 v of
             None \<Rightarrow> DEC_RETURN (-1) (upd_es (\<lambda>s. s\<lparr>winr_reffed_entry := None\<rparr>) dec1)
           | Some e \<Rightarrow>
               DEC_CONT (upd_es (\<lambda>s. s\<lparr>winr_reffed_entry := Some e,
                                         dei_resume := DEI_WINR_BEGIN_READ_VAL_LEN\<rparr>) dec1) rest)))"

definition dei_winr_read_val_len :: "nat \<Rightarrow> lsqpack_dec \<Rightarrow> byte list \<Rightarrow> dec_step" where
  "dei_winr_read_val_len prefix_bits dec buf =
     dei_read_int prefix_bits dec buf (\<lambda>v rest.
       (let s = qpd_enc_state dec in
        case (if winr_is_static s
              then (if 1 \<le> unat (winr_name_idx s) \<and> unat (winr_name_idx s) \<le> length static_table
                    then Some (fst (static_table ! (unat (winr_name_idx s) - 1))) else None)
              else (case winr_reffed_entry s of None \<Rightarrow> None | Some e \<Rightarrow> Some (DTE_NAME e))) of
          None \<Rightarrow> DEC_UNDEF
        | Some name_bytes \<Rightarrow>
            (let name_len = (of_nat (length name_bytes) :: unsigned);
                 alloced = (if winr_is_huffman s then ucast (v + v div 4) else ucast v :: unsigned);
                 s1 = s\<lparr>winr_val_len := v, winr_name_len := name_len, winr_name := name_bytes,
                         winr_alloced_val_len := alloced\<rparr>
             in case alloc (dec\<lparr>qpd_enc_state := s1\<rparr>) of
                  (malloc_ok, dec1) \<Rightarrow>
                    if \<not> malloc_ok then DEC_RETURN (-1) (upd_es (\<lambda>s. s\<lparr>winr_entry := None\<rparr>) dec1)
                    else
                      DEC_CONT
                        (upd_es (\<lambda>s. s\<lparr>winr_entry :=
                                         Some \<lparr>dte_name_len = name_len, dte_val_len = 0,
                                               dte_buf = replicate (unat name_len + unat alloced) 0\<rparr>,
                                       winr_nread := 0, winr_val_off := 0,
                                       dei_resume := (if winr_is_huffman s then DEI_WINR_READ_VALUE_HUFFMAN
                                                      else DEI_WINR_READ_VALUE_PLAIN),
                                       winr_huff_state := (if winr_is_huffman s
                                                           then (winr_huff_state s)\<lparr>hds_resume := 0\<rparr>
                                                           else winr_huff_state s)\<rparr>) dec1)
                        rest)))"

text \<open>The entry is complete: its name is copied in and it is pushed.\<close>

definition dei_winr_finish :: "lsqpack_dec \<Rightarrow> lsqpack_dec_table_entry \<Rightarrow> byte list \<Rightarrow> dec_step" where
  "dei_winr_finish dec entry rest =
     (case store_at (dte_buf entry) 0
             (take (unat (winr_name_len (qpd_enc_state dec))) (winr_name (qpd_enc_state dec))) of
        None \<Rightarrow> DEC_UNDEF
      | Some m \<Rightarrow>
          dei_push (upd_es (\<lambda>s. s\<lparr>winr_reffed_entry := None\<rparr>) dec) (entry\<lparr>dte_buf := m\<rparr>) rest
            (\<lambda>s. s\<lparr>winr_entry := None\<rparr>))"

definition dei_winr_read_value_huffman :: "lsqpack_dec \<Rightarrow> byte list \<Rightarrow> dec_step" where
  "dei_winr_read_value_huffman dec buf =
     (let s = qpd_enc_state dec;
          size = dei_size buf (winr_val_len s - ucast (winr_nread s));
          final = (ucast (winr_nread s) + of_nat size = winr_val_len s);
          dst_len = unat (winr_alloced_val_len s - winr_val_off s)
      in case winr_entry s of
           None \<Rightarrow> DEC_UNDEF
         | Some entry \<Rightarrow>
             (case lsqpack_huff_decode (take size buf) dst_len (winr_huff_state s) final of
                None \<Rightarrow> DEC_UNDEF
              | Some (hdr, out, hst) \<Rightarrow>
                  (case store_at (dte_buf entry) (unat (dte_name_len entry) + unat (winr_val_off s)) out of
                     None \<Rightarrow> DEC_UNDEF
                   | Some m \<Rightarrow>
                       (let entry1 = entry\<lparr>dte_buf := m\<rparr>;
                            dec1 = upd_es (\<lambda>s. s\<lparr>winr_huff_state := hst, winr_entry := Some entry1\<rparr>) dec
                        in case hdr_status hdr of
                             HUFF_DEC_OK \<Rightarrow>
                               dei_winr_finish dec1
                                 (entry1\<lparr>dte_val_len := winr_val_off s + of_nat (n_dst hdr)\<rparr>)
                                 (drop (n_src hdr) buf)
                           | HUFF_DEC_END_SRC \<Rightarrow>
                               DEC_CONT (upd_es (\<lambda>s. s\<lparr>winr_nread := winr_nread s + of_nat (n_src hdr),
                                                         winr_val_off := winr_val_off s + of_nat (n_dst hdr)\<rparr>) dec1)
                                 (drop (n_src hdr) buf)
                           | HUFF_DEC_END_DST \<Rightarrow>
                               (let dec2 = upd_es (\<lambda>s. s\<lparr>winr_alloced_val_len := winr_alloced_val_len s * 2\<rparr>) dec1 in
                                case alloc dec2 of
                                  (realloc_ok, dec3) \<Rightarrow>
                                    if \<not> realloc_ok then DEC_RETURN (-1) dec3
                                    else DEC_CONT
                                           (upd_es (\<lambda>s. s\<lparr>winr_entry :=
                                                            Some (entry1\<lparr>dte_buf := resize m
                                                                    (unat (winr_name_len s) + unat (winr_alloced_val_len s))\<rparr>),
                                                          winr_nread := winr_nread s + of_nat (n_src hdr),
                                                          winr_val_off := winr_val_off s + of_nat (n_dst hdr)\<rparr>) dec3)
                                           (drop (n_src hdr) buf))
                           | HUFF_DEC_ERROR \<Rightarrow> DEC_RETURN (-1) dec1))))"

definition dei_winr_read_value_plain :: "lsqpack_dec \<Rightarrow> byte list \<Rightarrow> dec_step" where
  "dei_winr_read_value_plain dec buf =
     (case winr_entry (qpd_enc_state dec) of
        None \<Rightarrow> DEC_UNDEF
      | Some entry0 \<Rightarrow>
          (case (if ucast (winr_alloced_val_len (qpd_enc_state dec)) < winr_val_len (qpd_enc_state dec)
                 then (case alloc (upd_es (\<lambda>s. s\<lparr>winr_alloced_val_len := ucast (winr_val_len s)\<rparr>) dec) of
                         (realloc_ok, dec1) \<Rightarrow>
                           if \<not> realloc_ok then Inl dec1
                           else Inr (dec1, entry0\<lparr>dte_buf := resize (dte_buf entry0)
                                              (unat (winr_alloced_val_len (qpd_enc_state dec1)))\<rparr>))
                 else Inr (dec, entry0)) of
             Inl dec1 \<Rightarrow> DEC_RETURN (-1) dec1
           | Inr (dec1, entry) \<Rightarrow>
               (let s = qpd_enc_state dec1;
                    size = dei_size buf (winr_val_len s - ucast (winr_val_off s))
                in case store_at (dte_buf entry) (unat (dte_name_len entry) + unat (winr_val_off s))
                          (take size buf) of
                     None \<Rightarrow> DEC_UNDEF
                   | Some m \<Rightarrow>
                       (let entry1 = entry\<lparr>dte_buf := m\<rparr>;
                            val_off = winr_val_off s + of_nat size;
                            dec2 = upd_es (\<lambda>s. s\<lparr>winr_entry := Some entry1, winr_val_off := val_off\<rparr>) dec1
                        in if ucast val_off = winr_val_len s
                           then dei_winr_finish dec2 (entry1\<lparr>dte_val_len := val_off\<rparr>) (drop size buf)
                           else DEC_CONT dec2 (drop size buf)))))"

subsubsection \<open>Insert without name reference\<close>

definition dei_wonr_read_name_len :: "nat \<Rightarrow> lsqpack_dec \<Rightarrow> byte list \<Rightarrow> dec_step" where
  "dei_wonr_read_name_len prefix_bits dec buf =
     dei_read_int prefix_bits dec buf (\<lambda>v rest.
       (case alloc (upd_es (\<lambda>s. s\<lparr>wonr_str_len := v, wonr_alloced_len := ucast (v * 2)\<rparr>) dec) of
          (malloc_ok, dec1) \<Rightarrow>
            if \<not> malloc_ok then DEC_RETURN (-1) (upd_es (\<lambda>s. s\<lparr>wonr_entry := None\<rparr>) dec1)
            else
              DEC_CONT
                (upd_es (\<lambda>s. s\<lparr>wonr_entry :=
                                 Some \<lparr>dte_name_len = 0, dte_val_len = 0,
                                       dte_buf = replicate (unat (wonr_alloced_len s)) 0\<rparr>,
                               wonr_nread := 0, wonr_str_off := 0,
                               dei_resume := (if wonr_is_huffman s then DEI_WONR_READ_NAME_HUFFMAN
                                              else DEI_WONR_READ_NAME_PLAIN),
                               wonr_huff_state := (if wonr_is_huffman s
                                                   then (wonr_huff_state s)\<lparr>hds_resume := 0\<rparr>
                                                   else wonr_huff_state s)\<rparr>) dec1)
                rest))"

text \<open>
  Reading a Huffman-coded string (the name when \<open>is_value\<close> is false, the value when it
  is true) into the entry.
\<close>

definition dei_wonr_read_huffman :: "bool \<Rightarrow> lsqpack_dec \<Rightarrow> byte list \<Rightarrow> dec_step" where
  "dei_wonr_read_huffman is_value dec buf =
     (let s = qpd_enc_state dec;
          size = dei_size buf (wonr_str_len s - ucast (wonr_nread s));
          final = (ucast (wonr_nread s) + of_nat size = wonr_str_len s)
      in case wonr_entry s of
           None \<Rightarrow> DEC_UNDEF
         | Some entry \<Rightarrow>
             (let base = (if is_value then dte_name_len entry else 0);
                  dst_len = unat (wonr_alloced_len s - base - wonr_str_off s)
              in case lsqpack_huff_decode (take size buf) dst_len (wonr_huff_state s) final of
                   None \<Rightarrow> DEC_UNDEF
                 | Some (hdr, out, hst) \<Rightarrow>
                     (case store_at (dte_buf entry) (unat base + unat (wonr_str_off s)) out of
                        None \<Rightarrow> DEC_UNDEF
                      | Some m \<Rightarrow>
                          (let entry1 = entry\<lparr>dte_buf := m\<rparr>;
                               dec1 = upd_es (\<lambda>s. s\<lparr>wonr_huff_state := hst, wonr_entry := Some entry1\<rparr>) dec
                           in case hdr_status hdr of
                                HUFF_DEC_OK \<Rightarrow>
                                  if is_value
                                  then dei_push dec1
                                         (entry1\<lparr>dte_val_len := wonr_str_off s + of_nat (n_dst hdr)\<rparr>)
                                         (drop (n_src hdr) buf) (\<lambda>s. s\<lparr>wonr_entry := None\<rparr>)
                                  else DEC_CONT
                                         (upd_es (\<lambda>s. s\<lparr>wonr_entry :=
                                                          Some (entry1\<lparr>dte_name_len :=
                                                                  wonr_str_off s + of_nat (n_dst hdr)\<rparr>),
                                                        dei_resume := DEI_WONR_BEGIN_READ_VAL_LEN\<rparr>) dec1)
                                         (drop (n_src hdr) buf)
                              | HUFF_DEC_END_SRC \<Rightarrow>
                                  DEC_CONT (upd_es (\<lambda>s. s\<lparr>wonr_nread := wonr_nread s + of_nat (n_src hdr),
                                                            wonr_str_off := wonr_str_off s + of_nat (n_dst hdr)\<rparr>) dec1)
                                    (drop (n_src hdr) buf)
                              | HUFF_DEC_END_DST \<Rightarrow>
                                  (let dec2 = upd_es (\<lambda>s. s\<lparr>wonr_alloced_len := wonr_alloced_len s * 2\<rparr>) dec1 in
                                   case alloc dec2 of
                                     (realloc_ok, dec3) \<Rightarrow>
                                       if \<not> realloc_ok then DEC_RETURN (-1) dec3
                                       else DEC_CONT
                                              (upd_es (\<lambda>s. s\<lparr>wonr_entry :=
                                                               Some (entry1\<lparr>dte_buf := resize m (unat (wonr_alloced_len s))\<rparr>),
                                                             wonr_nread := wonr_nread s + of_nat (n_src hdr),
                                                             wonr_str_off := wonr_str_off s + of_nat (n_dst hdr)\<rparr>) dec3)
                                              (drop (n_src hdr) buf))
                              | HUFF_DEC_ERROR \<Rightarrow> DEC_RETURN (-1) dec1))))"

text \<open>Reading a plain string (name or value) into the entry.\<close>

definition dei_wonr_read_plain :: "bool \<Rightarrow> lsqpack_dec \<Rightarrow> byte list \<Rightarrow> dec_step" where
  "dei_wonr_read_plain is_value dec buf =
     (case wonr_entry (qpd_enc_state dec) of
        None \<Rightarrow> DEC_UNDEF
      | Some entry0 \<Rightarrow>
          (let s0 = qpd_enc_state dec;
               base = (if is_value then dte_name_len entry0 else 0);
               needed = (if is_value then ucast (dte_name_len entry0) + wonr_str_len s0 else wonr_str_len s0);
               alloced = (if is_value then ucast (ucast (dte_name_len entry0) + wonr_str_len s0)
                          else ucast (wonr_str_len s0 * 2) :: unsigned)
           in case (if ucast (wonr_alloced_len s0) < needed
                    then (case alloc (upd_es (\<lambda>s. s\<lparr>wonr_alloced_len := alloced\<rparr>) dec) of
                            (realloc_ok, dec1) \<Rightarrow>
                              if \<not> realloc_ok then Inl dec1
                              else Inr (dec1, entry0\<lparr>dte_buf := resize (dte_buf entry0) (unat alloced)\<rparr>))
                    else Inr (dec, entry0)) of
                Inl dec1 \<Rightarrow> DEC_RETURN (-1) dec1
              | Inr (dec1, entry) \<Rightarrow>
                  (let s = qpd_enc_state dec1;
                       size = dei_size buf (wonr_str_len s - ucast (wonr_str_off s))
                   in case store_at (dte_buf entry) (unat base + unat (wonr_str_off s)) (take size buf) of
                        None \<Rightarrow> DEC_UNDEF
                      | Some m \<Rightarrow>
                          (let entry1 = entry\<lparr>dte_buf := m\<rparr>;
                               str_off = wonr_str_off s + of_nat size;
                               dec2 = upd_es (\<lambda>s. s\<lparr>wonr_entry := Some entry1, wonr_str_off := str_off\<rparr>) dec1
                           in if ucast str_off = wonr_str_len s
                              then (if is_value
                                    then dei_push dec2 (entry1\<lparr>dte_val_len := str_off\<rparr>) (drop size buf)
                                           (\<lambda>s. s\<lparr>wonr_entry := None\<rparr>)
                                    else DEC_CONT
                                           (upd_es (\<lambda>s. s\<lparr>wonr_entry := Some (entry1\<lparr>dte_name_len := str_off\<rparr>),
                                                          dei_resume := DEI_WONR_BEGIN_READ_VAL_LEN\<rparr>) dec2)
                                           (drop size buf))
                              else DEC_CONT dec2 (drop size buf)))))"

definition dei_wonr_read_val_len :: "nat \<Rightarrow> lsqpack_dec \<Rightarrow> byte list \<Rightarrow> dec_step" where
  "dei_wonr_read_val_len prefix_bits dec buf =
     dei_read_int prefix_bits dec buf (\<lambda>v rest.
       DEC_CONT
         (upd_es (\<lambda>s. s\<lparr>wonr_str_len := v, wonr_nread := 0, wonr_str_off := 0,
                        dei_resume := (if wonr_is_huffman s then DEI_WONR_READ_VALUE_HUFFMAN
                                       else DEI_WONR_READ_VALUE_PLAIN),
                        wonr_huff_state := (if wonr_is_huffman s
                                            then (wonr_huff_state s)\<lparr>hds_resume := 0\<rparr>
                                            else wonr_huff_state s)\<rparr>) dec)
         rest)"

subsubsection \<open>Duplicate and size update\<close>

definition dei_dup_read_idx :: "nat \<Rightarrow> lsqpack_dec \<Rightarrow> byte list \<Rightarrow> dec_step" where
  "dei_dup_read_idx prefix_bits dec buf =
     dei_read_int prefix_bits dec buf (\<lambda>v rest.
       (let dec1 = upd_es (\<lambda>s. s\<lparr>dupl_index := v\<rparr>) dec in
        case qdec_get_table_entry_rel dec1 v of
          None \<Rightarrow> DEC_RETURN (-1) dec1
        | Some entry \<Rightarrow>
            (case alloc dec1 of
               (malloc_ok, dec2) \<Rightarrow>
                 if \<not> malloc_ok then DEC_RETURN (-1) dec2
                 else dei_push dec2
                        (entry\<lparr>dte_buf := take (unat (dte_name_len entry) + unat (dte_val_len entry))
                                             (dte_buf entry)\<rparr>)
                        rest (\<lambda>s. s))))"

definition dei_size_upd_read_idx :: "nat \<Rightarrow> lsqpack_dec \<Rightarrow> byte list \<Rightarrow> dec_step" where
  "dei_size_upd_read_idx prefix_bits dec buf =
     dei_read_int prefix_bits dec buf (\<lambda>v rest.
       (let dec1 = upd_es (\<lambda>s. s\<lparr>tbsz_new_size := v\<rparr>) dec in
        if v \<le> ucast (qpd_max_capacity dec1)
        then (case qdec_update_max_capacity (upd_es (\<lambda>s. s\<lparr>dei_resume := DEI_NEXT_INST\<rparr>) dec1) (ucast v) of
                None \<Rightarrow> DEC_UNDEF
              | Some dec2 \<Rightarrow> DEC_CONT dec2 rest)
        else DEC_RETURN (-1) dec1))"

subsubsection \<open>The loop\<close>

text \<open>
  The body of the loop for a non-empty input.  A state that is entered in the middle of
  reading an integer passes no prefix width (the source passes \<open>-1\<close>): the integer
  decoder uses the width only in a call that is not resumed.
\<close>

definition dec_enc_in_step :: "lsqpack_dec \<Rightarrow> byte list \<Rightarrow> dec_step" where
  "dec_enc_in_step dec buf =
     (let b = hd buf;
          clear = (\<lambda>s. s\<lparr>dei_int_state := (dei_int_state s)\<lparr>resume := False\<rparr>\<rparr>)
      in case dei_resume (qpd_enc_state dec) of
           DEI_NEXT_INST \<Rightarrow>
             if b AND 0x80 \<noteq> 0 then
               dei_winr_read_name_idx 6
                 (upd_es (\<lambda>s. (clear s)\<lparr>winr_is_static := (b AND 0x40 \<noteq> 0), winr_reffed_entry := None,
                                          winr_entry := None, dei_resume := DEI_WINR_READ_NAME_IDX\<rparr>) dec) buf
             else if b AND 0x40 \<noteq> 0 then
               dei_wonr_read_name_len 5
                 (upd_es (\<lambda>s. (clear s)\<lparr>wonr_is_huffman := (b AND 0x20 \<noteq> 0), wonr_entry := None,
                                          dei_resume := DEI_WONR_READ_NAME_LEN\<rparr>) dec) buf
             else if b AND 0x20 \<noteq> 0 then
               dei_size_upd_read_idx 5
                 (upd_es (\<lambda>s. (clear s)\<lparr>dei_resume := DEI_SIZE_UPD_READ_IDX\<rparr>) dec) buf
             else
               dei_dup_read_idx 5
                 (upd_es (\<lambda>s. (clear s)\<lparr>dei_resume := DEI_DUP_READ_IDX\<rparr>) dec) buf
         | DEI_WINR_READ_NAME_IDX \<Rightarrow> dei_winr_read_name_idx 0 dec buf
         | DEI_WINR_BEGIN_READ_VAL_LEN \<Rightarrow>
             dei_winr_read_val_len 7
               (upd_es (\<lambda>s. (clear s)\<lparr>winr_is_huffman := (b AND 0x80 \<noteq> 0),
                                        dei_resume := DEI_WINR_READ_VAL_LEN\<rparr>) dec) buf
         | DEI_WINR_READ_VAL_LEN \<Rightarrow> dei_winr_read_val_len 0 dec buf
         | DEI_WINR_READ_VALUE_HUFFMAN \<Rightarrow> dei_winr_read_value_huffman dec buf
         | DEI_WINR_READ_VALUE_PLAIN \<Rightarrow> dei_winr_read_value_plain dec buf
         | DEI_WONR_READ_NAME_LEN \<Rightarrow> dei_wonr_read_name_len 0 dec buf
         | DEI_WONR_READ_NAME_HUFFMAN \<Rightarrow> dei_wonr_read_huffman False dec buf
         | DEI_WONR_READ_NAME_PLAIN \<Rightarrow> dei_wonr_read_plain False dec buf
         | DEI_WONR_BEGIN_READ_VAL_LEN \<Rightarrow>
             dei_wonr_read_val_len 7
               (upd_es (\<lambda>s. (clear s)\<lparr>wonr_is_huffman := (b AND 0x80 \<noteq> 0),
                                        dei_resume := DEI_WONR_READ_VAL_LEN\<rparr>) dec) buf
         | DEI_WONR_READ_VAL_LEN \<Rightarrow> dei_wonr_read_val_len 0 dec buf
         | DEI_WONR_READ_VALUE_HUFFMAN \<Rightarrow> dei_wonr_read_huffman True dec buf
         | DEI_WONR_READ_VALUE_PLAIN \<Rightarrow> dei_wonr_read_plain True dec buf
         | DEI_DUP_READ_IDX \<Rightarrow> dei_dup_read_idx 0 dec buf
         | DEI_SIZE_UPD_READ_IDX \<Rightarrow> dei_size_upd_read_idx 0 dec buf)"

text \<open>
  \<open>lsqpack_dec_enc_in\<close>: the return value and the decoder.  \<open>None\<close>: the call does not
  return (undefined behaviour in the body, or a loop without end).
\<close>

partial_function (option) lsqpack_dec_enc_in :: "lsqpack_dec \<Rightarrow> byte list \<Rightarrow> (int \<times> lsqpack_dec) option" where
  "lsqpack_dec_enc_in dec buf =
     (if buf = [] then Some (0, dec)
      else (case dec_enc_in_step dec buf of
              DEC_UNDEF \<Rightarrow> None
            | DEC_RETURN r dec' \<Rightarrow> Some (r, dec')
            | DEC_CONT dec' buf' \<Rightarrow> lsqpack_dec_enc_in dec' buf'))"

declare lsqpack_dec_enc_in.simps [code]

section \<open>Invariants and scenarios\<close>

subsection \<open>The capacity of the encoder's dynamic table\<close>

text \<open>The sum of the sizes of the entries, as a natural number.\<close>


definition table_size :: "lsqpack_enc_table_entry list \<Rightarrow> nat" where
  "table_size es = sum_list (map (\<lambda>e. unat (ETE_SIZE e)) es)"

definition enc_capacity_inv :: "lsqpack_enc \<Rightarrow> bool" where
  "enc_capacity_inv enc =
     (unat (qpe_cur_capacity enc) = table_size (qpe_all_entries enc)
      \<and> qpe_cur_capacity enc \<le> qpe_max_capacity enc)"

text \<open>
  Modelled from the spec: the test for room before a new entry of size \<open>s\<close> is indexed.
  The evictable prefix is the longest run of entries with a reference count of 0 at the
  old end of the table; the test holds when the free room and the sizes of that prefix
  together are at least \<open>s\<close>.
\<close>

definition evictable_prefix :: "lsqpack_enc \<Rightarrow> lsqpack_enc_table_entry list" where
  "evictable_prefix enc = takeWhile (\<lambda>e. ete_n_reffd e = 0) (qpe_all_entries enc)"

definition admission_check :: "lsqpack_enc \<Rightarrow> nat \<Rightarrow> bool" where
  "admission_check enc s =
     (s \<le> unat (qpe_max_capacity enc) - unat (qpe_cur_capacity enc) + table_size (evictable_prefix enc))"

text \<open>The entries of the table, without their reference counts and hashes.\<close>

definition table_entries :: "lsqpack_enc \<Rightarrow> (lsqpack_abs_id_t \<times> byte list \<times> byte list) list" where
  "table_entries enc = map (\<lambda>e. (ete_id e, ete_name e, ete_value e)) (qpe_all_entries enc)"

text \<open>The table of \<open>enc'\<close> is the table of \<open>enc\<close>: the same entries, insertion count and
  capacities.\<close>

definition same_table :: "lsqpack_enc \<Rightarrow> lsqpack_enc \<Rightarrow> bool" where
  "same_table enc enc' =
     (table_entries enc' = table_entries enc \<and> qpe_ins_count enc' = qpe_ins_count enc
      \<and> qpe_cur_capacity enc' = qpe_cur_capacity enc \<and> qpe_max_capacity enc' = qpe_max_capacity enc)"

text \<open>An encoder with a table of 4096 bytes, after \<open>lsqpack_enc_start_header\<close> on stream 0.\<close>

definition enc_started :: lsqpack_enc where
  "enc_started = snd (lsqpack_enc_start_header True
                        (snd (snd (lsqpack_enc_init 4096 100 True zero_enc 4096 100))) 0 0)"


subsection \<open>The loop of lsqpack\_dec\_enc\_in\<close>



text \<open>What holds of the decoder that a pass through the loop body leaves.\<close>

definition step_inv :: "(lsqpack_dec \<Rightarrow> bool) \<Rightarrow> dec_step \<Rightarrow> bool" where
  "step_inv P st = (case st of DEC_UNDEF \<Rightarrow> True | DEC_RETURN r dec \<Rightarrow> P dec | DEC_CONT dec buf \<Rightarrow> P dec)"

text \<open>
  A property of the decoder that does not depend on the state of the instruction
  parser nor on the allocations to come, and that \<open>lsqpack_dec_push_entry\<close> and
  \<open>qdec_update_max_capacity\<close> keep.
\<close>

definition dec_stable :: "(lsqpack_dec \<Rightarrow> bool) \<Rightarrow> bool" where
  "dec_stable P =
     ((\<forall>s d. P (d\<lparr>qpd_enc_state := s\<rparr>) = P d)
      \<and> (\<forall>m d. P (d\<lparr>qpd_mem := m\<rparr>) = P d)
      \<and> (\<forall>d e r d'. P d \<longrightarrow> lsqpack_dec_push_entry d e = Some (r, d') \<longrightarrow> P d')
      \<and> (\<forall>d c d'. P d \<longrightarrow> qdec_update_max_capacity d c = Some d' \<longrightarrow> P d'))"



subsection \<open>The dynamic table of the decoder\<close>

text \<open>The array is well formed: its elements lie inside \<open>arr_els\<close> and every slot that
  counts as an element holds an entry.\<close>

definition arr_wf :: "lsqpack_arr \<Rightarrow> bool" where
  "arr_wf a = (arr_off a + arr_nelem a \<le> length (arr_els a) \<and> length (arr_els a) = arr_nalloc a
               \<and> None \<notin> set (arr_entries a))"

text \<open>The entries stored in the table, oldest first.\<close>

definition dec_entries :: "lsqpack_dec \<Rightarrow> lsqpack_dec_table_entry list" where
  "dec_entries dec = map the (arr_entries (qpd_dyn_table dec))"

text \<open>
  The accounting of the table as the code keeps it, in the \<open>unsigned\<close> arithmetic of
  \<open>DTE_SIZE\<close> and \<open>qpd_cur_capacity\<close>: the current capacity and the sum of the sizes of the
  entries stored are equal modulo \<open>2^32\<close>, and the number of insertions is the number of
  deletions plus the number of entries stored (modulo \<open>2^64\<close>).  \<open>dec_table_inv32\<close> adds
  that the current capacity does not exceed the current maximum.  This is weaker than
  the accounting over the natural numbers, \<open>dec_accounting_inv\<close> below.
\<close>

definition dec_table_sum32 :: "lsqpack_dec \<Rightarrow> bool" where
  "dec_table_sum32 dec =
     (arr_wf (qpd_dyn_table dec)
      \<and> qpd_cur_capacity dec = sum_list (map DTE_SIZE (dec_entries dec))
      \<and> qpd_ins_count dec = qpd_del_count dec + of_nat (length (dec_entries dec)))"

definition dec_table_inv32 :: "lsqpack_dec \<Rightarrow> bool" where
  "dec_table_inv32 dec = (dec_table_sum32 dec \<and> qpd_cur_capacity dec \<le> qpd_cur_max_capacity dec)"

text \<open>
  The size of an entry, \<open>name_len + value_len + 32\<close>, and the accounting of the table
  over the natural numbers: the current capacity is the sum of the sizes of the entries
  stored, it is at most the current maximum, and the number of insertions is the number
  of deletions plus the number of entries stored.
\<close>

definition dec_entry_size :: "lsqpack_dec_table_entry \<Rightarrow> nat" where
  "dec_entry_size e = unat (dte_name_len e) + unat (dte_val_len e) + 32"

definition dec_accounting_inv :: "lsqpack_dec \<Rightarrow> bool" where
  "dec_accounting_inv dec =
     (unat (qpd_cur_capacity dec) = sum_list (map dec_entry_size (dec_entries dec))
      \<and> qpd_cur_capacity dec \<le> qpd_cur_max_capacity dec
      \<and> unat (qpd_ins_count dec) = unat (qpd_del_count dec) + length (dec_entries dec))"

text \<open>A decoder with a table of 4096 bytes, and an encoder stream: the insertion of
  (\<open>abc\<close>, \<open>xyz\<close>) without name reference and a duplication of the newest entry.\<close>

definition dec_started :: lsqpack_dec where
  "dec_started = lsqpack_dec_init [] 4096 100"

definition insert_and_duplicate :: "byte list" where
  "insert_and_duplicate = [0x43, 0x61, 0x62, 0x63, 0x03, 0x78, 0x79, 0x7A, 0x00]"

text \<open>
  An encoder stream with two insertions without name reference, (\<open>abc\<close>, \<open>xyz\<close>) and
  (\<open>abd\<close>, \<open>xyz\<close>), and the entry that a third insertion builds for the name \<open>abe\<close> and a
  value of 4294967196 bytes.  The accounting reads the two lengths of an entry and never
  its buffer, which is cut down to the name here.
\<close>

definition two_inserts :: "byte list" where
  "two_inserts = [0x43, 0x61, 0x62, 0x63, 0x03, 0x78, 0x79, 0x7A,
                  0x43, 0x61, 0x62, 0x64, 0x03, 0x78, 0x79, 0x7A]"

definition huge_entry :: lsqpack_dec_table_entry where
  "huge_entry = \<lparr>dte_name_len = 3, dte_val_len = 4294967196, dte_buf = [0x61, 0x62, 0x65]\<rparr>"

section \<open>Integer codec: proofs\<close>


lemma push_split: "push_bit m (v::uint64) = push_bit m (v AND 0x7f) + push_bit (m + 7) (drop_bit 7 v)"
proof -
  have "v = (v AND mask 7) + push_bit 7 (drop_bit 7 v)"
    by (metis add.commute bits_ident take_bit_eq_mask)
  then have "push_bit m v = push_bit m ((v AND mask 7) + push_bit 7 (drop_bit 7 v))" by simp
  also have "\<dots> = push_bit m (v AND mask 7) + push_bit (m + 7) (drop_bit 7 v)"
    by (simp add: push_bit_add flip: push_bit_push_bit)
  finally show ?thesis by (simp add: mask_eq_exp_minus_1)
qed

lemma prefix_max_mask: "prefix_max p = mask p"
  by (simp add: prefix_max_def mask_eq_exp_minus_1 push_bit_eq_mult)

lemma h7f: "(0x7f :: 'a::len word) = mask 7" by (simp add: mask_eq_exp_minus_1)
lemma h80: "(0x80 :: 'a::len word) = 2 ^ 7" by simp

lemma bit_128: "bit (128::'a::len word) n = (n = 7 \<and> 7 < LENGTH('a))"
  unfolding h80 bit_exp_iff by auto

lemma bit_128_int: "bit (128::int) n = (n = 7)"
proof -
  have "(128::int) = 2 ^ 7" by simp
  show ?thesis unfolding \<open>(128::int) = 2 ^ 7\<close> bit_exp_iff by auto
qed

lemma ucast_cont_and: "(ucast (ucast (0x80 OR v :: uint64) :: byte) :: uint64) AND 0x7f = v AND 0x7f"
  unfolding h7f
  by (rule bit_word_eqI) (auto simp: bit_simps bit_128 bit_128_int)

lemma cont_high: "(ucast (0x80 OR v :: uint64) :: byte) AND 0x80 \<noteq> 0"
proof -
  have "bit ((ucast (0x80 OR v :: uint64) :: byte) AND 0x80) 7"
    by (simp add: bit_simps bit_128 bit_128_int)
  then show ?thesis by fastforce 
qed

lemma last_low: "v < 128 \<Longrightarrow> (ucast (v :: uint64) :: byte) AND 0x80 = 0"
proof -
  assume "v < 128"
  then have "v < 2 ^ 7" by simp
  then have "v AND mask 7 = v" by (rule less_mask_eq)
  then have "\<not> bit v 7" by (metis bit_and_iff bit_mask_iff less_irrefl)
  then show ?thesis by (intro bit_word_eqI) (auto simp: bit_simps bit_128 bit_128_int)
qed

lemma last_val: "v < 128 \<Longrightarrow> (ucast (ucast (v :: uint64) :: byte) :: uint64) AND 0x7f = v"
proof -
  assume "v < 128"
  then have "v < 2 ^ 7" by simp
  then have *: "v AND mask 7 = v" by (rule less_mask_eq)
  have "(ucast (ucast v :: byte) :: uint64) AND mask 7 = v AND mask 7"
    by (rule bit_word_eqI) (auto simp: bit_simps)
  with * show ?thesis unfolding h7f by simp
qed


lemma unat_drop7: "unat (drop_bit 7 (v::uint64)) = unat v div 128"
  unfolding unat_drop_bit_eq by (simp add: drop_bit_eq_div)

lemma dec_int_loop_cont_bytes:
  assumes "unat m = 7 * j" "j \<le> 8" "unat v < 2 ^ (63 - 7 * j)"
  shows "dec_int_loop st k a m (cont_bytes v @ rest) = DEC_INT_OK (a + push_bit (7 * j) v) rest"
  using assms
proof (induction v arbitrary: k a m j rule: cont_bytes.induct)
  case (1 v)
  show ?case
  proof (cases "128 \<le> v")
    case True
    then have v128: "128 \<le> unat v" by (simp add: word_le_nat_alt)
    have j7: "j \<le> 7"
    proof (rule ccontr)
      assume "\<not> j \<le> 7"
      with "1.prems" have "j = 8" by simp
      with "1.prems" have "unat v < 2 ^ 7" by simp
      with v128 show False by simp
    qed
    have m7: "unat (m + 7) = 7 * (j + 1)"
      using "1.prems"(1) j7 by (simp add: unat_word_ariths)
    have e: "63 - 7 * j = (63 - 7 * (j + 1)) + 7" using j7 by simp
    have "(2::nat) ^ (63 - 7 * j) = 2 ^ (63 - 7 * (j + 1)) * 2 ^ 7"
      by (subst e) (rule power_add)
    then have "unat v < 2 ^ (63 - 7 * (j + 1)) * 128"
      using "1.prems"(3) by simp
    then have "unat v div 128 < 2 ^ (63 - 7 * (j + 1))"
      by (rule less_mult_imp_div_less)
    then have dv: "unat (drop_bit 7 v) < 2 ^ (63 - 7 * (j + 1))"
      unfolding unat_drop7 .
    have IH: "dec_int_loop st (k + 1) (a + push_bit (7 * j) (v AND 0x7f)) (m + 7) (cont_bytes (drop_bit 7 v) @ rest)
        = DEC_INT_OK (a + push_bit (7 * j) (v AND 0x7f) + push_bit (7 * (j + 1)) (drop_bit 7 v)) rest"
      using "1.IH" [OF True m7 _ dv] j7 by simp
    have cbv: "cont_bytes v = ucast (0x80 OR v) # cont_bytes (drop_bit 7 v)"
      using True by (subst cont_bytes.simps) simp
    have fin: "a + push_bit (7 * j) (v AND 0x7f) + push_bit (7 * (j + 1)) (drop_bit 7 v) = a + push_bit (7 * j) v"
    proof -
      have e2: "7 * (j + 1) = 7 * j + 7" by simp
      show ?thesis by (simp only: e2 add.assoc push_split [symmetric])
    qed
    have step: "dec_int_loop st k a m (ucast (0x80 OR v) # cont_bytes (drop_bit 7 v) @ rest)
       = dec_int_loop st (k + 1) (a + push_bit (7 * j) (v AND 0x7f)) (m + 7) (cont_bytes (drop_bit 7 v) @ rest)"
      using "1.prems"(1) cont_high [of v]
      by (simp only: dec_int_loop.simps Let_def ucast_cont_and if_True not_False_eq_True)
    show ?thesis
      unfolding cbv append_Cons step IH fin ..
  next
    case False
    then have lt: "v < 128" by simp
    have cb: "cont_bytes v = [ucast v]"
      using False by (subst cont_bytes.simps) simp
    have "unat (m + 7) = 7 * j + 7"
      using "1.prems"(1,2) by (simp add: unat_word_ariths)
    then have "unat (m + 7) \<le> 63" using "1.prems"(2) by simp
    then have "m + 7 \<le> 63" by (simp add: word_le_nat_alt)
    then show ?thesis
      using cb "1.prems"(1) last_low [OF lt] last_val [OF lt]
      by (simp add: Let_def)
  qed
qed



lemma length_cont_bytes:
  assumes "unat v < 2 ^ (7 * j)" "1 \<le> j"
  shows "length (cont_bytes v) \<le> j"
  using assms
proof (induction v arbitrary: j rule: cont_bytes.induct)
  case (1 v)
  show ?case
  proof (cases "128 \<le> v")
    case True
    then have v128: "128 \<le> unat v" by (simp add: word_le_nat_alt)
    have j2: "2 \<le> j"
    proof (rule ccontr)
      assume "\<not> 2 \<le> j"
      with "1.prems" have "j = 1" by simp
      with "1.prems" v128 show False by simp
    qed
    have e: "7 * j = 7 * (j - 1) + 7" using j2 by simp
    have "(2::nat) ^ (7 * j) = 2 ^ (7 * (j - 1)) * 2 ^ 7"
      by (subst e) (rule power_add)
    then have "unat v < 2 ^ (7 * (j - 1)) * 128"
      using "1.prems"(1) by simp
    then have "unat v div 128 < 2 ^ (7 * (j - 1))"
      by (rule less_mult_imp_div_less)
    then have "unat (drop_bit 7 v) < 2 ^ (7 * (j - 1))"
      unfolding unat_drop7 .
    then have "length (cont_bytes (drop_bit 7 v)) \<le> j - 1"
      using "1.IH" [OF True] j2 by simp
    moreover have "cont_bytes v = ucast (0x80 OR v) # cont_bytes (drop_bit 7 v)"
      using True by (subst cont_bytes.simps) simp
    ultimately show ?thesis using j2 by simp
  next
    case False
    then have "cont_bytes v = [ucast v]" by (subst cont_bytes.simps) simp
    then show ?thesis using "1.prems"(2) by simp
  qed
qed

lemma cont_bytes_nonempty: "cont_bytes v \<noteq> []"
  by (subst cont_bytes.simps) simp

lemma enc_int_loop_spec:
  assumes "dst + length (cont_bytes v) \<le> dend" "dend \<le> length buf"
  shows "\<exists>buf2 dst2 v2. enc_int_loop buf dst dend v = (True, buf2, dst2, v2) \<and> dst2 < dend
          \<and> dst2 + 1 = dst + length (cont_bytes v)
          \<and> buf2[dst2 := ucast v2] = take dst buf @ cont_bytes v @ drop (dst + length (cont_bytes v)) buf"
  using assms
proof (induction buf dst dend v rule: enc_int_loop.induct)
  case (1 buf dst dend v)
  show ?case
  proof (cases "128 \<le> v")
    case True
    have cb: "cont_bytes v = ucast (0x80 OR v) # cont_bytes (drop_bit 7 v)"
      using True by (subst cont_bytes.simps) simp
    have lt: "dst < dend" using "1.prems"(1) cb by simp
    have len: "dst < length buf" using lt "1.prems"(2) by simp
    let ?b = "buf[dst := ucast (0x80 OR v)]"
    have p1: "dst + 1 + length (cont_bytes (drop_bit 7 v)) \<le> dend"
      using "1.prems"(1) cb by simp
    have p2: "dend \<le> length ?b" using "1.prems"(2) by simp
    from "1.IH" [OF True lt p1 p2]
    obtain buf2 dst2 v2 where
      r: "enc_int_loop ?b (dst + 1) dend (drop_bit 7 v) = (True, buf2, dst2, v2)"
      and d2: "dst2 < dend"
      and d3: "dst2 + 1 = dst + 1 + length (cont_bytes (drop_bit 7 v))"
      and b2: "buf2[dst2 := ucast v2] = take (dst + 1) ?b @ cont_bytes (drop_bit 7 v)
                 @ drop (dst + 1 + length (cont_bytes (drop_bit 7 v))) ?b"
      by blast
    have e1: "enc_int_loop buf dst dend v = (True, buf2, dst2, v2)"
      using True lt r by (subst enc_int_loop.simps) simp
    have t: "take (dst + 1) ?b = take dst buf @ [ucast (0x80 OR v)]"
      using len by (simp add: take_Suc_conv_app_nth)
    have d: "drop (dst + 1 + length (cont_bytes (drop_bit 7 v))) ?b
           = drop (dst + length (cont_bytes v)) buf"
      using cb by simp
    show ?thesis
      using e1 d2 d3 b2 unfolding t d using cb by simp
  next
    case False
    have cb: "cont_bytes v = [ucast v]"
      using False by (subst cont_bytes.simps) simp
    have e1: "enc_int_loop buf dst dend v = (True, buf, dst, v)"
      using False by (subst enc_int_loop.simps) simp
    have lt: "dst < dend" using "1.prems"(1) cb by simp
    have len: "dst < length buf" using lt "1.prems"(2) by simp
    have "buf[dst := ucast v] = take dst buf @ [ucast v] @ drop (dst + 1) buf"
      using len by (simp add: upd_conv_take_nth_drop)
    then show ?thesis using e1 lt cb by simp
  qed
qed



lemma pm_byte: "p \<le> 8 \<Longrightarrow> (ucast (prefix_max p) :: byte) = mask p"
  by (simp add: prefix_max_mask ucast_mask_eq)

lemma pm_u64: "p \<le> 8 \<Longrightarrow> (ucast (prefix_max p) :: uint64) = mask p"
  by (simp add: prefix_max_mask ucast_mask_eq)

lemma mask_byte_u64: "p \<le> 8 \<Longrightarrow> (ucast (mask p :: byte) :: uint64) = mask p"
  by (simp add: ucast_mask_eq)

lemma first_byte_small:
  assumes "p \<le> 8" "(v :: uint64) < mask p" "(b0 :: byte) AND mask p = 0"
  shows "(ucast ((b0 OR ucast v) AND mask p) :: uint64) = v"
proof -
  have "uint v < uint (mask p :: uint64)" using assms(2) by (simp add: word_less_def)
  also have "uint (mask p :: uint64) = (mask (min 64 p) :: int)"
    unfolding uint_mask_eq by simp
  also have "\<dots> = 2 ^ p - 1"
    using assms(1) by (simp add: mask_eq_exp_minus_1 min_def)
  finally have "uint v < 2 ^ p" by simp
  then have tv: "v AND mask p = v" by (simp add: mask_eq_iff)
  have F1: "n < p" if "bit v n" for n
  proof -
    from that have "bit (v AND mask p) n" by (simp add: tv)
    then show ?thesis by (simp add: bit_simps)
  qed
  have F2: "\<not> bit b0 n" if "n < p" for n
  proof
    assume "bit b0 n"
    then have "bit (b0 AND mask p) n" using that assms(1) by (simp add: bit_simps bit_imp_le_length)
    then show False by (simp add: assms(3))
  qed
  show ?thesis
    using assms(1) by (intro bit_word_eqI) (auto simp: bit_simps dest: F1 F2)
qed

lemma first_byte_big:
  assumes "p \<le> 8"
  shows "(ucast (((b0 :: byte) OR mask p) AND mask p) :: uint64) = mask p"
proof -
  have "(b0 OR mask p) AND mask p = mask p"
    by (rule bit_word_eqI) (auto simp: bit_simps)
  then show ?thesis using assms by (simp add: ucast_mask_eq)
qed



text \<open>The bytes \<open>lsqpack_enc_int\<close> writes, given the first byte's previous content.\<close>

lemma lsqpack_enc_int_bytes:
  fixes buf :: "byte list"
  defines "bs \<equiv> \<lambda>(buf :: byte list) dst (v :: uint64) p.
        (if v < ucast (prefix_max p) then [buf ! dst OR ucast v]
         else (buf ! dst OR ucast (prefix_max p)) # cont_bytes (v - ucast (prefix_max p)))"
  assumes room: "dst + length (bs buf dst v p) \<le> dend" "dend \<le> length buf"
  shows "lsqpack_enc_int buf dst dend v p
         = Some (take dst buf @ bs buf dst v p @ drop (dst + length (bs buf dst v p)) buf,
                 dst + length (bs buf dst v p))"
proof -
  have lt: "dst < dend" using room(1) by (auto simp: bs_def split: if_splits)
  have len: "dst < length buf" using lt room(2) by simp
  show ?thesis
  proof (cases "v < ucast (prefix_max p)")
    case True
    then show ?thesis
      using lt len by (simp add: lsqpack_enc_int_def bs_def upd_conv_take_nth_drop)
  next
    case False
    let ?pm = "ucast (prefix_max p) :: uint64"
    let ?b1 = "buf[dst := buf ! dst OR ucast (prefix_max p)]"
    have r1: "dst + 1 + length (cont_bytes (v - ?pm)) \<le> dend"
      using room(1) False by (simp add: bs_def)
    have r2: "dend \<le> length ?b1" using room(2) by simp
    from enc_int_loop_spec [OF r1 r2]
    obtain buf2 dst2 v2 where
      r: "enc_int_loop ?b1 (dst + 1) dend (v - ?pm) = (True, buf2, dst2, v2)"
      and d2: "dst2 < dend"
      and d3: "dst2 + 1 = dst + 1 + length (cont_bytes (v - ?pm))"
      and b2: "buf2[dst2 := ucast v2] = take (dst + 1) ?b1 @ cont_bytes (v - ?pm)
                 @ drop (dst + 1 + length (cont_bytes (v - ?pm))) ?b1"
      by blast
    have t: "take (dst + 1) ?b1 = take dst buf @ [buf ! dst OR ucast (prefix_max p)]"
      using len by (simp add: take_Suc_conv_app_nth)
    have d: "drop (dst + 1 + length (cont_bytes (v - ?pm))) ?b1
           = drop (dst + 1 + length (cont_bytes (v - ?pm))) buf"
      by simp
    have "lsqpack_enc_int buf dst dend v p = Some (buf2[dst2 := ucast v2], dst2 + 1)"
      using False lt r d2 by (simp add: lsqpack_enc_int_def Let_def)
    then show ?thesis
      unfolding b2 t d d3 using False by (simp add: bs_def)
  qed
qed

lemma lsqpack_dec_int_first_small:
  assumes "p \<le> 8" "v < ucast (prefix_max p)" "b0 AND ucast (prefix_max p) = 0" "\<not> resume st"
  shows "lsqpack_dec_int ((b0 OR ucast v) # rest) p st = Some (DEC_INT_OK v rest)"
  using assms first_byte_small [of p v b0]
  by (simp add: pm_byte pm_u64 mask_byte_u64 Let_def)

lemma lsqpack_dec_int_first_big:
  assumes "p \<le> 8" "\<not> resume st"
  shows "lsqpack_dec_int ((b0 OR ucast (prefix_max p)) # rest) p st
         = Some (dec_int_loop st 1 (ucast (prefix_max p)) 0 rest)"
  using assms first_byte_big [of p b0]
  by (simp add: pm_byte pm_u64 mask_byte_u64 Let_def)

lemma lsqpack_dec_int_enc_bytes:
  assumes "p \<le> 8" "v < 2 ^ 62" "b0 AND ucast (prefix_max p) = 0" "\<not> resume st"
  shows "lsqpack_dec_int ((if v < ucast (prefix_max p) then [b0 OR ucast v]
                  else (b0 OR ucast (prefix_max p)) # cont_bytes (v - ucast (prefix_max p))) @ rest) p st
         = Some (DEC_INT_OK v rest)"
proof (cases "v < ucast (prefix_max p)")
  case True
  then show ?thesis using lsqpack_dec_int_first_small [OF assms(1) True assms(3,4)] by simp
next
  case False
  let ?pm = "ucast (prefix_max p) :: uint64"
  have "unat (v - ?pm) \<le> unat v" using False by (simp add: unat_sub word_le_nat_alt not_less)
  also have "unat v < 2 ^ 62" using assms(2) by (simp add: word_less_nat_alt)
  finally have "unat (v - ?pm) < 2 ^ (63 - 7 * 0)" by simp
  from dec_int_loop_cont_bytes [where m = 0 and j = 0 and v = "v - ?pm", OF _ _ this]
  have "dec_int_loop st 1 ?pm 0 (cont_bytes (v - ?pm) @ rest) = DEC_INT_OK v rest"
    by simp
  then show ?thesis
    using False lsqpack_dec_int_first_big [OF assms(1,4)] by simp
qed



lemma dec_int_bytewise_cont_bytes:
  assumes "resume st" "unat (M st) = 7 * j" "j \<le> 8" "unat v < 2 ^ (63 - 7 * j)"
    and "unat (nread st) + length (cont_bytes v) \<le> 10"
  shows "\<exists>sts. length sts = length (cont_bytes v) - 1 \<and>
           dec_int_bytewise p st (cont_bytes v)
           = map (\<lambda>s. Some (DEC_INT_NEED s)) sts @ [Some (DEC_INT_OK (val st + push_bit (7 * j) v) [])]"
  using assms
proof (induction v arbitrary: st j rule: cont_bytes.induct)
  case (1 v)
  show ?case
  proof (cases "128 \<le> v")
    case True
    then have v128: "128 \<le> unat v" by (simp add: word_le_nat_alt)
    have cbv: "cont_bytes v = ucast (0x80 OR v) # cont_bytes (drop_bit 7 v)"
      using True by (subst cont_bytes.simps) simp
    have j7: "j \<le> 7"
    proof (rule ccontr)
      assume "\<not> j \<le> 7"
      with "1.prems" have "j = 8" by simp
      with "1.prems" have "unat v < 2 ^ 7" by simp
      with v128 show False by simp
    qed
    have e: "63 - 7 * j = (63 - 7 * (j + 1)) + 7" using j7 by simp
    have "(2::nat) ^ (63 - 7 * j) = 2 ^ (63 - 7 * (j + 1)) * 2 ^ 7"
      by (subst e) (rule power_add)
    then have "unat v < 2 ^ (63 - 7 * (j + 1)) * 128"
      using "1.prems"(4) by simp
    then have "unat v div 128 < 2 ^ (63 - 7 * (j + 1))"
      by (rule less_mult_imp_div_less)
    then have dv: "unat (drop_bit 7 v) < 2 ^ (63 - 7 * (j + 1))"
      unfolding unat_drop7 .
    have nr: "unat (nread st) \<le> 8"
      using "1.prems"(5) cbv cont_bytes_nonempty [of "drop_bit 7 v"]
      by (cases "cont_bytes (drop_bit 7 v)") auto
    then have nr1: "unat (nread st + 1) = unat (nread st) + 1"
      by (simp add: unat_word_ariths)
    then have nlt: "nread st + 1 < LSQPACK_UINT64_ENC_SZ"
      using nr by (simp add: LSQPACK_UINT64_ENC_SZ_def word_less_nat_alt)
    define st' where "st' = \<lparr>resume = True, M = M st + 7, nread = nread st + 1,
        val = val st + push_bit (7 * j) (v AND 0x7f)\<rparr>"
    have call: "lsqpack_dec_int [ucast (0x80 OR v)] p st = Some (DEC_INT_NEED st')"
      using "1.prems"(1,2) cont_high [of v] nlt
      by (simp add: Let_def ucast_cont_and st'_def)
    have m7: "unat (M st') = 7 * (j + 1)"
      using "1.prems"(2) j7 by (simp add: st'_def unat_word_ariths)
    have nr': "unat (nread st') + length (cont_bytes (drop_bit 7 v)) \<le> 10"
      using "1.prems"(5) cbv nr1 by (simp add: st'_def)
    have "resume st'" by (simp add: st'_def)
    from "1.IH" [OF True this m7 _ dv nr'] j7
    obtain sts where l: "length sts = length (cont_bytes (drop_bit 7 v)) - 1"
      and r: "dec_int_bytewise p st' (cont_bytes (drop_bit 7 v))
           = map (\<lambda>s. Some (DEC_INT_NEED s)) sts
             @ [Some (DEC_INT_OK (val st' + push_bit (7 * (j + 1)) (drop_bit 7 v)) [])]"
      by auto
    have fin: "val st' + push_bit (7 * (j + 1)) (drop_bit 7 v) = val st + push_bit (7 * j) v"
    proof -
      have e2: "7 * (j + 1) = 7 * j + 7" by simp
      show ?thesis by (simp only: st'_def lsqpack_dec_int_state.simps e2 add.assoc push_split [symmetric])
    qed
    have "dec_int_bytewise p st (cont_bytes v)
        = map (\<lambda>s. Some (DEC_INT_NEED s)) (st' # sts) @ [Some (DEC_INT_OK (val st + push_bit (7 * j) v) [])]"
      unfolding cbv using call r fin by simp
    moreover have "length (st' # sts) = length (cont_bytes v) - 1"
      using l cbv cont_bytes_nonempty [of "drop_bit 7 v"]
      by (cases "cont_bytes (drop_bit 7 v)") auto
    ultimately show ?thesis by blast
  next
    case False
    then have lt: "v < 128" by simp
    have cb: "cont_bytes v = [ucast v]"
      using False by (subst cont_bytes.simps) simp
    have "unat (M st + 7) = 7 * j + 7"
      using "1.prems"(2,3) by (simp add: unat_word_ariths)
    then have "unat (M st + 7) \<le> 63" using "1.prems"(3) by simp
    then have "M st + 7 \<le> 63" by (simp add: word_le_nat_alt)
    then have "dec_int_bytewise p st (cont_bytes v) = [Some (DEC_INT_OK (val st + push_bit (7 * j) v) [])]"
      using cb "1.prems"(1,2) last_low [OF lt] last_val [OF lt]
      by (simp add: Let_def)
    then show ?thesis using cb by simp
  qed
qed



lemma dec_int_bytewise_enc_bytes:
  assumes "p \<le> 8" "v < 2 ^ 62" "b0 AND ucast (prefix_max p) = 0" "\<not> resume st"
  defines "bs \<equiv> (if v < ucast (prefix_max p) then [b0 OR ucast v]
                  else (b0 OR ucast (prefix_max p)) # cont_bytes (v - ucast (prefix_max p)))"
  shows "\<exists>sts. length sts = length bs - 1 \<and>
           dec_int_bytewise p st bs = map (\<lambda>s. Some (DEC_INT_NEED s)) sts @ [Some (DEC_INT_OK v [])]"
proof (cases "v < ucast (prefix_max p)")
  case True
  have "dec_int_bytewise p st bs = [Some (DEC_INT_OK v [])]"
    using True lsqpack_dec_int_first_small [OF assms(1) True assms(3,4), of "[]"]
    by (simp add: bs_def)
  then show ?thesis using True by (simp add: bs_def)
next
  case False
  let ?pm = "ucast (prefix_max p) :: uint64"
  define st' where "st' = \<lparr>resume = True, M = 0, nread = 1, val = ?pm\<rparr>"
  have call: "lsqpack_dec_int [b0 OR ucast (prefix_max p)] p st = Some (DEC_INT_NEED st')"
    using lsqpack_dec_int_first_big [OF assms(1,4), of b0 "[]"] assms(4)
    by (simp add: st'_def LSQPACK_UINT64_ENC_SZ_def)
  have "unat (v - ?pm) \<le> unat v" using False by (simp add: unat_sub word_le_nat_alt not_less)
  also have "unat v < 2 ^ 62" using assms(2) by (simp add: word_less_nat_alt)
  finally have lt62: "unat (v - ?pm) < 2 ^ 62" .
  then have lt63: "unat (v - ?pm) < 2 ^ (63 - 7 * 0)" by simp
  have "unat (v - ?pm) < 2 ^ (7 * 9)" using lt62 by simp
  then have len: "length (cont_bytes (v - ?pm)) \<le> 9" by (rule length_cont_bytes) simp
  have nr: "unat (nread st') + length (cont_bytes (v - ?pm)) \<le> 10"
    using len by (simp add: st'_def)
  have "resume st'" "unat (M st') = 7 * 0" by (simp_all add: st'_def)
  from dec_int_bytewise_cont_bytes [OF this _ lt63 nr, of p]
  obtain sts where l: "length sts = length (cont_bytes (v - ?pm)) - 1"
    and r: "dec_int_bytewise p st' (cont_bytes (v - ?pm))
           = map (\<lambda>s. Some (DEC_INT_NEED s)) sts @ [Some (DEC_INT_OK v [])]"
    by (auto simp: st'_def)
  have "dec_int_bytewise p st bs = map (\<lambda>s. Some (DEC_INT_NEED s)) (st' # sts) @ [Some (DEC_INT_OK v [])]"
    using False call r by (simp add: bs_def)
  moreover have "length (st' # sts) = length bs - 1"
    using False l cont_bytes_nonempty [of "v - ?pm"]
    by (cases "cont_bytes (v - ?pm)") (auto simp: bs_def)
  ultimately show ?thesis by blast
qed

text \<open>
  Claim C1.  For a prefix of 1 to 8 bits and a value below \<open>2^62\<close>, \<open>lsqpack_enc_int\<close>,
  writing at \<open>dst\<close> into a buffer with at least ten bytes of room whose byte at \<open>dst\<close>
  has its prefix bits clear, succeeds and writes \<open>n\<close> bytes; \<open>lsqpack_dec_int\<close>, started
  afresh on these bytes (followed by any further input), returns 0 with the same value
  and leaves exactly the further input; and fed the \<open>n\<close> bytes one per call it returns
  -1 on each of the first \<open>n - 1\<close> calls and 0 with the value on the last.
\<close>

theorem int_codec_round_trip:
  assumes "1 \<le> prefix_bits" "prefix_bits \<le> 8" "v < 2 ^ 62"
    and "dst + 10 \<le> dend" "dend \<le> length buf"
    and "buf ! dst AND ucast (prefix_max prefix_bits) = 0"
    and "\<not> resume st"
  shows "\<exists>buf' n sts.
           lsqpack_enc_int buf dst dend v prefix_bits = Some (buf', dst + n)
         \<and> 0 < n \<and> length sts = n - 1
         \<and> lsqpack_dec_int (take n (drop dst buf') @ rest) prefix_bits st = Some (DEC_INT_OK v rest)
         \<and> dec_int_bytewise prefix_bits st (take n (drop dst buf'))
             = map (\<lambda>s. Some (DEC_INT_NEED s)) sts @ [Some (DEC_INT_OK v [])]"
proof -
  let ?pm = "ucast (prefix_max prefix_bits) :: uint64"
  define bs where "bs = (if v < ?pm then [buf ! dst OR ucast v]
                  else (buf ! dst OR ucast (prefix_max prefix_bits)) # cont_bytes (v - ?pm))"
  have lbs: "length bs \<le> 10" "0 < length bs"
  proof -
    have "length bs \<le> 10 \<and> 0 < length bs"
    proof (cases "v < ?pm")
      case True
      then show ?thesis by (simp add: bs_def)
    next
      case False
      have "unat (v - ?pm) \<le> unat v" using False by (simp add: unat_sub word_le_nat_alt not_less)
      also have "unat v < 2 ^ 62" using assms(3) by (simp add: word_less_nat_alt)
      finally have "unat (v - ?pm) < 2 ^ (7 * 9)" by simp
      then have "length (cont_bytes (v - ?pm)) \<le> 9" by (rule length_cont_bytes) simp
      then show ?thesis using False by (simp add: bs_def)
    qed
    then show "length bs \<le> 10" "0 < length bs" by simp_all
  qed
  have room: "dst + length bs \<le> dend" using lbs assms(4) by simp
  have enc: "lsqpack_enc_int buf dst dend v prefix_bits
         = Some (take dst buf @ bs @ drop (dst + length bs) buf, dst + length bs)"
    using lsqpack_enc_int_bytes [where buf = buf and dst = dst and v = v and p = prefix_bits and dend = dend] room assms(5) by (simp add: bs_def)
  have "dst \<le> length buf" using assms(4,5) by simp
  then have tk: "take (length bs) (drop dst (take dst buf @ bs @ drop (dst + length bs) buf)) = bs"
    by simp
  have dec: "lsqpack_dec_int (bs @ rest) prefix_bits st = Some (DEC_INT_OK v rest)"
    unfolding bs_def by (rule lsqpack_dec_int_enc_bytes [OF assms(2,3,6,7)])
  from dec_int_bytewise_enc_bytes [OF assms(2,3,6,7)]
  obtain sts where "length sts = length bs - 1"
    "dec_int_bytewise prefix_bits st bs = map (\<lambda>s. Some (DEC_INT_NEED s)) sts @ [Some (DEC_INT_OK v [])]"
    unfolding bs_def by blast
  with enc tk dec lbs show ?thesis by (metis (no_types, lifting))
qed



theorem int_codec_round_trip_witness:
  "(1::nat) \<le> 8 \<and> (8::nat) \<le> 8 \<and> (0x3FFFFFFFFFFFFFFF :: uint64) < 2 ^ 62
   \<and> (0::nat) + 10 \<le> 12 \<and> 12 \<le> length (replicate 12 (0::byte))
   \<and> replicate 12 (0::byte) ! 0 AND ucast (prefix_max 8) = 0
   \<and> \<not> resume \<lparr>resume = False, M = 0, nread = 0, val = 0\<rparr>
   \<and> (\<exists>buf' n sts.
           lsqpack_enc_int (replicate 12 0) 0 12 0x3FFFFFFFFFFFFFFF 8 = Some (buf', 0 + n)
         \<and> 0 < n \<and> length sts = n - 1
         \<and> lsqpack_dec_int (take n (drop 0 buf') @ []) 8 \<lparr>resume = False, M = 0, nread = 0, val = 0\<rparr>
             = Some (DEC_INT_OK 0x3FFFFFFFFFFFFFFF [])
         \<and> dec_int_bytewise 8 \<lparr>resume = False, M = 0, nread = 0, val = 0\<rparr> (take n (drop 0 buf'))
             = map (\<lambda>s. Some (DEC_INT_NEED s)) sts @ [Some (DEC_INT_OK 0x3FFFFFFFFFFFFFFF [])])"
proof -
  have h1: "(1::nat) \<le> 8" and h2: "(8::nat) \<le> 8" by simp_all
  have h3: "(0x3FFFFFFFFFFFFFFF :: uint64) < 2 ^ 62" by simp
  have h4: "(0::nat) + 10 \<le> 12" by simp
  have h5: "12 \<le> length (replicate 12 (0::byte))" by simp
  have h6: "replicate 12 (0::byte) ! 0 AND ucast (prefix_max 8) = 0" by simp
  have h7: "\<not> resume \<lparr>resume = False, M = 0, nread = 0, val = 0\<rparr>" by simp
  from int_codec_round_trip [OF h1 h2 h3 h4 h5 h6 h7, of "[]"]
  show ?thesis using h3 h6 by simp
qed



lemma low7_le: "unat ((c::byte) AND 0x7f) \<le> 127"
proof -
  have "unat (c AND 0x7f) \<le> unat (0x7f :: byte)"
    by (rule word_and_le1 [THEN word_le_nat_alt [THEN iffD1]])
  then show ?thesis by simp
qed

lemma unat_ucast_byte: "unat (ucast (x::byte) :: uint64) = unat x"
proof -
  have "unat x < 2 ^ 8" using unsigned_less [of x] by simp
  then have "unat x < 2 ^ 64" by simp
  then show ?thesis by (simp add: unsigned_ucast_eq take_bit_nat_eq_self)
qed

lemma ucast_low7: "unat ((ucast (c::byte) :: uint64) AND 0x7f) = unat (c AND 0x7f)"
proof -
  have "(ucast c :: uint64) AND 0x7f = ucast (c AND 0x7f)"
    unfolding h7f by (rule bit_word_eqI) (auto simp: bit_simps)
  then show ?thesis by (simp add: unat_ucast_byte)
qed

lemma unat_push_bit_small:
  assumes "unat (w::uint64) * 2 ^ n < 2 ^ 64"
  shows "unat (push_bit n w) = unat w * 2 ^ n"
proof -
  have "unat (push_bit n w) = take_bit 64 (push_bit n (unat w))"
    by (simp only: unsigned_push_bit_eq) simp
  also have "\<dots> = push_bit n (unat w)"
    using assms by (intro take_bit_nat_eq_self) (simp add: push_bit_eq_mult)
  finally show ?thesis by (simp add: push_bit_eq_mult)
qed

lemma dec_int_loop_all_cont:
  assumes "\<forall>c\<in>set cs. c AND 0x80 \<noteq> 0"
  shows "\<exists>v'. dec_int_loop st k v m (cs @ rest)
            = dec_int_loop st (k + length cs) v' (m + 7 * of_nat (length cs)) rest"
  using assms
proof (induction cs arbitrary: k v m)
  case Nil
  then show ?case by auto
next
  case (Cons c cs)
  from Cons.prems have c: "c AND 0x80 \<noteq> 0" and cs: "\<forall>c\<in>set cs. c AND 0x80 \<noteq> 0" by simp_all
  from Cons.IH [OF cs, of "k + 1" "v + push_bit (unat m) (ucast c AND 0x7f)" "m + 7"]
  obtain v' where "dec_int_loop st (k + 1) (v + push_bit (unat m) (ucast c AND 0x7f)) (m + 7) (cs @ rest)
      = dec_int_loop st (k + 1 + length cs) v' (m + 7 + 7 * of_nat (length cs)) rest" by blast
  then have "dec_int_loop st k v m ((c # cs) @ rest)
      = dec_int_loop st (k + length (c # cs)) v' (m + 7 * of_nat (length (c # cs))) rest"
    using c by (simp add: Let_def algebra_simps)
  then show ?case by blast
qed

lemma dec_int_loop_value:
  assumes "\<forall>c\<in>set cs. c AND 0x80 \<noteq> 0" "unat m = 7 * j" "j + length cs \<le> 9"
    and "unat v < 2 ^ (7 * j) + 255"
  shows "\<exists>v'. dec_int_loop st k v m (cs @ rest)
            = dec_int_loop st (k + length cs) v' (m + 7 * of_nat (length cs)) rest
          \<and> unat v' = unat v + 2 ^ (7 * j) * cont_value cs
          \<and> unat v' < 2 ^ (7 * (j + length cs)) + 255"
  using assms
proof (induction cs arbitrary: k v m j)
  case Nil
  then show ?case by auto
next
  case (Cons c cs)
  from Cons.prems have c: "c AND 0x80 \<noteq> 0" and cs: "\<forall>c\<in>set cs. c AND 0x80 \<noteq> 0" by simp_all
  have j8: "j \<le> 8" using Cons.prems(3) by simp
  let ?x = "ucast c AND 0x7f :: uint64"
  have x: "unat ?x = unat (c AND 0x7f)" by (rule ucast_low7)
  have xle: "unat ?x \<le> 127" using low7_le [of c] x by simp
  have p63: "(2::nat) ^ (7 * j) \<le> 2 ^ 56" using j8 by (intro power_increasing) simp_all
  have "unat ?x * 2 ^ (7 * j) \<le> 127 * 2 ^ (7 * j)" using xle by simp
  also have "\<dots> \<le> 127 * 2 ^ 56" using p63 by simp
  finally have xs: "unat ?x * 2 ^ (7 * j) \<le> 127 * 2 ^ 56" .
  then have "unat ?x * 2 ^ (7 * j) < 2 ^ 64" by simp
  then have up: "unat (push_bit (7 * j) ?x) = unat ?x * 2 ^ (7 * j)" by (rule unat_push_bit_small)
  let ?v1 = "v + push_bit (7 * j) ?x"
  have vb: "unat v < 2 ^ 56 + 255" using Cons.prems(4) p63 by simp
  have "unat v + unat (push_bit (7 * j) ?x) < 2 ^ 64" using vb xs up by simp
  then have v1: "unat ?v1 = unat v + unat ?x * 2 ^ (7 * j)"
    using up by (simp add: unat_add_lem [THEN iffD1])
  have e: "(2::nat) ^ (7 * (j + 1)) = 128 * 2 ^ (7 * j)" by (simp add: power_add)
  have "unat ?v1 < 2 ^ (7 * j) + 255 + 127 * 2 ^ (7 * j)"
    using v1 Cons.prems(4) xle
    by (metis add_less_le_mono mult_le_mono1)
  then have v1b: "unat ?v1 < 2 ^ (7 * (j + 1)) + 255" unfolding e by simp
  have m7: "unat (m + 7) = 7 * (j + 1)"
    using Cons.prems(2) j8 by (simp add: unat_word_ariths)
  have jl: "j + 1 + length cs \<le> 9" using Cons.prems(3) by simp
  from Cons.IH [OF cs m7 jl v1b, of "k + 1"]
  obtain v' where r: "dec_int_loop st (k + 1) ?v1 (m + 7) (cs @ rest)
      = dec_int_loop st (k + 1 + length cs) v' (m + 7 + 7 * of_nat (length cs)) rest"
    and u: "unat v' = unat ?v1 + 2 ^ (7 * (j + 1)) * cont_value cs"
    and b: "unat v' < 2 ^ (7 * (j + 1 + length cs)) + 255" by blast
  have "dec_int_loop st k v m ((c # cs) @ rest)
      = dec_int_loop st (k + length (c # cs)) v' (m + 7 * of_nat (length (c # cs))) rest"
    using c r Cons.prems(2) by (simp add: Let_def algebra_simps)
  moreover have "unat v' = unat v + 2 ^ (7 * j) * cont_value (c # cs)"
    using u v1 x unfolding e by (simp add: algebra_simps)
  moreover have "unat v' < 2 ^ (7 * (j + length (c # cs))) + 255"
    using b by simp
  ultimately show ?case by blast
qed



lemma cont_value_append: "cont_value (xs @ ys) = cont_value xs + 2 ^ (7 * length xs) * cont_value ys"
  by (induction xs) (simp_all add: algebra_simps power_add)

lemma cont_value_less: "cont_value xs < 2 ^ (7 * length xs)"
proof (induction xs)
  case Nil
  then show ?case by simp
next
  case (Cons c xs)
  have e: "(2::nat) ^ (7 * length (c # xs)) = 128 * 2 ^ (7 * length xs)" by (simp add: power_add)
  have "cont_value xs + 1 \<le> 2 ^ (7 * length xs)" using Cons.IH by simp
  then have "128 * (cont_value xs + 1) \<le> 128 * 2 ^ (7 * length xs)" by simp
  then show ?case unfolding e using low7_le [of c] by simp
qed

lemma pm_unat: "p \<le> 8 \<Longrightarrow> unat (ucast (ucast (prefix_max p) :: byte) :: uint64) = 2 ^ p - 1"
proof -
  assume p: "p \<le> 8"
  have "(ucast (ucast (prefix_max p) :: byte) :: uint64) = mask p"
    using p by (simp add: pm_byte mask_byte_u64)
  moreover have "unat (mask p :: uint64) = 2 ^ p - 1"
  proof -
    have "uint (mask p :: uint64) = (mask (min 64 p) :: int)"
      unfolding uint_mask_eq by simp
    also have "\<dots> = 2 ^ p - 1"
      using p by (simp add: mask_eq_exp_minus_1 min_def)
    finally have "nat (uint (mask p :: uint64)) = nat (2 ^ p - 1)" by simp
    also have "\<dots> = 2 ^ p - 1" by (simp add: nat_diff_distrib nat_power_eq)
    finally show ?thesis by simp
  qed
  ultimately show ?thesis by simp
qed



lemma dec_int_fresh_saturated:
  assumes "\<not> resume st" "b AND ucast (prefix_max p) = ucast (prefix_max p)"
  shows "lsqpack_dec_int (b # src) p st
         = Some (dec_int_loop st 1 (ucast (ucast (prefix_max p) :: byte)) 0 src)"
  using assms by (simp add: Let_def)

lemma dec_int_loop_exhausted:
  assumes "\<forall>c\<in>set cs. c AND 0x80 \<noteq> 0"
    and "10 \<le> unat base + (k + length cs)" "unat base + (k + length cs) < 2 ^ 32"
    and "base = (if resume st then nread st else 0)"
  shows "dec_int_loop st k v m cs = DEC_INT_OVERFLOW"
proof -
  from dec_int_loop_all_cont [OF assms(1), of st k v m "[]"]
  obtain v' where r: "dec_int_loop st k v m cs
       = dec_int_loop st (k + length cs) v' (m + 7 * of_nat (length cs)) []" by auto
  have "unat (of_nat (k + length cs) :: unsigned) = k + length cs"
    using assms(3) by (subst unat_of_nat) simp
  then have "unat (base + of_nat (k + length cs)) = unat base + (k + length cs)"
    using assms(3) by (subst unat_word_ariths) simp
  then have "\<not> base + of_nat (k + length cs) < LSQPACK_UINT64_ENC_SZ"
    using assms(2) by (simp add: LSQPACK_UINT64_ENC_SZ_def word_less_nat_alt)
  then show ?thesis unfolding r using assms(4) by (simp add: Let_def)
qed

lemma bit63_clear:
  assumes "unat (w::uint64) < 2 ^ 63"
  shows "w AND push_bit 63 1 = 0"
proof -
  have "int (unat w) < 2 ^ 63" using assms by (metis of_nat_less_numeral_power_cancel_iff)
  then have "uint w < 2 ^ 63" by (simp only: uint_nat)
  then have w: "w AND mask 63 = w" by (simp add: mask_eq_iff)
  have z: "(mask 63 :: uint64) AND push_bit 63 1 = 0"
    by (rule bit_word_eqI) (simp only: bit_and_iff bit_mask_iff bit_push_bit_iff bit_1_iff, auto)
  have "w AND push_bit 63 1 = (w AND mask 63) AND push_bit 63 1" by (simp only: w)
  also have "\<dots> = w AND (mask 63 AND push_bit 63 1)" by (simp only: and.assoc)
  also have "\<dots> = 0" by (simp only: z and_zero_eq)
  finally show ?thesis .
qed

lemma no_cont_low7:
  assumes "(t::byte) AND 0x80 = 0"
  shows "t AND 0x7f = t"
proof -
  have "\<not> bit t 7"
  proof
    assume "bit t 7"
    then have "bit (t AND 0x80) 7" by (simp add: bit_simps bit_128)
    then show False by (simp add: assms)
  qed
  then show ?thesis unfolding h7f
    by (intro bit_word_eqI) (auto simp: bit_simps less_Suc_eq numeral_eq_Suc)
qed

text \<open>The loop entered with the shift count \<open>7 * j\<close>: the terminating byte of a number that
  does not fit in 64 bits.\<close>

lemma dec_int_loop_overflow_value:
  assumes cont: "\<forall>c\<in>set cs. c AND 0x80 \<noteq> 0"
    and m: "unat m = 7 * j"
    and vb: "unat v < 2 ^ (7 * j) + 255"
    and t: "t AND 0x80 = 0"
    and len: "7 * (j + length cs + 1) < 2 ^ 32"
    and big: "2 ^ 64 \<le> unat v + 2 ^ (7 * j) * cont_value (cs @ [t])"
  shows "dec_int_loop st k v m (cs @ t # rest) = DEC_INT_OVERFLOW"
proof -
  have t7: "t AND 0x7f = t" using t by (rule no_cont_low7)
  have "of_nat (unat m) = m" by simp
  then have mw: "m = of_nat (7 * j)" unfolding m by simp
  consider "j + length cs \<le> 8" | "j + length cs = 9" | "10 \<le> j + length cs" by linarith
  then show ?thesis
  proof cases
    case 1
    let ?A = "(2::nat) ^ (7 * j)"
    let ?B = "(2::nat) ^ (7 * length (cs @ [t]))"
    have "cont_value (cs @ [t]) < ?B" by (rule cont_value_less)
    then have "cont_value (cs @ [t]) + 1 \<le> ?B" by simp
    then have "?A * (cont_value (cs @ [t]) + 1) \<le> ?A * ?B" by (rule mult_le_mono2)
    then have "?A * cont_value (cs @ [t]) + ?A \<le> ?A * ?B" by (simp add: algebra_simps)
    then have "unat v + ?A * cont_value (cs @ [t]) < ?A * ?B + 255" using vb by linarith
    also have "?A * ?B = 2 ^ (7 * (j + length cs + 1))" by (simp add: power_add [symmetric] algebra_simps)
    also have "(2::nat) ^ (7 * (j + length cs + 1)) \<le> 2 ^ 63" using 1 by (intro power_increasing) simp_all
    finally have "unat v + ?A * cont_value (cs @ [t]) < 2 ^ 63 + 255" by simp
    with big show ?thesis by simp
  next
    case 2
    have l: "j + length cs \<le> 9" using 2 by simp
    from dec_int_loop_value [OF cont m l vb, of st k "t # rest"]
    obtain v' where r: "dec_int_loop st k v m (cs @ t # rest)
            = dec_int_loop st (k + length cs) v' (m + 7 * of_nat (length cs)) (t # rest)"
      and u: "unat v' = unat v + 2 ^ (7 * j) * cont_value cs"
      and ub: "unat v' < 2 ^ (7 * (j + length cs)) + 255" by blast
    have "m + 7 * of_nat (length cs) = (of_nat (7 * (j + length cs)) :: unsigned)"
      unfolding mw by (simp add: algebra_simps)
    then have m63: "(m + 7 * of_nat (length cs) :: unsigned) = 63" unfolding 2 by simp
    have "(2::nat) ^ (7 * j) * 2 ^ (7 * length cs) = 2 ^ (7 * (j + length cs))"
      by (simp add: power_add [symmetric] algebra_simps)
    then have pw: "(2::nat) ^ (7 * j) * 2 ^ (7 * length cs) = 2 ^ 63" unfolding 2 by simp
    have "unat v + 2 ^ (7 * j) * cont_value (cs @ [t])
            = unat v + 2 ^ (7 * j) * cont_value cs + (2 ^ (7 * j) * 2 ^ (7 * length cs)) * unat t"
      using t7 by (simp add: cont_value_append algebra_simps)
    also have "\<dots> = unat v' + 2 ^ 63 * unat t"
      using u unfolding pw by simp
    finally have acc: "unat v + 2 ^ (7 * j) * cont_value (cs @ [t]) = unat v' + 2 ^ 63 * unat t" .
    have ub63: "unat v' < 2 ^ 63 + 255" using ub unfolding 2 by simp
    let ?v2 = "v' + push_bit 63 (ucast t AND 0x7f)"
    have chk: "\<not> (t \<le> 1 \<and> ?v2 AND push_bit 63 1 \<noteq> 0)"
    proof
      assume a: "t \<le> 1 \<and> ?v2 AND push_bit 63 1 \<noteq> 0"
      then have "unat t \<le> 1" by (simp add: word_le_nat_alt)
      moreover have "unat t \<noteq> 0"
      proof
        assume "unat t = 0"
        with acc big ub63 show False by simp
      qed
      ultimately have t1: "unat t = 1" by simp
      then have "t = 1" by (metis unat_1 word_unat_eq_iff)
      then have x1: "(ucast t AND 0x7f :: uint64) = 1" by simp
      have ge: "2 ^ 63 \<le> unat v'" using acc big t1 by simp
      have "unat ?v2 = (unat v' + 2 ^ 63) mod 2 ^ 64"
        unfolding x1 by (simp add: unat_word_ariths)
      also have "\<dots> = unat v' + 2 ^ 63 - 2 ^ 64"
        using ge ub63 by (simp add: mod_if)
      finally have "unat ?v2 < 2 ^ 63" using ub63 by simp
      then have "?v2 AND push_bit 63 1 = 0" by (rule bit63_clear)
      with a show False by simp
    qed
    show ?thesis
      unfolding r m63 using t chk by (simp add: Let_def)
  next
    case 3
    from dec_int_loop_all_cont [OF cont, of st k v m "t # rest"]
    obtain v' where r: "dec_int_loop st k v m (cs @ t # rest)
            = dec_int_loop st (k + length cs) v' (m + 7 * of_nat (length cs)) (t # rest)" by blast
    have "m + 7 * of_nat (length cs) + 7 = (of_nat (7 * (j + length cs + 1)) :: unsigned)"
      unfolding mw by (simp add: algebra_simps)
    then have "unat (m + 7 * of_nat (length cs) + 7 :: unsigned) = 7 * (j + length cs + 1)"
      using len by (simp only: unat_of_nat) simp
    then have m77: "77 \<le> unat (m + 7 * of_nat (length cs) + 7 :: unsigned)" using 3 by simp
    have "\<not> (m + 7 * of_nat (length cs) + 7 :: unsigned) \<le> 63"
      using m77 by (simp add: word_le_nat_alt)
    moreover have "(m + 7 * of_nat (length cs) + 7 :: unsigned) \<noteq> 70"
      using m77 by auto
    ultimately show ?thesis
      unfolding r using t by (simp add: Let_def)
  qed
qed

lemma dec_int_overflow_value:
  assumes cont: "\<forall>c\<in>set cs. c AND 0x80 \<noteq> 0"
    and fresh: "\<not> resume st" and p: "p \<le> 8"
    and sat: "b AND ucast (prefix_max p) = ucast (prefix_max p)"
    and t: "t AND 0x80 = 0"
    and len: "7 * (length cs + 1) < 2 ^ 32"
    and big: "2 ^ 64 \<le> 2 ^ p - 1 + cont_value (cs @ [t])"
  shows "lsqpack_dec_int (b # cs @ t # rest) p st = Some DEC_INT_OVERFLOW"
proof -
  let ?pm = "ucast (ucast (prefix_max p) :: byte) :: uint64"
  have pm: "unat ?pm = 2 ^ p - 1" using p by (rule pm_unat)
  have "(2::nat) ^ p \<le> 2 ^ 8" using p by (intro power_increasing) simp_all
  then have pm255: "unat ?pm \<le> 255" using pm by simp
  have start: "lsqpack_dec_int (b # cs @ t # rest) p st = Some (dec_int_loop st 1 ?pm 0 (cs @ t # rest))"
    using fresh sat by (rule dec_int_fresh_saturated)
  have m0: "unat (0::unsigned) = 7 * 0" by simp
  have v0: "unat ?pm < 2 ^ (7 * 0) + 255" using pm255 by simp
  have l0: "7 * (0 + length cs + 1) < 2 ^ 32" using len by simp
  have b0: "2 ^ 64 \<le> unat ?pm + 2 ^ (7 * 0) * cont_value (cs @ [t])" using big pm by simp
  from dec_int_loop_overflow_value [OF cont m0 v0 t l0 b0] start show ?thesis by simp
qed

lemma dec_int_resumed_overflow_value:
  assumes cont: "\<forall>c\<in>set cs. c AND 0x80 \<noteq> 0"
    and saved: "dec_int_saved st j"
    and t: "t AND 0x80 = 0"
    and len: "7 * (j + length cs + 1) < 2 ^ 32"
    and big: "2 ^ 64 \<le> unat (val st) + 2 ^ (7 * j) * cont_value (cs @ [t])"
  shows "lsqpack_dec_int (cs @ t # rest) p st = Some DEC_INT_OVERFLOW"
proof -
  from saved have r: "resume st" and m: "unat (M st) = 7 * j"
    and vb: "unat (val st) < 2 ^ (7 * j) + 255"
    by (simp_all add: dec_int_saved_def)
  obtain x xs where x: "cs @ t # rest = x # xs" by (cases cs) auto
  have "lsqpack_dec_int (cs @ t # rest) p st = Some (dec_int_loop st 0 (val st) (M st) (cs @ t # rest))"
    unfolding x using r by simp
  with dec_int_loop_overflow_value [OF cont m vb t len big] show ?thesis by simp
qed

text \<open>The state saved when the input runs out.\<close>

lemma dec_int_loop_need:
  assumes cont: "\<forall>c\<in>set cs. c AND 0x80 \<noteq> 0"
    and m: "unat m = 7 * j"
    and vb: "unat v < 2 ^ (7 * j) + 255"
    and base: "base = (if resume st then nread st else 0)" "unat base + k = j + 1"
    and len: "j + 1 + length cs < 2 ^ 32"
    and need: "dec_int_loop st k v m cs = DEC_INT_NEED st'"
  shows "dec_int_saved st' (j + length cs) \<and> unat (val st') = unat v + 2 ^ (7 * j) * cont_value cs"
proof -
  have kl: "unat (of_nat (k + length cs) :: unsigned) = k + length cs"
    using base(2) len by (subst unat_of_nat) simp
  then have n: "unat (base + of_nat (k + length cs)) = j + 1 + length cs"
    using base(2) len by (subst unat_word_ariths) simp
  from dec_int_loop_all_cont [OF cont, of st k v m "[]"]
  obtain v0 where r0: "dec_int_loop st k v m cs
       = dec_int_loop st (k + length cs) v0 (m + 7 * of_nat (length cs)) []" by auto
  have lt: "base + of_nat (k + length cs) < LSQPACK_UINT64_ENC_SZ"
  proof (rule ccontr)
    assume "\<not> base + of_nat (k + length cs) < LSQPACK_UINT64_ENC_SZ"
    then have "dec_int_loop st k v m cs = DEC_INT_OVERFLOW"
      unfolding r0 using base(1) by (simp add: Let_def)
    with need show False by simp
  qed
  then have "j + 1 + length cs < 10"
    using n by (simp add: LSQPACK_UINT64_ENC_SZ_def word_less_nat_alt)
  then have l: "j + length cs \<le> 9" and l8: "j + length cs \<le> 8" by simp_all
  from dec_int_loop_value [OF cont m l vb, of st k "[]"]
  obtain v' where r: "dec_int_loop st k v m cs
            = dec_int_loop st (k + length cs) v' (m + 7 * of_nat (length cs)) []"
      and u: "unat v' = unat v + 2 ^ (7 * j) * cont_value cs"
      and ub: "unat v' < 2 ^ (7 * (j + length cs)) + 255" by auto
  have s: "st' = \<lparr>resume = True, M = m + 7 * of_nat (length cs),
                  nread = base + of_nat (k + length cs), val = v'\<rparr>"
    using need lt unfolding r base(1) by (simp add: Let_def)
  have "of_nat (unat m) = m" by simp
  then have mw: "m = of_nat (7 * j)" unfolding m by simp
  have "m + 7 * of_nat (length cs) = (of_nat (7 * (j + length cs)) :: unsigned)"
    unfolding mw by (simp add: algebra_simps)
  then have "unat (m + 7 * of_nat (length cs)) = 7 * (j + length cs)"
    using l8 by (simp only: unat_of_nat) simp
  then show ?thesis using s n u ub by (simp add: dec_int_saved_def)
qed

lemma dec_int_fresh_need:
  assumes cont: "\<forall>c\<in>set cs. c AND 0x80 \<noteq> 0"
    and fresh: "\<not> resume st" and p: "p \<le> 8"
    and sat: "b AND ucast (prefix_max p) = ucast (prefix_max p)"
    and len: "1 + length cs < 2 ^ 32"
    and need: "lsqpack_dec_int (b # cs) p st = Some (DEC_INT_NEED st')"
  shows "dec_int_saved st' (length cs) \<and> unat (val st') = 2 ^ p - 1 + cont_value cs"
proof -
  let ?pm = "ucast (ucast (prefix_max p) :: byte) :: uint64"
  have pm: "unat ?pm = 2 ^ p - 1" using p by (rule pm_unat)
  have "(2::nat) ^ p \<le> 2 ^ 8" using p by (intro power_increasing) simp_all
  then have v0: "unat ?pm < 2 ^ (7 * 0) + 255" using pm by simp
  have "lsqpack_dec_int (b # cs) p st = Some (dec_int_loop st 1 ?pm 0 cs)"
    using fresh sat by (rule dec_int_fresh_saturated)
  with need have n: "dec_int_loop st 1 ?pm 0 cs = DEC_INT_NEED st'" by simp
  have m0: "unat (0::unsigned) = 7 * 0" by simp
  have b1: "(0::unsigned) = (if resume st then nread st else 0)" using fresh by simp
  have b2: "unat (0::unsigned) + 1 = 0 + 1" by simp
  have l0: "0 + 1 + length cs < 2 ^ 32" using len by simp
  from dec_int_loop_need [OF cont m0 v0 b1 b2 l0 n] pm show ?thesis by simp
qed

lemma dec_int_resumed_need:
  assumes cont: "\<forall>c\<in>set cs. c AND 0x80 \<noteq> 0"
    and saved: "dec_int_saved st j" and b: "b AND 0x80 \<noteq> 0"
    and len: "unat (nread st) + (1 + length cs) < 2 ^ 32"
    and need: "lsqpack_dec_int (b # cs) p st = Some (DEC_INT_NEED st')"
  shows "dec_int_saved st' (j + (1 + length cs))
           \<and> unat (val st') = unat (val st) + 2 ^ (7 * j) * cont_value (b # cs)"
proof -
  from saved have r: "resume st" and m: "unat (M st) = 7 * j" and nr: "unat (nread st) = j + 1"
    and vb: "unat (val st) < 2 ^ (7 * j) + 255"
    by (simp_all add: dec_int_saved_def)
  have c: "\<forall>c\<in>set (b # cs). c AND 0x80 \<noteq> 0" using cont b by simp
  have n: "dec_int_loop st 0 (val st) (M st) (b # cs) = DEC_INT_NEED st'"
    using need r by simp
  have b1: "nread st = (if resume st then nread st else 0)" using r by simp
  have b2: "unat (nread st) + 0 = j + 1" using nr by simp
  have l0: "j + 1 + length (b # cs) < 2 ^ 32" using len nr by simp
  from dec_int_loop_need [OF c m vb b1 b2 l0 n] show ?thesis by simp
qed



text \<open>
  Claim C7, as the code has it.  Let every byte of \<open>cs\<close> carry the continuation bit.
  \<^item> A fresh call whose first byte has all prefix bits set and whose input \<open>b # cs\<close> ends
    without a terminating byte returns -2 once ten or more bytes have been read.
  \<^item> A resumed call whose input \<open>b # cs\<close> ends without a terminating byte returns -2 once
    the bytes read in the earlier calls and in this one are ten or more.
  \<^item> A fresh call that reaches the terminating byte \<open>t\<close> after the continuation bytes
    \<open>cs\<close> returns -2 whenever the number they stand for, prefix included, does not fit
    in 64 bits; this holds for ten continuation bytes in particular.  (The bound on the
    length keeps the 32-bit shift count \<open>M\<close> from wrapping.)
  \<^item> A resumed call, entered with a state saved after the prefix byte and \<open>j\<close>
    continuation bytes, that reaches the terminating byte \<open>t\<close> after the continuation
    bytes \<open>cs\<close> returns -2 whenever the value saved and the number that the bytes of this
    call stand for, shifted by \<open>7 * j\<close> bits, together do not fit in 64 bits.
  \<^item> The states that the decoder saves are of that kind: the state that a fresh call
    leaves when its input runs out after \<open>cs\<close> is saved after \<open>length cs\<close> continuation
    bytes and holds the prefix plus the number \<open>cs\<close> stands for; the state that a resumed
    call leaves holds the value it was entered with plus the number that the bytes of the
    call stand for, shifted.
  The limit of ten bytes is only looked at when the input of a call has run out: a
  terminating byte inside the same call is still decoded, as the counterexample shows.
\<close>

theorem dec_int_overflow:
  assumes "\<forall>c\<in>set cs. c AND 0x80 \<noteq> 0"
  shows "(\<not> resume st \<and> b AND ucast (prefix_max prefix_bits) = ucast (prefix_max prefix_bits)
            \<and> 10 \<le> 1 + length cs \<and> 1 + length cs < 2 ^ 32
          \<longrightarrow> lsqpack_dec_int (b # cs) prefix_bits st = Some DEC_INT_OVERFLOW)
       \<and> (resume st \<and> b AND 0x80 \<noteq> 0
            \<and> 10 \<le> unat (nread st) + (1 + length cs) \<and> unat (nread st) + (1 + length cs) < 2 ^ 32
          \<longrightarrow> lsqpack_dec_int (b # cs) prefix_bits st = Some DEC_INT_OVERFLOW)
       \<and> (\<not> resume st \<and> prefix_bits \<le> 8
            \<and> b AND ucast (prefix_max prefix_bits) = ucast (prefix_max prefix_bits)
            \<and> t AND 0x80 = 0 \<and> 7 * (length cs + 1) < 2 ^ 32
            \<and> 2 ^ 64 \<le> 2 ^ prefix_bits - 1 + cont_value (cs @ [t])
          \<longrightarrow> lsqpack_dec_int (b # cs @ t # rest) prefix_bits st = Some DEC_INT_OVERFLOW)
       \<and> (dec_int_saved st j \<and> t AND 0x80 = 0 \<and> 7 * (j + length cs + 1) < 2 ^ 32
            \<and> 2 ^ 64 \<le> unat (val st) + 2 ^ (7 * j) * cont_value (cs @ [t])
          \<longrightarrow> lsqpack_dec_int (cs @ t # rest) prefix_bits st = Some DEC_INT_OVERFLOW)
       \<and> (\<not> resume st \<and> prefix_bits \<le> 8
            \<and> b AND ucast (prefix_max prefix_bits) = ucast (prefix_max prefix_bits)
            \<and> 1 + length cs < 2 ^ 32
            \<and> lsqpack_dec_int (b # cs) prefix_bits st = Some (DEC_INT_NEED st')
          \<longrightarrow> dec_int_saved st' (length cs)
              \<and> unat (val st') = 2 ^ prefix_bits - 1 + cont_value cs)
       \<and> (dec_int_saved st j \<and> b AND 0x80 \<noteq> 0
            \<and> unat (nread st) + (1 + length cs) < 2 ^ 32
            \<and> lsqpack_dec_int (b # cs) prefix_bits st = Some (DEC_INT_NEED st')
          \<longrightarrow> dec_int_saved st' (j + (1 + length cs))
              \<and> unat (val st') = unat (val st) + 2 ^ (7 * j) * cont_value (b # cs))"
proof (intro conjI impI)
  assume a: "\<not> resume st \<and> b AND ucast (prefix_max prefix_bits) = ucast (prefix_max prefix_bits)
            \<and> 10 \<le> 1 + length cs \<and> 1 + length cs < 2 ^ 32"
  then have "lsqpack_dec_int (b # cs) prefix_bits st
         = Some (dec_int_loop st 1 (ucast (ucast (prefix_max prefix_bits) :: byte)) 0 cs)"
    by (intro dec_int_fresh_saturated) simp_all
  moreover have "dec_int_loop st 1 (ucast (ucast (prefix_max prefix_bits) :: byte)) 0 cs = DEC_INT_OVERFLOW"
    using a by (intro dec_int_loop_exhausted [OF assms, where base = 0]) simp_all
  ultimately show "lsqpack_dec_int (b # cs) prefix_bits st = Some DEC_INT_OVERFLOW" by simp
next
  assume a: "resume st \<and> b AND 0x80 \<noteq> 0
            \<and> 10 \<le> unat (nread st) + (1 + length cs) \<and> unat (nread st) + (1 + length cs) < 2 ^ 32"
  have c: "\<forall>c\<in>set (b # cs). c AND 0x80 \<noteq> 0" using a assms by simp
  have "dec_int_loop st 0 (val st) (M st) (b # cs) = DEC_INT_OVERFLOW"
    using a by (intro dec_int_loop_exhausted [OF c, where base = "nread st"]) simp_all
  then show "lsqpack_dec_int (b # cs) prefix_bits st = Some DEC_INT_OVERFLOW"
    using a by simp
next
  assume a: "\<not> resume st \<and> prefix_bits \<le> 8
            \<and> b AND ucast (prefix_max prefix_bits) = ucast (prefix_max prefix_bits)
            \<and> t AND 0x80 = 0 \<and> 7 * (length cs + 1) < 2 ^ 32
            \<and> 2 ^ 64 \<le> 2 ^ prefix_bits - 1 + cont_value (cs @ [t])"
  then show "lsqpack_dec_int (b # cs @ t # rest) prefix_bits st = Some DEC_INT_OVERFLOW"
    by (intro dec_int_overflow_value [OF assms]) simp_all
next
  assume a: "dec_int_saved st j \<and> t AND 0x80 = 0 \<and> 7 * (j + length cs + 1) < 2 ^ 32
            \<and> 2 ^ 64 \<le> unat (val st) + 2 ^ (7 * j) * cont_value (cs @ [t])"
  then show "lsqpack_dec_int (cs @ t # rest) prefix_bits st = Some DEC_INT_OVERFLOW"
    by (intro dec_int_resumed_overflow_value [OF assms, where j = j]) simp_all
next
  assume a: "\<not> resume st \<and> prefix_bits \<le> 8
            \<and> b AND ucast (prefix_max prefix_bits) = ucast (prefix_max prefix_bits)
            \<and> 1 + length cs < 2 ^ 32
            \<and> lsqpack_dec_int (b # cs) prefix_bits st = Some (DEC_INT_NEED st')"
  then have "dec_int_saved st' (length cs) \<and> unat (val st') = 2 ^ prefix_bits - 1 + cont_value cs"
    by (intro dec_int_fresh_need [OF assms, where st = st and b = b])
       (simp_all del: lsqpack_dec_int.simps)
  then show "dec_int_saved st' (length cs)" "unat (val st') = 2 ^ prefix_bits - 1 + cont_value cs"
    by simp_all
next
  assume a: "dec_int_saved st j \<and> b AND 0x80 \<noteq> 0
            \<and> unat (nread st) + (1 + length cs) < 2 ^ 32
            \<and> lsqpack_dec_int (b # cs) prefix_bits st = Some (DEC_INT_NEED st')"
  then have "dec_int_saved st' (j + (1 + length cs))
              \<and> unat (val st') = unat (val st) + 2 ^ (7 * j) * cont_value (b # cs)"
    by (intro dec_int_resumed_need [OF assms, where st = st and p = prefix_bits])
       (simp_all del: lsqpack_dec_int.simps)
  then show "dec_int_saved st' (j + (1 + length cs))"
    "unat (val st') = unat (val st) + 2 ^ (7 * j) * cont_value (b # cs)"
    by simp_all
qed

theorem dec_int_overflow_witness:
  "lsqpack_dec_int (0xFF # [0xFF, 0xFF, 0xFF, 0xFF, 0xFF, 0xFF, 0xFF, 0xFF, 0xFF]) 8
         \<lparr>resume = False, M = 0, nread = 0, val = 0\<rparr>
       = Some DEC_INT_OVERFLOW
   \<and> lsqpack_dec_int (0x80 # [0xFF, 0xFF, 0xFF, 0xFF, 0xFF, 0xFF, 0xFF, 0xFF, 0xFF]) 8
         \<lparr>resume = True, M = 0, nread = 1, val = 255\<rparr>
       = Some DEC_INT_OVERFLOW
   \<and> (2::nat) ^ 64 \<le> 2 ^ 8 - 1 + cont_value ([0xFF, 0xFF, 0xFF, 0xFF, 0xFF, 0xFF, 0xFF, 0xFF, 0xFF] @ [0x01])
   \<and> lsqpack_dec_int (0xFF # [0xFF, 0xFF, 0xFF, 0xFF, 0xFF, 0xFF, 0xFF, 0xFF, 0xFF] @ 0x01 # []) 8
         \<lparr>resume = False, M = 0, nread = 0, val = 0\<rparr>
       = Some DEC_INT_OVERFLOW
   \<and> lsqpack_dec_int (0xFF # [0xFF, 0xFF, 0xFF]) 8 \<lparr>resume = False, M = 0, nread = 0, val = 0\<rparr>
       = Some (DEC_INT_NEED \<lparr>resume = True, M = 21, nread = 4, val = 2097406\<rparr>)
   \<and> dec_int_saved \<lparr>resume = True, M = 21, nread = 4, val = 2097406\<rparr> (length [0xFF, 0xFF, 0xFF :: byte])
   \<and> unat (val \<lparr>resume = True, M = 21, nread = 4, val = 2097406\<rparr>)
       = 2 ^ 8 - 1 + cont_value [0xFF, 0xFF, 0xFF]
   \<and> lsqpack_dec_int (0xFF # [0xFF]) 8 \<lparr>resume = True, M = 21, nread = 4, val = 2097406\<rparr>
       = Some (DEC_INT_NEED \<lparr>resume = True, M = 35, nread = 6, val = 34359738622\<rparr>)
   \<and> dec_int_saved \<lparr>resume = True, M = 35, nread = 6, val = 34359738622\<rparr> (3 + (1 + length [0xFF :: byte]))
   \<and> (2::nat) ^ 64 \<le> unat (val \<lparr>resume = True, M = 35, nread = 6, val = 34359738622\<rparr>)
         + 2 ^ (7 * 5) * cont_value ([0xFF, 0xFF, 0xFF, 0xFF] @ [0x01])
   \<and> lsqpack_dec_int ([0xFF, 0xFF, 0xFF, 0xFF] @ 0x01 # []) 8
         \<lparr>resume = True, M = 35, nread = 6, val = 34359738622\<rparr>
       = Some DEC_INT_OVERFLOW"
proof -
  let ?cs = "[0xFF, 0xFF, 0xFF, 0xFF, 0xFF, 0xFF, 0xFF, 0xFF, 0xFF :: byte]"
  let ?cs3 = "[0xFF, 0xFF, 0xFF :: byte]"
  let ?cs1 = "[0xFF :: byte]"
  let ?cs4 = "[0xFF, 0xFF, 0xFF, 0xFF :: byte]"
  let ?st = "\<lparr>resume = False, M = 0, nread = 0, val = 0\<rparr>"
  let ?st2 = "\<lparr>resume = True, M = 0, nread = 1, val = 255\<rparr>"
  let ?s1 = "\<lparr>resume = True, M = 21, nread = 4, val = 2097406\<rparr>"
  let ?s2 = "\<lparr>resume = True, M = 35, nread = 6, val = 34359738622\<rparr>"
  have h: "\<forall>c\<in>set ?cs. c AND 0x80 \<noteq> 0" by simp
  have hc3: "\<forall>c\<in>set ?cs3. c AND 0x80 \<noteq> 0" by simp
  have hc1: "\<forall>c\<in>set ?cs1. c AND 0x80 \<noteq> 0" by simp
  have hc4: "\<forall>c\<in>set ?cs4. c AND 0x80 \<noteq> 0" by simp
  have big: "(2::nat) ^ 64 \<le> 2 ^ 8 - 1 + cont_value (?cs @ [0x01])"
    by simp
  have pm: "(0xFF :: byte) AND ucast (prefix_max 8) = ucast (prefix_max 8)"
    by (simp add: prefix_max_def)
  have h1: "\<not> resume ?st \<and> (0xFF :: byte) AND ucast (prefix_max 8) = ucast (prefix_max 8)
            \<and> 10 \<le> 1 + length ?cs \<and> 1 + length ?cs < 2 ^ 32"
    using pm by simp
  have h2: "resume ?st2 \<and> (0x80 :: byte) AND 0x80 \<noteq> 0
            \<and> 10 \<le> unat (nread ?st2) + (1 + length ?cs) \<and> unat (nread ?st2) + (1 + length ?cs) < 2 ^ 32"
    by simp
  have h3: "\<not> resume ?st \<and> (8::nat) \<le> 8
            \<and> (0xFF :: byte) AND ucast (prefix_max 8) = ucast (prefix_max 8)
            \<and> (0x01 :: byte) AND 0x80 = 0 \<and> 7 * (length ?cs + 1) < 2 ^ 32
            \<and> 2 ^ 64 \<le> 2 ^ 8 - 1 + cont_value (?cs @ [0x01])"
    using pm big by simp
  have 1: "lsqpack_dec_int (0xFF # ?cs) 8 ?st = Some DEC_INT_OVERFLOW"
    using dec_int_overflow [OF h, where st = ?st and b = "0xFF" and prefix_bits = 8, THEN conjunct1] h1
    by (rule mp)
  have 2: "lsqpack_dec_int (0x80 # ?cs) 8 ?st2 = Some DEC_INT_OVERFLOW"
    using dec_int_overflow [OF h, where st = ?st2 and b = "0x80" and prefix_bits = 8,
        THEN conjunct2, THEN conjunct1] h2
    by (rule mp)
  have 3: "lsqpack_dec_int (0xFF # ?cs @ 0x01 # []) 8 ?st = Some DEC_INT_OVERFLOW"
    using dec_int_overflow [OF h, where st = ?st and b = "0xFF" and prefix_bits = 8 and t = "0x01" and rest = "[]",
        THEN conjunct2, THEN conjunct2, THEN conjunct1] h3
    by (rule mp)
  have n1: "lsqpack_dec_int (0xFF # ?cs3) 8 ?st = Some (DEC_INT_NEED ?s1)"
    by code_simp
  have h5: "\<not> resume ?st \<and> (8::nat) \<le> 8
            \<and> (0xFF :: byte) AND ucast (prefix_max 8) = ucast (prefix_max 8)
            \<and> 1 + length ?cs3 < 2 ^ 32
            \<and> lsqpack_dec_int (0xFF # ?cs3) 8 ?st = Some (DEC_INT_NEED ?s1)"
    using pm n1 by simp
  have 5: "dec_int_saved ?s1 (length ?cs3) \<and> unat (val ?s1) = 2 ^ 8 - 1 + cont_value ?cs3"
    using dec_int_overflow [OF hc3, where st = ?st and b = "0xFF" and prefix_bits = 8 and st' = ?s1,
        THEN conjunct2, THEN conjunct2, THEN conjunct2, THEN conjunct2, THEN conjunct1] h5
    by (rule mp)
  have l3: "length ?cs3 = 3" by simp
  from 5 have s1: "dec_int_saved ?s1 3" unfolding l3 by (rule conjunct1)
  have n2: "lsqpack_dec_int (0xFF # ?cs1) 8 ?s1 = Some (DEC_INT_NEED ?s2)"
    by code_simp
  have h6: "dec_int_saved ?s1 3 \<and> (0xFF :: byte) AND 0x80 \<noteq> 0
            \<and> unat (nread ?s1) + (1 + length ?cs1) < 2 ^ 32
            \<and> lsqpack_dec_int (0xFF # ?cs1) 8 ?s1 = Some (DEC_INT_NEED ?s2)"
    using s1 n2 by simp
  have 6: "dec_int_saved ?s2 (3 + (1 + length ?cs1))
             \<and> unat (val ?s2) = unat (val ?s1) + 2 ^ (7 * 3) * cont_value (0xFF # ?cs1)"
    using dec_int_overflow [OF hc1, where st = ?s1 and b = "0xFF" and prefix_bits = 8 and st' = ?s2
          and j = 3,
        THEN conjunct2, THEN conjunct2, THEN conjunct2, THEN conjunct2, THEN conjunct2] h6
    by (rule mp)
  have l5: "3 + (1 + length ?cs1) = 5" by simp
  from 6 have s2: "dec_int_saved ?s2 5" unfolding l5 by (rule conjunct1)
  have big2: "(2::nat) ^ 64 \<le> unat (val ?s2) + 2 ^ (7 * 5) * cont_value (?cs4 @ [0x01])"
    by simp
  have h4: "dec_int_saved ?s2 5 \<and> (0x01 :: byte) AND 0x80 = 0 \<and> 7 * (5 + length ?cs4 + 1) < 2 ^ 32
            \<and> 2 ^ 64 \<le> unat (val ?s2) + 2 ^ (7 * 5) * cont_value (?cs4 @ [0x01])"
    using s2 big2 by simp
  have 4: "lsqpack_dec_int (?cs4 @ 0x01 # []) 8 ?s2 = Some DEC_INT_OVERFLOW"
    using dec_int_overflow [OF hc4, where st = ?s2 and prefix_bits = 8 and t = "0x01" and rest = "[]"
          and j = 5,
        THEN conjunct2, THEN conjunct2, THEN conjunct2, THEN conjunct1] h4
    by (rule mp)
  from 5 have a5: "dec_int_saved ?s1 (length ?cs3)" by (rule conjunct1)
  from 5 have b5: "unat (val ?s1) = 2 ^ 8 - 1 + cont_value ?cs3" by (rule conjunct2)
  from 6 have a6: "dec_int_saved ?s2 (3 + (1 + length ?cs1))" by (rule conjunct1)
  from 1 2 big 3 n1 a5 b5 n2 a6 big2 4 show ?thesis by (intro conjI)
qed


text \<open>
  Eleven bytes in one call: the prefix byte and nine continuation bytes are read without
  a terminating byte, and the eleventh byte still completes the value \<open>2^63 + 255\<close>.
\<close>

theorem dec_int_overflow_counterexample:
  "lsqpack_dec_int [0xFF, 0x80, 0x80, 0x80, 0x80, 0x80, 0x80, 0x80, 0x80, 0x80, 0x01] 8
     \<lparr>resume = False, M = 0, nread = 0, val = 0\<rparr>
   = Some (DEC_INT_OK 0x80000000000000FF [])"
  by code_simp


section \<open>Encoder: the test for room in the dynamic table\<close>

text \<open>With \<open>min_id = 0\<close> no entry is counted as evictable: the loop returns at the first entry.\<close>

lemma evict_loop_min_id_0: "evict_loop 0 avail new_entry_size enc entries = (False, enc)"
  by (cases entries) simp_all

lemma enc_has_or_can_evict_at_least_avail:
  "enc_has_or_can_evict_at_least enc new_entry_size
     = (new_entry_size \<le> ucast (qpe_max_capacity enc - qpe_cur_capacity enc), enc)"
  by (simp add: enc_has_or_can_evict_at_least_def Let_def evict_loop_min_id_0)

section \<open>Encoder: initialisation, a static hit, the decoder stream\<close>

lemma stx_path_slash: "lsqpack_enc_get_stx_tab_id (bytes_of '':path'') (bytes_of ''/'') = (4, True)"
  by (simp add: lsqpack_enc_get_stx_tab_id_def stx_val_switch_def bytes_of_def ch_def byte_at_def
        static_table_def Let_def)

lemma find_path_slash:
  "qenc_find_entry H enc risk (bytes_of '':path'') (bytes_of ''/'')
     = \<lparr>esr_found = True, esr_table_type = TT_STATIC, esr_entry_id = 4,
        esr_value_match = True, esr_entry = None\<rparr>"
  by (simp add: qenc_find_entry_def qenc_find_entry_in_either_table_def
        qenc_find_entry_in_static_table_def stx_path_slash)

lemma put_int_indexed_static:
  assumes "hea_buf \<noteq> []"
  shows "put_int LQES_NOBUF_HEAD hea_buf (0x80 OR 0x40) 4 6 = Go (hea_buf[0 := 0xC4], 1)"
  using assms
  by (cases hea_buf) (simp_all add: put_int_def lsqpack_enc_int_def prefix_max_def)

lemma encode_pass_path_slash:
  assumes "hea_buf \<noteq> []"
  shows "encode_pass H mem enc enc_buf hea_buf (bytes_of '':path'') (bytes_of ''/'') no_index index
     = Go (Inl \<lparr>eo_enc_buf = enc_buf, eo_enc_sz = 0, eo_hea_buf = hea_buf[0 := 0xC4], eo_hea_sz = 1,
                eo_enc = enc\<rparr>)"
  using put_int_indexed_static [OF assms]
  by (simp add: encode_pass_def find_path_slash encode_programs_def encode_enc_action_def
        encode_hea_action_def encode_tab_action_def Let_def)




lemma evict_empty: "qpe_all_entries enc = [] \<Longrightarrow> snd (enc_has_or_can_evict_at_least enc s) = enc"
  by (simp add: enc_has_or_can_evict_at_least_def Let_def)

lemma path_slash_header_block:
  assumes "0 \<le> max_dyn" "max_risked_streams \<le> max_risked" "fst mem"
    and "hea_buf \<noteq> []" "2 \<le> length pfx_buf"
  shows "header_block_of (encode_one_header H max_dyn max_risked 0 max_risked_streams mem stream_id seqno
           enc_buf hea_buf pfx_buf (bytes_of '':path'') (bytes_of ''/'') no_index)
         = Some (LQES_OK, [0x00, 0x00, 0xC4])"
proof -
  obtain enc0 where i: "lsqpack_enc_init max_dyn max_risked (fst mem) zero_enc 0 max_risked_streams = (0, None, enc0)"
    and e0: "qpe_all_entries enc0 = []" "\<not> qpe_header_flag enc0"
    using assms(1-3) by (simp add: lsqpack_enc_init_def Let_def zero_enc_def not_less)
  obtain enc1 where s: "lsqpack_enc_start_header (fst (snd mem)) enc0 stream_id seqno = (0, enc1)"
    and e1: "qpe_all_entries enc1 = []" "qpe_header_flag enc1"
      "qhi_max_id (hinfo (qpe_cur_header enc1)) = 0"
    using e0 by (simp add: lsqpack_enc_start_header_def Let_def zero_header_info_def)
  let ?out = "\<lparr>eo_enc_buf = enc_buf, eo_enc_sz = 0, eo_hea_buf = hea_buf[0 := 0xC4], eo_hea_sz = 1,
                eo_enc = enc1\<rparr>"
  have enc: "lsqpack_enc_encode H (snd (snd mem)) enc1 enc_buf hea_buf (bytes_of '':path'') (bytes_of ''/'') no_index
        = Some (LQES_OK, ?out)"
    using assms(4) e1(1)
    by (simp add: lsqpack_enc_encode_def Let_def encode_pass_path_slash evict_empty)
  have pfx: "lsqpack_enc_end_header enc1 pfx_buf
        = Some (2, write_at pfx_buf 0 [0, 0], enc1\<lparr>qpe_header_flag := False\<rparr>)"
    using e1 assms(5) by (simp add: lsqpack_enc_end_header_def Let_def)
  have a: "take 2 (write_at pfx_buf 0 [0, 0]) = [0, 0]"
    by (simp add: write_at_def)
  have b: "take (Suc 0) (hea_buf[0 := 0xC4]) = [0xC4]"
    using assms(4) by (cases hea_buf) simp_all
  show ?thesis
    by (simp add: encode_one_header_def header_block_of_def i s enc pfx header_block_def a b)
qed



text \<open>
  Claim C3, as the code has it.  With the dynamic table disabled (a table size of 0),
  encoding the single header (\<open>:path\<close>, \<open>/\<close>) and ending the header gives the header block
  \<open>00 00 C4\<close>: the two-byte prefix and one indexed-static byte that carries the id 4 in
  its 6-bit prefix.  This holds for any hash function, stream, flag and buffers, as long
  as the initialisation succeeds, the header buffer is not empty and the prefix buffer
  has two bytes.
\<close>

theorem single_static_hit:
  assumes "0 \<le> max_dyn" "max_risked_streams \<le> max_risked" "fst mem"
    and "hea_buf \<noteq> []" "2 \<le> length pfx_buf"
  shows "header_block_of (encode_one_header H max_dyn max_risked 0 max_risked_streams mem stream_id seqno
           enc_buf hea_buf pfx_buf (bytes_of '':path'') (bytes_of ''/'') no_index)
         = Some (LQES_OK, [0x00, 0x00, 0xC4])"
  using assms by (rule path_slash_header_block)

theorem single_static_hit_witness:
  "(0::unsigned) \<le> 4096 \<and> (16::unsigned) \<le> 100 \<and> fst (True, True, True, True, 0)
   \<and> replicate 8 (0::byte) \<noteq> [] \<and> 2 \<le> length (replicate 8 (0::byte))
   \<and> header_block_of (encode_one_header zero_xxh 4096 100 0 16 (True, True, True, True, 0) 0 0
           (replicate 8 0) (replicate 8 0) (replicate 8 0) (bytes_of '':path'') (bytes_of ''/'') False)
         = Some (LQES_OK, [0x00, 0x00, 0xC4])"
proof -
  have h1: "(0::unsigned) \<le> 4096" and h2: "(16::unsigned) \<le> 100" by simp_all
  have h3: "fst (True, True, True, True, 0)" by simp
  have h4: "replicate 8 (0::byte) \<noteq> []" and h5: "2 \<le> length (replicate 8 (0::byte))" by simp_all
  from single_static_hit [OF h1 h2 h3 h4 h5] h1 h2 h3 h4 h5 show ?thesis by (intro conjI)
qed

text \<open>The header block of the scenario is \<open>00 00 C4\<close>, not \<open>00 00 C1\<close>.\<close>

theorem single_static_hit_counterexample:
  "header_block_of (encode_one_header zero_xxh 4096 100 0 16 (True, True, True, True, 0) 0 0
           (replicate 8 0) (replicate 8 0) (replicate 8 0) (bytes_of '':path'') (bytes_of ''/'') False)
     = Some (LQES_OK, [0x00, 0x00, 0xC4])
   \<and> [0x00, 0x00, 0xC4] \<noteq> [0x00, 0x00, 0xC1 :: byte]"
proof -
  have h1: "(0::unsigned) \<le> 4096" and h2: "(16::unsigned) \<le> 100" by simp_all
  have h3: "fst (True, True, True, True, 0)" by simp
  have h4: "replicate 8 (0::byte) \<noteq> []" and h5: "2 \<le> length (replicate 8 (0::byte))" by simp_all
  from path_slash_header_block [OF h1 h2 h3 h4 h5] show ?thesis by simp
qed



text \<open>
  Claim C10, as the code has it.  \<open>lsqpack_enc_init\<close> returns -1 with \<open>errno\<close> set to
  \<open>EINVAL\<close> and the encoder untouched when one of the two arguments exceeds its limit.
  For arguments within the limits it returns 0 with an empty dynamic table of maximal
  capacity \<open>dyn_table_size\<close> and the limit \<open>max_risked_streams\<close> on risked streams when
  the array of buckets can be allocated; when it cannot, the function returns -1, sets
  no \<open>errno\<close> of its own and leaves the encoder untouched.
\<close>

theorem enc_init_validation:
  "(max_dyn < dyn_table_size \<or> max_risked < max_risked_streams \<longrightarrow>
      lsqpack_enc_init max_dyn max_risked malloc_ok enc dyn_table_size max_risked_streams
        = (-1, Some EINVAL, enc))
   \<and> (dyn_table_size \<le> max_dyn \<and> max_risked_streams \<le> max_risked \<and> malloc_ok \<longrightarrow>
      (\<exists>enc'. lsqpack_enc_init max_dyn max_risked malloc_ok enc dyn_table_size max_risked_streams
                 = (0, None, enc')
         \<and> qpe_all_entries enc' = [] \<and> qpe_nelem enc' = 0 \<and> qpe_cur_capacity enc' = 0
         \<and> qpe_ins_count enc' = 0
         \<and> (\<forall>b \<in> set (qpe_buckets enc'). by_name b = [] \<and> by_nameval b = [])
         \<and> qpe_max_capacity enc' = dyn_table_size
         \<and> qpe_max_risked_streams enc' = max_risked_streams))
   \<and> (dyn_table_size \<le> max_dyn \<and> max_risked_streams \<le> max_risked \<and> \<not> malloc_ok \<longrightarrow>
      lsqpack_enc_init max_dyn max_risked malloc_ok enc dyn_table_size max_risked_streams
        = (-1, None, enc))"
  by (auto simp add: lsqpack_enc_init_def Let_def zero_enc_def)

theorem enc_init_validation_witness:
  "lsqpack_enc_init 4096 100 True zero_enc 5000 16 = (-1, Some EINVAL, zero_enc)
   \<and> fst (lsqpack_enc_init 4096 100 True zero_enc 1024 16) = 0
   \<and> qpe_all_entries (snd (snd (lsqpack_enc_init 4096 100 True zero_enc 1024 16))) = []
   \<and> qpe_cur_capacity (snd (snd (lsqpack_enc_init 4096 100 True zero_enc 1024 16))) = 0
   \<and> qpe_max_capacity (snd (snd (lsqpack_enc_init 4096 100 True zero_enc 1024 16))) = 1024
   \<and> qpe_max_risked_streams (snd (snd (lsqpack_enc_init 4096 100 True zero_enc 1024 16))) = 16
   \<and> lsqpack_enc_init 4096 100 False zero_enc 1024 16 = (-1, None, zero_enc)"
proof -
  have a: "(4096::unsigned) < 5000 \<or> (100::unsigned) < 16" by simp
  have b: "(1024::unsigned) \<le> 4096 \<and> (16::unsigned) \<le> 100 \<and> True" by simp
  have c: "(1024::unsigned) \<le> 4096 \<and> (16::unsigned) \<le> 100 \<and> \<not> False" by simp
  from enc_init_validation [of 4096 5000 100 16 True zero_enc] a
  have 1: "lsqpack_enc_init 4096 100 True zero_enc 5000 16 = (-1, Some EINVAL, zero_enc)" by blast
  from enc_init_validation [of 4096 1024 100 16 True zero_enc] b
  obtain enc' where 2: "lsqpack_enc_init 4096 100 True zero_enc 1024 16 = (0, None, enc')"
    "qpe_all_entries enc' = []" "qpe_cur_capacity enc' = 0" "qpe_max_capacity enc' = 1024"
    "qpe_max_risked_streams enc' = 16" by blast
  from enc_init_validation [of 4096 1024 100 16 False zero_enc] c
  have 3: "lsqpack_enc_init 4096 100 False zero_enc 1024 16 = (-1, None, zero_enc)" by blast
  show ?thesis using 1 2 3 by simp
qed

text \<open>Arguments within the limits, and the function returns -1: no memory for the buckets.\<close>

theorem enc_init_validation_counterexample:
  "(1024::unsigned) \<le> 4096 \<and> (16::unsigned) \<le> 100
   \<and> fst (lsqpack_enc_init 4096 100 False zero_enc 1024 16) = -1"
  by (simp add: lsqpack_enc_init_def)



subsection \<open>The decoder stream: a stream cancellation\<close>

lemma cancel_not_ack:
  fixes b :: byte
  assumes "b AND 0xC0 = 0x40"
  shows "b AND 0x80 = 0"
proof -
  have "b AND 0x80 = (b AND 0xC0) AND 0x80" by (simp add: and.assoc)
  then show ?thesis using assms by simp
qed

lemma assert_cancel_never:
  fixes b :: byte
  shows "b AND 0xC \<noteq> 0x40"
proof
  assume a: "b AND 0xC = 0x40"
  have "(b AND 0xC) AND 0x40 = 0" by (simp add: and.assoc)
  then show False using a by simp
qed

lemma cancel_one_byte:
  fixes b :: byte
  assumes "b AND 0x3F \<noteq> 0x3F" "\<not> resume st"
  shows "lsqpack_dec_int [b] 6 st = Some (DEC_INT_OK (ucast (b AND 0x3F)) [])"
proof -
  have pm: "(ucast (prefix_max 6) :: byte) = 0x3F" by (simp add: prefix_max_def)
  have "b AND 0x3F \<le> 0x3F" by (rule word_and_le1)
  then have lt: "b AND 0x3F < 0x3F" using assms(1) by simp
  have "(ucast (b AND 0x3F) :: uint64) < ucast (0x3F :: byte)"
  proof -
    have "unat (b AND 0x3F) < 63" using lt by (simp add: word_less_nat_alt)
    moreover have "take_bit 64 (unat (b AND 0x3F)) = unat (b AND 0x3F)"
      by (rule take_bit_nat_eq_self) (use calculation in simp)
    ultimately show ?thesis by (simp add: word_less_nat_alt unsigned_ucast_eq)
  qed
  then show ?thesis using assms(2) by (simp add: pm Let_def)
qed

text \<open>
  Claim C8, evaluated on the code.  A stream cancellation is the pattern \<open>01\<close> followed by
  the stream id in a 6-bit prefix, so for a stream id below 63 it is the single byte
  \<open>b\<close> with \<open>b AND 0xC0 = 0x40\<close>.  With no instruction in progress the call does not
  succeed, whatever the encoder holds: when the bits 2 and 3 of the byte are clear
  (the test is \<open>(buf[0] & 0xC) == 0\<close>) the byte is taken for a table state
  synchronisation, whose handler returns -1, and the call returns -1; otherwise the
  assertion \<open>(buf[0] & 0xC) == 0x40\<close> fails.  The entries and their reference counts
  are as before.
\<close>

theorem stream_cancel_fails:
  assumes "\<not> resume (dec_int_state (qpe_dec_stream_state enc))"
    and "b AND 0xC0 = 0x40" "b AND 0x3F \<noteq> 0x3F"
  shows "lsqpack_enc_decoder_in enc [b] =
           (if b AND 0xC = 0
            then Some (-1, enc\<lparr>qpe_dec_stream_state :=
                               (qpe_dec_stream_state enc)\<lparr>handler := enc_proc_table_synch_h\<rparr>\<rparr>)
            else None)"
  using assms cancel_not_ack [OF assms(2)] assert_cancel_never [of b]
  by (simp add: lsqpack_enc_decoder_in.simps [of enc "[b]"] cancel_one_byte enc_proc_table_synch_def
        del: lsqpack_dec_int.simps)

theorem stream_cancel_fails_witness:
  "lsqpack_enc_decoder_in zero_enc [0x41] =
     Some (-1, zero_enc\<lparr>qpe_dec_stream_state :=
                          (qpe_dec_stream_state zero_enc)\<lparr>handler := enc_proc_table_synch_h\<rparr>\<rparr>)
   \<and> lsqpack_enc_decoder_in zero_enc [0x44] = None"
proof -
  have r: "\<not> resume (dec_int_state (qpe_dec_stream_state zero_enc))" by (simp add: zero_enc_def)
  have a: "(0x41 :: byte) AND 0xC0 = 0x40" "(0x41 :: byte) AND 0x3F \<noteq> 0x3F" by simp_all
  have b: "(0x44 :: byte) AND 0xC0 = 0x40" "(0x44 :: byte) AND 0x3F \<noteq> 0x3F" by simp_all
  from stream_cancel_fails [OF r a] stream_cancel_fails [OF r b] show ?thesis by simp
qed

section \<open>Encoder: the capacity of the dynamic table\<close>

lemma table_size_simps [simp]:
  "table_size [] = 0"
  "table_size (e # es) = unat (ETE_SIZE e) + table_size es"
  "table_size (es @ fs) = table_size es + table_size fs"
  by (simp_all add: table_size_def)

lemma table_size_update:
  "table_size (map (\<lambda>e. if ete_id e = p then e\<lparr>ete_n_reffd := g e\<rparr> else e) es) = table_size es"
  by (induction es) (simp_all add: ETE_SIZE_def)

lemma drop_oldest_size:
  assumes "unat (qpe_cur_capacity enc) = table_size (qpe_all_entries enc)"
    and "qenc_drop_oldest_entry enc = Some enc'"
  shows "unat (qpe_cur_capacity enc') = table_size (qpe_all_entries enc')
         \<and> qpe_max_capacity enc' = qpe_max_capacity enc"
proof (cases "qpe_all_entries enc")
  case Nil
  then show ?thesis using assms(2) by (simp add: qenc_drop_oldest_entry_def)
next
  case (Cons entry rest)
  from assms(1) Cons have le: "unat (ETE_SIZE entry) \<le> unat (qpe_cur_capacity enc)" by simp
  then have "unat (qpe_cur_capacity enc - ETE_SIZE entry)
               = unat (qpe_cur_capacity enc) - unat (ETE_SIZE entry)"
    by (simp add: unat_sub word_le_nat_alt)
  with assms Cons show ?thesis
    by (auto simp add: qenc_drop_oldest_entry_def Let_def split: if_splits)
qed

lemma remove_overflow_inv:
  assumes "unat (qpe_cur_capacity enc) = table_size (qpe_all_entries enc)"
    and "qenc_remove_overflow_entries enc = Some enc'"
  shows "enc_capacity_inv enc' \<and> qpe_max_capacity enc' = qpe_max_capacity enc"
  using assms
proof (induction enc rule: qenc_remove_overflow_entries.induct)
  case (1 enc)
  show ?case
  proof (cases "qpe_max_capacity enc < qpe_cur_capacity enc")
    case False
    with 1(2,3) show ?thesis
      by (simp add: qenc_remove_overflow_entries.simps [of enc] enc_capacity_inv_def not_less)
  next
    case True
    with 1(3) obtain enc1 where d: "qenc_drop_oldest_entry enc = Some enc1"
      and r: "qenc_remove_overflow_entries enc1 = Some enc'"
      by (simp add: qenc_remove_overflow_entries.simps [of enc] split: option.splits)
    from drop_oldest_size [OF 1(2) d] 1(1) [OF True d _ r] show ?thesis by simp
  qed
qed

lemma remove_overflow_noop:
  "qpe_cur_capacity enc \<le> qpe_max_capacity enc \<Longrightarrow> qenc_remove_overflow_entries enc = Some enc"
  by (simp add: qenc_remove_overflow_entries.simps [of enc] not_less [symmetric])

lemma grow_tables_capacity:
  "qpe_cur_capacity (snd (qenc_grow_tables m enc)) = qpe_cur_capacity enc
   \<and> qpe_max_capacity (snd (qenc_grow_tables m enc)) = qpe_max_capacity enc
   \<and> qpe_all_entries (snd (qenc_grow_tables m enc)) = qpe_all_entries enc"
  by (simp add: qenc_grow_tables_def)

lemma push_entry_inv:
  assumes "enc_capacity_inv enc"
    and "unat (qpe_cur_capacity enc) + unat (ENTRY_COST (of_nat (length name)) (of_nat (length v))) < 2 ^ 32"
    and "lsqpack_enc_push_entry H mem enc name v = Some (r, enc')"
  shows "enc_capacity_inv enc'"
proof -
  let ?grow = "N_BUCKETS (qpe_nbits enc) div 2 \<le> qpe_nelem enc"
  let ?g = "if ?grow then qenc_grow_tables (fst mem) enc else (0, enc)"
  let ?cost = "ENTRY_COST (of_nat (length name)) (of_nat (length v))"
  have g: "qpe_cur_capacity (snd ?g) = qpe_cur_capacity enc"
    "qpe_max_capacity (snd ?g) = qpe_max_capacity enc"
    "qpe_all_entries (snd ?g) = qpe_all_entries enc"
    using grow_tables_capacity [of "fst mem" enc] by simp_all
  have ig: "enc_capacity_inv (snd ?g)" using assms(1) g by (simp add: enc_capacity_inv_def)
  have add: "unat (qpe_cur_capacity enc + ?cost) = unat (qpe_cur_capacity enc) + unat ?cost"
    using assms(2) by (simp add: unat_add_lem [THEN iffD1])
  show ?thesis
  proof (cases "(?grow \<and> fst ?g \<noteq> 0) \<or> \<not> fst (snd mem)")
    case True
    then have "enc' = enc \<or> enc' = snd ?g"
      using assms(3) by (auto simp add: lsqpack_enc_push_entry_def Let_def split: if_splits)
    then show ?thesis using assms(1) ig by auto
  next
    case False
    then obtain enc2 where r: "qenc_remove_overflow_entries enc2 = Some enc'"
      and c: "qpe_cur_capacity enc2 = qpe_cur_capacity enc + ?cost"
      and e: "\<exists>entry. qpe_all_entries enc2 = qpe_all_entries enc @ [entry] \<and> ETE_SIZE entry = ?cost"
      using assms(3) g
      by (auto simp add: lsqpack_enc_push_entry_def Let_def ETE_SIZE_def split: if_splits option.splits)
    have "unat (qpe_cur_capacity enc2) = table_size (qpe_all_entries enc2)"
      using c e add assms(1) by (auto simp add: enc_capacity_inv_def)
    from remove_overflow_inv [OF this r] show ?thesis by simp
  qed
qed

lemma update_entry_inv:
  "enc_capacity_inv (update_entry p (\<lambda>e. e\<lparr>ete_n_reffd := g e\<rparr>) enc) = enc_capacity_inv enc"
  by (simp add: update_entry_def enc_capacity_inv_def table_size_update)

lemma upd_hinfo_inv [simp]: "enc_capacity_inv (upd_hinfo f enc) = enc_capacity_inv enc"
  by (simp add: upd_hinfo_def enc_capacity_inv_def)

lemma add_n_risked_inv [simp]: "enc_capacity_inv (add_n_risked k enc) = enc_capacity_inv enc"
  by (simp add: add_n_risked_def enc_capacity_inv_def)

lemma ref_new_inv:
  "ref_new p enc = Some enc' \<Longrightarrow> enc_capacity_inv enc' = enc_capacity_inv enc"
  by (auto simp add: ref_new_def Let_def update_entry_inv split: if_splits)

lemma ref_found_inv:
  "ref_found esr enc = Some enc' \<Longrightarrow> enc_capacity_inv enc' = enc_capacity_inv enc"
  by (auto simp add: ref_found_def Let_def update_entry_inv split: if_splits option.splits)


lemma tab_new_index:
  "ep_tab_action (encode_programs found tt vm index risk) = ETA_NEW \<Longrightarrow> index"
  by (simp add: encode_programs_def split: if_splits)

lemma encode_tab_action_inv:
  assumes "enc_capacity_inv enc"
    and "ep_tab_action prog = ETA_NEW \<longrightarrow> unat (qpe_cur_capacity enc)
            + unat (ENTRY_COST (of_nat (length name)) (of_nat (length v))) < 2 ^ 32"
    and "encode_tab_action H mem prog enc name v = Some r"
  shows "enc_capacity_inv (case r of Inl e \<Rightarrow> e | Inr e \<Rightarrow> e)"
proof (cases "ep_tab_action prog")
  case ETA_NOOP
  then show ?thesis using assms(1,3) by (auto simp add: encode_tab_action_def)
next
  case ETA_NEW
  then obtain p e where push: "lsqpack_enc_push_entry H mem enc name v = Some (p, e)"
    using assms(3) by (auto simp add: encode_tab_action_def split: option.splits)
  have ie: "enc_capacity_inv e"
    using push_entry_inv [OF assms(1) _ push] assms(2) ETA_NEW by simp
  show ?thesis using assms(3) ETA_NEW push ie
    by (auto simp add: encode_tab_action_def ref_new_inv split: option.splits if_splits)
qed

lemma encode_pass_inv:
  assumes "enc_capacity_inv enc"
    and "index \<longrightarrow> unat (qpe_cur_capacity enc)
            + unat (ENTRY_COST (of_nat (length name)) (of_nat (length v))) < 2 ^ 32"
  shows "encode_pass H mem enc enc_buf hea_buf name v no_index index = Go (Inl out)
           \<Longrightarrow> enc_capacity_inv (eo_enc out)"
    and "encode_pass H mem enc enc_buf hea_buf name v no_index index = Go (Inr (enc1, eb, hb))
           \<Longrightarrow> enc_capacity_inv enc1"
proof -
  let ?risk = "0 < n_risked (qpe_cur_header enc) \<or> others_at_risk (qpe_cur_header enc)
                  \<or> qpe_cur_streams_at_risk enc < qpe_max_risked_streams enc"
  let ?esr = "qenc_find_entry H enc ?risk name v"
  let ?prog = "encode_programs (esr_found ?esr) (esr_table_type ?esr) (esr_value_match ?esr) index ?risk"
  have nw: "ep_tab_action ?prog = ETA_NEW \<longrightarrow> unat (qpe_cur_capacity enc)
            + unat (ENTRY_COST (of_nat (length name)) (of_nat (length v))) < 2 ^ 32"
    using assms(2) tab_new_index by blast
  have tab: "enc_capacity_inv (case r of Inl e \<Rightarrow> e | Inr e \<Rightarrow> e)"
    if "encode_tab_action H mem ?prog enc name v = Some r" for r
    using encode_tab_action_inv [OF assms(1) nw that] .
  {
    assume "encode_pass H mem enc enc_buf hea_buf name v no_index index = Go (Inl out)"
    then show "enc_capacity_inv (eo_enc out)"
      using tab
      by (fastforce simp add: encode_pass_def Let_def ref_found_inv
            split: outcome.splits option.splits if_splits sum.splits prod.splits)
  }
  {
    assume "encode_pass H mem enc enc_buf hea_buf name v no_index index = Go (Inr (enc1, eb, hb))"
    then show "enc_capacity_inv enc1"
      using tab
      by (fastforce simp add: encode_pass_def Let_def ref_found_inv
            split: outcome.splits option.splits if_splits sum.splits prod.splits)
  }
qed

lemma unat_ucast_unsigned: "unat (ucast (x::unsigned) :: uint64) = unat x"
proof -
  have "unat x < 2 ^ 32" using unsigned_less [of x] by simp
  then have "unat x < 2 ^ 64" by simp
  then show ?thesis by (simp add: unsigned_ucast_eq take_bit_nat_eq_self)
qed

lemma admitted_no_wrap:
  fixes cur mx cost :: unsigned
  assumes "cur \<le> mx" "(ucast cost :: uint64) \<le> ucast (mx - cur)"
  shows "unat cur + unat cost < 2 ^ 32"
proof -
  have "unat (ucast cost :: uint64) \<le> unat (ucast (mx - cur) :: uint64)"
    using assms(2) by (simp add: word_le_nat_alt)
  then have "unat cost \<le> unat (mx - cur)" by (simp add: unat_ucast_unsigned)
  also have "unat (mx - cur) = unat mx - unat cur" using assms(1) by (simp add: unat_sub)
  finally have "unat cur + unat cost \<le> unat mx" using assms(1) by (simp add: word_le_nat_alt)
  moreover have "unat mx < 2 ^ 32" using unsigned_less [of mx] by simp
  ultimately show ?thesis by simp
qed

text \<open>\<open>lsqpack_enc_encode\<close> with the test for room written out.\<close>

lemma lsqpack_enc_encode_passes:
  assumes "hea_buf \<noteq> []"
  shows "lsqpack_enc_encode H mem enc enc_buf hea_buf name v no_index =
      (let early = (\<lambda>e bufs. \<lparr>eo_enc_buf = fst bufs, eo_enc_sz = length enc_buf,
                             eo_hea_buf = snd bufs, eo_hea_sz = length hea_buf, eo_enc = e\<rparr>) in
       case encode_pass H mem enc enc_buf hea_buf name v no_index
              (\<not> no_index \<and> use_dynamic_table (qpe_cur_header enc)
               \<and> qpe_ins_count enc < LSQPACK_MAX_ABS_ID
               \<and> (ucast (ENTRY_COST (of_nat (length name)) (of_nat (length v))) :: uint64)
                    \<le> ucast (qpe_max_capacity enc - qpe_cur_capacity enc)) of
              Assert_failed \<Rightarrow> None
            | Early s bufs \<Rightarrow> Some (s, early enc bufs)
            | Go (Inl out) \<Rightarrow> Some (LQES_OK, out)
            | Go (Inr (enc1, enc_buf1, hea_buf1)) \<Rightarrow>
                (case encode_pass H mem enc1 enc_buf1 hea_buf1 name v no_index False of
                   Assert_failed \<Rightarrow> None
                 | Early s bufs \<Rightarrow> Some (s, early enc1 bufs)
                 | Go (Inl out) \<Rightarrow> Some (LQES_OK, out)
                 | Go (Inr r) \<Rightarrow> None))"
  using assms
  by (auto simp add: lsqpack_enc_encode_def Let_def enc_has_or_can_evict_at_least_avail
        cong: outcome.case_cong sum.case_cong)

lemma encode_inv:
  assumes "enc_capacity_inv enc"
    and "lsqpack_enc_encode H mem enc enc_buf hea_buf name v no_index = Some (s, out)"
  shows "enc_capacity_inv (eo_enc out)"
proof (cases "hea_buf = []")
  case True
  then show ?thesis using assms by (auto simp add: lsqpack_enc_encode_def)
next
  case False
  let ?cost = "ENTRY_COST (of_nat (length name)) (of_nat (length v))"
  let ?index = "\<not> no_index \<and> use_dynamic_table (qpe_cur_header enc)
           \<and> qpe_ins_count enc < LSQPACK_MAX_ABS_ID
           \<and> (ucast ?cost :: uint64) \<le> ucast (qpe_max_capacity enc - qpe_cur_capacity enc)"
  let ?p1 = "encode_pass H mem enc enc_buf hea_buf name v no_index ?index"
  have nw: "?index \<longrightarrow> unat (qpe_cur_capacity enc) + unat ?cost < 2 ^ 32"
    using assms(1) admitted_no_wrap [of "qpe_cur_capacity enc" "qpe_max_capacity enc" ?cost]
    by (simp add: enc_capacity_inv_def)
  note p1 = encode_pass_inv [OF assms(1) nw]
  note e = lsqpack_enc_encode_passes [OF False, of H mem enc enc_buf name v no_index]
  show ?thesis
  proof (cases ?p1)
    case Assert_failed
    then show ?thesis using assms(2) e by simp
  next
    case (Early s' bufs)
    then show ?thesis using assms e by (auto simp add: Let_def)
  next
    case (Go r)
    show ?thesis
    proof (cases r)
      case (Inl o1)
      then show ?thesis using Go assms(2) e p1(1) [where out = o1] by (auto simp add: Let_def)
    next
      case (Inr t)
      obtain enc1 eb hb where t: "t = (enc1, eb, hb)" by (cases t) auto
      have i1: "enc_capacity_inv enc1" using Go Inr t p1(2) by simp
      have f: "False \<longrightarrow> unat (qpe_cur_capacity enc1) + unat ?cost < 2 ^ 32" by simp
      note p2 = encode_pass_inv [OF i1 f]
      show ?thesis using Go Inr t assms(2) e i1 p2(1)
        by (auto simp add: Let_def split: outcome.splits sum.splits)
    qed
  qed
qed

lemma set_max_capacity_inv:
  assumes "enc_capacity_inv enc"
    and "lsqpack_enc_set_max_capacity enc c = Some enc'"
  shows "enc_capacity_inv enc' \<and> qpe_max_capacity enc' = c"
proof -
  have "unat (qpe_cur_capacity (enc\<lparr>qpe_max_capacity := c\<rparr>))
          = table_size (qpe_all_entries (enc\<lparr>qpe_max_capacity := c\<rparr>))"
    using assms(1) by (simp add: enc_capacity_inv_def)
  from remove_overflow_inv [OF this] assms(2) show ?thesis
    by (simp add: lsqpack_enc_set_max_capacity_def)
qed

lemma init_capacity_inv:
  "lsqpack_enc_init max_dyn max_risked malloc_ok enc dyn_table_size max_risked_streams = (0, e, enc')
     \<Longrightarrow> enc_capacity_inv enc'"
  by (auto simp add: lsqpack_enc_init_def Let_def zero_enc_def enc_capacity_inv_def split: if_splits)

lemma start_header_capacity_inv:
  "enc_capacity_inv (snd (lsqpack_enc_start_header realloc_ok enc stream_id seqno)) = enc_capacity_inv enc"
  by (simp add: lsqpack_enc_start_header_def Let_def enc_capacity_inv_def)

lemma end_header_capacity_inv:
  "lsqpack_enc_end_header enc buf = Some (r, buf', enc') \<Longrightarrow> enc_capacity_inv enc' = enc_capacity_inv enc"
  by (auto simp add: lsqpack_enc_end_header_def Let_def enc_capacity_inv_def
        split: if_splits option.splits)

text \<open>
  Claim C5.  The invariant: the current capacity is the sum of the sizes of the stored
  entries (a sum of natural numbers: nothing wraps) and is at most the maximal
  capacity.  It holds after \<open>lsqpack_enc_init\<close>; \<open>lsqpack_enc_encode\<close> keeps it, whatever
  status it returns, and so does \<open>lsqpack_enc_set_max_capacity\<close>, which also stores the new
  maximum.  (The result \<open>None\<close> of the two functions is a failed assertion.)
\<close>

theorem enc_capacity_invariant:
  "(lsqpack_enc_init max_dyn max_risked malloc_ok enc0 dyn_table_size max_risked_streams = (0, e, enc)
      \<longrightarrow> enc_capacity_inv enc)
   \<and> (enc_capacity_inv enc \<longrightarrow>
        (lsqpack_enc_encode H mem enc enc_buf hea_buf name v no_index = Some (s, out)
           \<longrightarrow> enc_capacity_inv (eo_enc out))
      \<and> (lsqpack_enc_set_max_capacity enc c = Some enc'
           \<longrightarrow> enc_capacity_inv enc' \<and> qpe_max_capacity enc' = c))"
proof (intro conjI impI)
  assume "lsqpack_enc_init max_dyn max_risked malloc_ok enc0 dyn_table_size max_risked_streams = (0, e, enc)"
  then show "enc_capacity_inv enc" by (rule init_capacity_inv)
next
  assume "enc_capacity_inv enc"
    and "lsqpack_enc_encode H mem enc enc_buf hea_buf name v no_index = Some (s, out)"
  then show "enc_capacity_inv (eo_enc out)" by (rule encode_inv)
next
  assume a: "enc_capacity_inv enc" "lsqpack_enc_set_max_capacity enc c = Some enc'"
  from set_max_capacity_inv [OF a] show "enc_capacity_inv enc'" "qpe_max_capacity enc' = c"
    by simp_all
qed


theorem enc_capacity_invariant_witness:
  "enc_capacity_inv enc_started
   \<and> (case lsqpack_enc_encode zero_xxh (True, True, 0) enc_started (replicate 64 0) (replicate 64 0)
              (bytes_of ''abc'') (bytes_of ''xyz'') False of
        None \<Rightarrow> False
      | Some (s, out) \<Rightarrow>
          s = LQES_OK \<and> map ETE_SIZE (qpe_all_entries (eo_enc out)) = [38]
          \<and> enc_capacity_inv (eo_enc out)
          \<and> (case lsqpack_enc_set_max_capacity (eo_enc out) 30 of
                None \<Rightarrow> False
              | Some enc' \<Rightarrow> qpe_all_entries enc' = [] \<and> enc_capacity_inv enc' \<and> qpe_max_capacity enc' = 30))"
proof -
  let ?enc0 = "snd (snd (lsqpack_enc_init 4096 100 True zero_enc 4096 100))"
  have "lsqpack_enc_init 4096 100 True zero_enc 4096 100 = (0, None, ?enc0)"
    by (simp add: lsqpack_enc_init_def)
  with enc_capacity_invariant [of 4096 100 True zero_enc 4096 100 None ?enc0]
  have "enc_capacity_inv ?enc0" by blast
  then have i: "enc_capacity_inv enc_started"
    by (simp add: enc_started_def start_header_capacity_inv)
  have ev: "(case lsqpack_enc_encode zero_xxh (True, True, 0) enc_started (replicate 64 0) (replicate 64 0)
              (bytes_of ''abc'') (bytes_of ''xyz'') False of
        None \<Rightarrow> False
      | Some (s, out) \<Rightarrow>
          s = LQES_OK \<and> map ETE_SIZE (qpe_all_entries (eo_enc out)) = [38]
          \<and> (case lsqpack_enc_set_max_capacity (eo_enc out) 30 of
                None \<Rightarrow> False
              | Some enc' \<Rightarrow> qpe_all_entries enc' = []))"
    by code_simp
  then obtain s out where e: "lsqpack_enc_encode zero_xxh (True, True, 0) enc_started (replicate 64 0)
       (replicate 64 0) (bytes_of ''abc'') (bytes_of ''xyz'') False = Some (s, out)"
    by (auto split: option.splits)
  from ev e obtain enc' where m: "lsqpack_enc_set_max_capacity (eo_enc out) 30 = Some enc'"
    by (auto split: option.splits)
  from enc_capacity_invariant [where enc = enc_started and out = out and s = s] i e
  have io: "enc_capacity_inv (eo_enc out)" by blast
  from enc_capacity_invariant [where enc = "eo_enc out" and enc' = enc' and c = 30] io m
  have "enc_capacity_inv enc' \<and> qpe_max_capacity enc' = 30" by blast
  with ev e m i io show ?thesis by simp
qed



section \<open>Encoder: admission of a new entry\<close>

lemma put_int_early: "put_int nobuf buf first ident p = Early s b \<Longrightarrow> s = nobuf"
  by (auto simp add: put_int_def split: option.splits if_splits)

lemma put_str_early: "put_str nobuf p buf dst str = Early s b \<Longrightarrow> s = nobuf"
  by (auto simp add: put_str_def split: option.splits if_splits)

lemma put_int_str_early: "put_int_str nobuf buf first ident p str = Early s b \<Longrightarrow> s = nobuf"
  by (auto simp add: put_int_str_def split: outcome.splits dest: put_int_early put_str_early)

lemma encode_hea_action_early:
  "encode_hea_action prog esr enc hea_buf name v no_index = Early s b \<Longrightarrow> s = LQES_NOBUF_HEAD"
  by (auto simp add: encode_hea_action_def post_base_idx_def post_base_name_ref_def
        split: hea_action.splits if_splits outcome.splits
        dest: put_int_early put_str_early put_int_str_early)

text \<open>With enough room in the header buffer no representation runs out of room: an integer
  takes at most 11 bytes, a string at most 11 bytes more than its length.\<close>

lemma lsqpack_val2len_le: "lsqpack_val2len x p \<le> 11"
  by (simp add: lsqpack_val2len_def Let_def)

lemma length_write_at_ge: "length buf \<le> length (write_at buf pos bs)"
  by (auto simp add: write_at_def min_def)

lemma length_enc_int_nocheck_ge: "length buf \<le> length (lsqpack_enc_int_nocheck buf dst x p)"
proof -
  have "length (buf[dst := y]) \<le> length (write_at (buf[dst := y]) pos bs)" for y pos bs
    by (rule length_write_at_ge)
  then show ?thesis by (simp add: lsqpack_enc_int_nocheck_def)
qed

lemma enc_str_room:
  assumes "11 + length str \<le> dst_len"
    and "lsqpack_enc_enc_str p buf dst dst_len str = Some (buf1, r)"
  shows "0 \<le> r \<and> nat r \<le> 11 + length str \<and> length buf \<le> length buf1"
proof -
  define bits where "bits = nat (sum_list (map (\<lambda>c. ee_bits (encode_table ! unat c)) str))"
  define bytes where "bytes = bits div 8 + (if bits mod 8 \<noteq> 0 then 1 else 0)"
  have w: "length buf \<le> length (write_at (lsqpack_enc_int_nocheck (buf[dst := y]) dst x p) pos bs)"
    for y x pos bs
    using length_enc_int_nocheck_ge [of "buf[dst := y]" dst x p]
      length_write_at_ge [of "lsqpack_enc_int_nocheck (buf[dst := y]) dst x p" pos bs]
    by simp
  have e: "lsqpack_enc_enc_str p buf dst dst_len str =
      (if bytes < length str then
           (let len_size = lsqpack_val2len (of_nat bytes) p in
            if len_size + bytes \<le> dst_len then
              (let buf1 = buf[dst := (buf ! dst AND NOT (push_bit (p + 1) 1 - 1)) OR push_bit p 1];
                   buf2 = lsqpack_enc_int_nocheck buf1 dst (of_nat bytes) p
               in case qenc_huffman_enc str of
                    None \<Rightarrow> None
                  | Some hs \<Rightarrow>
                      if length hs \<noteq> bytes then None
                      else Some (write_at buf2 (dst + len_size) hs, int (len_size + bytes)))
            else Some (buf, -1))
         else
           (let len_size = lsqpack_val2len (of_nat (length str)) p in
            if len_size + length str \<le> dst_len then
              (let buf1 = buf[dst := buf ! dst AND NOT (push_bit (p + 1) 1 - 1)];
                   buf2 = lsqpack_enc_int_nocheck buf1 dst (of_nat (length str)) p
               in Some (write_at buf2 (dst + len_size) str, int (len_size + length str)))
            else Some (buf, -1)))"
    unfolding lsqpack_enc_enc_str_def bytes_def bits_def Let_def by (rule refl)
  show ?thesis
  proof (cases "bytes < length str")
    case True
    have l: "lsqpack_val2len (of_nat bytes) p + bytes \<le> dst_len"
      using lsqpack_val2len_le [of "of_nat bytes" p] True assms(1) by simp
    from assms(2) obtain hs where "buf1 = write_at (lsqpack_enc_int_nocheck
          (buf[dst := (buf ! dst AND NOT (push_bit (p + 1) 1 - 1)) OR push_bit p 1]) dst (of_nat bytes) p)
          (dst + lsqpack_val2len (of_nat bytes) p) hs"
      and "r = int (lsqpack_val2len (of_nat bytes) p + bytes)"
      unfolding e using True l by (auto simp add: Let_def split: option.splits if_splits)
    then show ?thesis
      using w lsqpack_val2len_le [of "of_nat bytes" p] True by simp
  next
    case False
    have l: "lsqpack_val2len (of_nat (length str)) p + length str \<le> dst_len"
      using lsqpack_val2len_le [of "of_nat (length str)" p] assms(1) by simp
    from assms(2) have "buf1 = write_at (lsqpack_enc_int_nocheck
          (buf[dst := buf ! dst AND NOT (push_bit (p + 1) 1 - 1)]) dst (of_nat (length str)) p)
          (dst + lsqpack_val2len (of_nat (length str)) p) str"
      and "r = int (lsqpack_val2len (of_nat (length str)) p + length str)"
      unfolding e using False l by (auto simp add: Let_def)
    then show ?thesis
      using w lsqpack_val2len_le [of "of_nat (length str)" p] by simp
  qed
qed

lemma put_str_room:
  assumes "dst + 11 + length str \<le> length buf"
  shows "case put_str nobuf p buf dst str of
           Assert_failed \<Rightarrow> True
         | Early s b \<Rightarrow> False
         | Go (buf1, dst1) \<Rightarrow> dst1 \<le> dst + 11 + length str \<and> length buf \<le> length buf1"
proof (cases "lsqpack_enc_enc_str p buf dst (length buf - dst) str")
  case None
  then show ?thesis by (simp add: put_str_def)
next
  case (Some a)
  obtain buf1 r where a: "a = (buf1, r)" by (cases a) auto
  have "11 + length str \<le> length buf - dst" using assms by simp
  from enc_str_room [OF this Some [unfolded a]] show ?thesis
    using Some a by (simp add: put_str_def)
qed

lemma put_int_room:
  assumes "11 \<le> length buf"
  shows "case put_int nobuf buf first ident p of
           Assert_failed \<Rightarrow> True
         | Early s b \<Rightarrow> False
         | Go (buf1, dst1) \<Rightarrow> dst1 \<le> 11 \<and> length buf1 = length buf"
proof -
  let ?b = "buf[0 := first]"
  let ?bs = "if ident < ucast (prefix_max p) then [?b ! 0 OR ucast ident]
         else (?b ! 0 OR ucast (prefix_max p)) # cont_bytes (ident - ucast (prefix_max p))"
  have "unat (ident - ucast (prefix_max p)) < 2 ^ 64"
    using unsigned_less [of "ident - ucast (prefix_max p)"] by simp
  then have "unat (ident - ucast (prefix_max p)) < 2 ^ (7 * 10)" by simp
  then have "length (cont_bytes (ident - ucast (prefix_max p))) \<le> 10"
    by (rule length_cont_bytes) simp
  then have l: "length ?bs \<le> 11" "1 \<le> length ?bs" by simp_all
  have room: "0 + length ?bs \<le> length buf" using l assms by simp
  have "lsqpack_enc_int ?b 0 (length buf) ident p
         = Some (take 0 ?b @ ?bs @ drop (0 + length ?bs) ?b, 0 + length ?bs)"
    using lsqpack_enc_int_bytes [where buf = ?b and dst = 0 and v = ident and p = p
        and dend = "length buf"] room by simp
  then show ?thesis using l room by (simp add: put_int_def)
qed

lemma put_int_str_room:
  assumes "22 + length str \<le> length buf"
  shows "case put_int_str nobuf buf first ident p str of
           Assert_failed \<Rightarrow> True
         | Early s b \<Rightarrow> False
         | Go r \<Rightarrow> True"
proof -
  have b: "11 \<le> length buf" using assms by simp
  note i = put_int_room [OF b, of nobuf first ident p]
  show ?thesis
  proof (cases "put_int nobuf buf first ident p")
    case Assert_failed
    then show ?thesis by (simp add: put_int_str_def)
  next
    case (Early s b)
    then show ?thesis using i by simp
  next
    case (Go r)
    obtain buf1 dst1 where r: "r = (buf1, dst1)" by (cases r) auto
    have "dst1 + 11 + length str \<le> length buf1" using i Go r assms by simp
    from put_str_room [OF this, of nobuf 7] show ?thesis
      using Go r by (auto simp add: put_int_str_def split: outcome.splits)
  qed
qed

lemma put_str_str_room:
  assumes "22 + length name + length v \<le> length buf"
  shows "case (case put_str nobuf p buf 0 name of
                 Go (buf1, dst) \<Rightarrow> put_str nobuf 7 buf1 dst v
               | r \<Rightarrow> r) of
           Assert_failed \<Rightarrow> True
         | Early s b \<Rightarrow> False
         | Go r \<Rightarrow> True"
proof -
  have b: "0 + 11 + length name \<le> length buf" using assms by simp
  note i = put_str_room [OF b, of nobuf p]
  show ?thesis
  proof (cases "put_str nobuf p buf 0 name")
    case Assert_failed
    then show ?thesis by simp
  next
    case (Early s b)
    then show ?thesis using i by simp
  next
    case (Go r)
    obtain buf1 dst1 where r: "r = (buf1, dst1)" by (cases r) auto
    have "dst1 + 11 + length v \<le> length buf1" using i Go r assms by simp
    from put_str_room [OF this, of nobuf 7] show ?thesis
      using Go r by (auto split: outcome.splits)
  qed
qed

lemma encode_hea_action_room:
  assumes "22 + length name + length v \<le> length hea_buf"
  shows "encode_hea_action prog esr enc hea_buf name v no_index \<noteq> Early s b"
proof -
  have b11: "11 \<le> length hea_buf" and b22: "22 + length v \<le> length hea_buf" using assms by simp_all
  have pi: "put_int nobuf hea_buf first ident p \<noteq> Early s b" for nobuf first ident p
    using put_int_room [OF b11, of nobuf first ident p] by (auto split: outcome.splits)
  have pis: "put_int_str nobuf hea_buf first ident p v \<noteq> Early s b" for nobuf first ident p
    using put_int_str_room [OF b22, of nobuf first ident p] by (auto split: outcome.splits)
  have l: "22 + length name + length v \<le> length (hea_buf[0 := x])" for x using assms by simp
  have pss: "(case put_str nobuf p (hea_buf[0 := x]) 0 name of
                 Go (buf1, dst) \<Rightarrow> put_str nobuf 7 buf1 dst v
               | r \<Rightarrow> r) \<noteq> Early s b" for nobuf p x
    using put_str_str_room [OF l, of nobuf p x] by (auto split: outcome.splits)
  show ?thesis
    using pi pis pss
    by (simp add: encode_hea_action_def post_base_idx_def post_base_name_ref_def
          split: hea_action.splits)
qed


lemma no_index_program:
  "ep_enc_action (encode_programs found tt vm False risk) = EEA_NONE"
  "ep_tab_action (encode_programs found tt vm False risk) = ETA_NOOP"
  by (simp_all add: encode_programs_def)

lemma table_entries_update_entry [simp]:
  "table_entries (update_entry p (\<lambda>e. e\<lparr>ete_n_reffd := g e\<rparr>) enc) = table_entries enc"
  by (simp add: table_entries_def update_entry_def)

lemma table_entries_upd_hinfo [simp]: "table_entries (upd_hinfo f enc) = table_entries enc"
  by (simp add: table_entries_def upd_hinfo_def)

lemma table_entries_add_n_risked [simp]: "table_entries (add_n_risked k enc) = table_entries enc"
  by (simp add: table_entries_def add_n_risked_def)

lemma counters_update_entry [simp]:
  "qpe_ins_count (update_entry p f enc) = qpe_ins_count enc"
  "qpe_cur_capacity (update_entry p f enc) = qpe_cur_capacity enc"
  "qpe_max_capacity (update_entry p f enc) = qpe_max_capacity enc"
  by (simp_all add: update_entry_def)

lemma counters_upd_hinfo [simp]:
  "qpe_ins_count (upd_hinfo f enc) = qpe_ins_count enc"
  "qpe_cur_capacity (upd_hinfo f enc) = qpe_cur_capacity enc"
  "qpe_max_capacity (upd_hinfo f enc) = qpe_max_capacity enc"
  by (simp_all add: upd_hinfo_def)

lemma counters_add_n_risked [simp]:
  "qpe_ins_count (add_n_risked k enc) = qpe_ins_count enc"
  "qpe_cur_capacity (add_n_risked k enc) = qpe_cur_capacity enc"
  "qpe_max_capacity (add_n_risked k enc) = qpe_max_capacity enc"
  by (simp_all add: add_n_risked_def)

lemma ref_found_same_table: "ref_found esr enc = Some enc' \<Longrightarrow> same_table enc enc'"
  by (auto simp add: ref_found_def Let_def same_table_def split: if_splits option.splits)

lemma encode_pass_no_index:
  "case encode_pass H mem enc enc_buf hea_buf name v no_index False of
     Assert_failed \<Rightarrow> True
   | Early s bufs \<Rightarrow> s = LQES_NOBUF_HEAD
   | Go (Inl out) \<Rightarrow> eo_enc_sz out = 0 \<and> same_table enc (eo_enc out)
   | Go (Inr r) \<Rightarrow> False"
  by (auto simp add: encode_pass_def Let_def no_index_program encode_enc_action_def
        encode_tab_action_def same_table_def
        split: outcome.splits option.splits sum.splits
        dest: encode_hea_action_early ref_found_same_table [unfolded same_table_def])

lemma encode_pass_no_index_room:
  assumes "22 + length name + length v \<le> length hea_buf"
  shows "encode_pass H mem enc enc_buf hea_buf name v no_index False \<noteq> Early s b"
  using encode_hea_action_room [OF assms]
  by (auto simp add: encode_pass_def Let_def no_index_program encode_enc_action_def
        split: outcome.splits option.splits sum.splits)

lemma entry_cost_unat:
  assumes "length name + length v + 32 < 2 ^ 32"
  shows "unat (ENTRY_COST (of_nat (length name)) (of_nat (length v)) :: unsigned)
           = length name + length v + 32"
proof -
  have "ENTRY_COST (of_nat (length name)) (of_nat (length v))
          = (of_nat (length name + length v + 32) :: unsigned)"
    by (simp add: ENTRY_COST_def DYNAMIC_ENTRY_OVERHEAD_def)
  then show ?thesis using assms by (simp add: unsigned_of_nat take_bit_nat_eq_self del: of_nat_add)
qed

lemma room_admission:
  fixes cost :: unsigned
  assumes "enc_capacity_inv enc"
    and "(ucast cost :: uint64) \<le> ucast (qpe_max_capacity enc - qpe_cur_capacity enc)"
  shows "admission_check enc (unat cost)"
proof -
  have le: "qpe_cur_capacity enc \<le> qpe_max_capacity enc"
    using assms(1) by (simp add: enc_capacity_inv_def)
  have "unat (ucast cost :: uint64) \<le> unat (ucast (qpe_max_capacity enc - qpe_cur_capacity enc) :: uint64)"
    using assms(2) by (simp add: word_le_nat_alt)
  then have "unat cost \<le> unat (qpe_max_capacity enc - qpe_cur_capacity enc)"
    by (simp add: unat_ucast_unsigned)
  also have "\<dots> = unat (qpe_max_capacity enc) - unat (qpe_cur_capacity enc)"
    using le by (simp add: unat_sub)
  finally show ?thesis by (simp add: admission_check_def)
qed

lemma encode_not_admitted:
  assumes "\<not> (\<not> no_index \<and> use_dynamic_table (qpe_cur_header enc)
               \<and> qpe_ins_count enc < LSQPACK_MAX_ABS_ID
               \<and> (ucast (ENTRY_COST (of_nat (length name)) (of_nat (length v))) :: uint64)
                    \<le> ucast (qpe_max_capacity enc - qpe_cur_capacity enc))"
    and "lsqpack_enc_encode H mem enc enc_buf hea_buf name v no_index = Some (st, out)"
  shows "same_table enc (eo_enc out) \<and> (st = LQES_OK \<or> st = LQES_NOBUF_HEAD)
           \<and> (st = LQES_OK \<longrightarrow> eo_enc_sz out = 0)
           \<and> (22 + length name + length v \<le> length hea_buf \<longrightarrow> st = LQES_OK)"
proof (cases "hea_buf = []")
  case True
  then show ?thesis using assms(2) by (auto simp add: lsqpack_enc_encode_def same_table_def)
next
  case False
  note e = lsqpack_enc_encode_passes [OF False, of H mem enc enc_buf name v no_index]
  note p = encode_pass_no_index [where H = H and mem = mem and enc = enc and enc_buf = enc_buf
      and hea_buf = hea_buf and name = name and v = v and no_index = no_index]
  have q: "22 + length name + length v \<le> length hea_buf
      \<Longrightarrow> encode_pass H mem enc enc_buf hea_buf name v no_index False \<noteq> Early s b" for s b
    by (rule encode_pass_no_index_room)
  show ?thesis
    using assms(2) p q unfolding e using assms(1)
    by (auto simp add: Let_def same_table_def split: outcome.splits sum.splits)
qed

text \<open>
  Claim C4.  \<open>enc\<close> is an encoder whose capacity is the sum of the sizes of its entries,
  and the size \<open>name_len + value_len + 32\<close> of the new entry fits the 32 bits in which
  the code computes it.  If a call of \<open>lsqpack_enc_encode\<close> changes the table (its
  entries or its insertion count), the test for room of the spec holds.  If that test
  fails, the call leaves the table as it is (the same entries, none evicted, the same
  insertion count and capacities), never reports a shortage of room on the encoder
  stream, and with \<open>LQES_OK\<close> has written nothing to the encoder stream: the header is
  represented without indexing.  The call returns \<open>LQES_OK\<close> when the header buffer has
  room for the name, the value and 22 bytes more.
\<close>

theorem eviction_admission:
  assumes "enc_capacity_inv enc"
    and "length name + length v + 32 < 2 ^ 32"
    and "lsqpack_enc_encode H mem enc enc_buf hea_buf name v no_index = Some (st, out)"
  shows "(table_entries (eo_enc out) \<noteq> table_entries enc \<or> qpe_ins_count (eo_enc out) \<noteq> qpe_ins_count enc
            \<longrightarrow> admission_check enc (length name + length v + 32))
       \<and> (\<not> admission_check enc (length name + length v + 32)
            \<longrightarrow> same_table enc (eo_enc out) \<and> (st = LQES_OK \<or> st = LQES_NOBUF_HEAD)
                \<and> (st = LQES_OK \<longrightarrow> eo_enc_sz out = 0)
                \<and> (22 + length name + length v \<le> length hea_buf \<longrightarrow> st = LQES_OK))"
proof -
  let ?cost = "ENTRY_COST (of_nat (length name)) (of_nat (length v))"
  let ?index = "\<not> no_index \<and> use_dynamic_table (qpe_cur_header enc)
               \<and> qpe_ins_count enc < LSQPACK_MAX_ABS_ID
               \<and> (ucast ?cost :: uint64) \<le> ucast (qpe_max_capacity enc - qpe_cur_capacity enc)"
  have adm: "admission_check enc (length name + length v + 32)" if ?index
    using room_admission [OF assms(1), of ?cost] that entry_cost_unat [OF assms(2)] by simp
  have keep: "same_table enc (eo_enc out) \<and> (st = LQES_OK \<or> st = LQES_NOBUF_HEAD)
           \<and> (st = LQES_OK \<longrightarrow> eo_enc_sz out = 0)
           \<and> (22 + length name + length v \<le> length hea_buf \<longrightarrow> st = LQES_OK)" if "\<not> ?index"
    using encode_not_admitted [OF that assms(3)] .
  show ?thesis
  proof (intro conjI impI)
    assume ch: "table_entries (eo_enc out) \<noteq> table_entries enc
                  \<or> qpe_ins_count (eo_enc out) \<noteq> qpe_ins_count enc"
    have ?index
    proof (rule ccontr)
      assume "\<not> ?index"
      from keep [OF this] ch show False by (simp add: same_table_def)
    qed
    then show "admission_check enc (length name + length v + 32)" by (rule adm)
  next
    assume n: "\<not> admission_check enc (length name + length v + 32)"
    then have ni: "\<not> ?index" using adm by blast
    from keep [OF ni] show "same_table enc (eo_enc out)" "st = LQES_OK \<or> st = LQES_NOBUF_HEAD"
      "st = LQES_OK \<Longrightarrow> eo_enc_sz out = 0"
      "22 + length name + length v \<le> length hea_buf \<Longrightarrow> st = LQES_OK"
      by simp_all
  qed
qed

theorem eviction_admission_witness:
  "(case encode_two_headers zero_xxh 40 1 (bytes_of ''abc'', bytes_of ''xyz'')
           (bytes_of ''abd'', bytes_of ''xyz'') of
      Some (enc, Some (s, out)) \<Rightarrow>
        map (\<lambda>e. (ete_id e, ete_n_reffd e, ETE_SIZE e)) (qpe_all_entries enc) = [(1, 1, 38)]
        \<and> qpe_max_capacity enc = 40 \<and> qpe_cur_capacity enc = 38
        \<and> enc_capacity_inv enc
        \<and> \<not> admission_check enc (length (bytes_of ''abd'') + length (bytes_of ''xyz'') + 32)
        \<and> s = LQES_OK
        \<and> take (eo_hea_sz out) (eo_hea_buf out) = [0x23, 0x61, 0x62, 0x64, 0x03, 0x78, 0x79, 0x7A]
        \<and> same_table enc (eo_enc out) \<and> eo_enc_sz out = 0
    | _ \<Rightarrow> False)"
proof -
  let ?r = "encode_two_headers zero_xxh 40 1 (bytes_of ''abc'', bytes_of ''xyz'')
              (bytes_of ''abd'', bytes_of ''xyz'')"
  have ev: "(case ?r of
      Some (enc, Some (s, out)) \<Rightarrow>
        map (\<lambda>e. (ete_id e, ete_n_reffd e, ETE_SIZE e)) (qpe_all_entries enc) = [(1, 1, 38)]
        \<and> qpe_max_capacity enc = 40 \<and> qpe_cur_capacity enc = 38
        \<and> enc_capacity_inv enc
        \<and> \<not> admission_check enc (length (bytes_of ''abd'') + length (bytes_of ''xyz'') + 32)
        \<and> s = LQES_OK
        \<and> take (eo_hea_sz out) (eo_hea_buf out) = [0x23, 0x61, 0x62, 0x64, 0x03, 0x78, 0x79, 0x7A]
    | _ \<Rightarrow> False)"
    by code_simp
  then obtain enc s out where r: "?r = Some (enc, Some (s, out))"
    by (auto split: option.splits prod.splits)
  from r have e: "lsqpack_enc_encode zero_xxh (True, True, 0) enc (replicate 64 0) (replicate 64 0)
       (bytes_of ''abd'') (bytes_of ''xyz'') False = Some (s, out)"
    by (auto simp add: encode_two_headers_def split: option.splits prod.splits if_splits)
  from ev r have i: "enc_capacity_inv enc"
    and n: "\<not> admission_check enc (length (bytes_of ''abd'') + length (bytes_of ''xyz'') + 32)"
    by simp_all
  have sz: "length (bytes_of ''abd'') + length (bytes_of ''xyz'') + 32 < 2 ^ 32"
    by (simp add: bytes_of_def)
  have room: "22 + length (bytes_of ''abd'') + length (bytes_of ''xyz'') \<le> length (replicate 64 (0::byte))"
    by (simp add: bytes_of_def)
  from eviction_admission [OF i sz e] n room
  have "same_table enc (eo_enc out) \<and> s = LQES_OK \<and> eo_enc_sz out = 0" by blast
  with ev r show ?thesis by simp
qed

section \<open>Decoder: what the encoder stream can change\<close>

lemma step_inv_simps [simp]:
  "step_inv P DEC_UNDEF"
  "step_inv P (DEC_RETURN r dec) = P dec"
  "step_inv P (DEC_CONT dec buf) = P dec"
  by (simp_all add: step_inv_def)

lemma dec_stable_es: "dec_stable P \<Longrightarrow> P (d\<lparr>qpd_enc_state := s\<rparr>) = P d"
  unfolding dec_stable_def by (elim conjE) (erule allE [of _ s], erule allE [of _ d], assumption)

lemma dec_stable_mem: "dec_stable P \<Longrightarrow> P (d\<lparr>qpd_mem := m\<rparr>) = P d"
  unfolding dec_stable_def by (elim conjE) (erule allE [of _ m], erule allE [of _ d], assumption)

lemma dec_stable_push:
  "dec_stable P \<Longrightarrow> P d \<Longrightarrow> lsqpack_dec_push_entry d e = Some (r, d') \<Longrightarrow> P d'"
  unfolding dec_stable_def by blast

lemma dec_stable_update:
  "dec_stable P \<Longrightarrow> P d \<Longrightarrow> qdec_update_max_capacity d c = Some d' \<Longrightarrow> P d'"
  unfolding dec_stable_def by blast

lemma dec_stable_upd_es: "dec_stable P \<Longrightarrow> P (upd_es f d) = P d"
  unfolding upd_es_def by (rule dec_stable_es)

lemma dec_stable_alloc:
  assumes "dec_stable P" "alloc d = (b, d')"
  shows "P d' = P d"
proof (cases "qpd_mem d")
  case Nil
  then show ?thesis using assms(2) by (simp add: alloc_def)
next
  case (Cons x xs)
  then have "d' = d\<lparr>qpd_mem := xs\<rparr>" using assms(2) by (simp add: alloc_def)
  then show ?thesis by (simp add: dec_stable_mem [OF assms(1)])
qed

lemma alloc_enc_state:
  "alloc d = (b, d') \<Longrightarrow> qpd_enc_state d' = qpd_enc_state d"
  by (cases "qpd_mem d") (auto simp add: alloc_def)

lemma dei_read_int_inv:
  assumes "dec_stable P" "P dec" "\<And>v rest. step_inv P (k v rest)"
  shows "step_inv P (dei_read_int prefix_bits dec buf k)"
  using assms
  by (auto simp add: dei_read_int_def dec_stable_upd_es [OF assms(1)] split: option.splits dec_int_result.splits)

lemma dei_push_inv:
  assumes "dec_stable P" "P dec"
  shows "step_inv P (dei_push dec entry rest clear)"
proof (cases "lsqpack_dec_push_entry dec entry")
  case None
  then show ?thesis by (simp add: dei_push_def)
next
  case (Some x)
  obtain r d' where x: "x = (r, d')" by (cases x)
  from assms Some x have "P d'" by (auto intro: dec_stable_push)
  then show ?thesis using Some x by (simp add: dei_push_def dec_stable_upd_es [OF assms(1)])
qed

lemma dei_winr_read_name_idx_inv:
  assumes "dec_stable P" "P dec"
  shows "step_inv P (dei_winr_read_name_idx prefix_bits dec buf)"
  unfolding dei_winr_read_name_idx_def
  by (rule dei_read_int_inv [OF assms]) (use assms in \<open>simp add: Let_def dec_stable_upd_es [OF assms(1)] split: option.splits\<close>)

lemma dei_winr_read_val_len_inv:
  assumes "dec_stable P" "P dec"
  shows "step_inv P (dei_winr_read_val_len prefix_bits dec buf)"
  unfolding dei_winr_read_val_len_def
  by (rule dei_read_int_inv [OF assms])
     (use assms in \<open>auto simp add: Let_def dec_stable_es [OF assms(1)] dec_stable_upd_es [OF assms(1)] dec_stable_mem [OF assms(1)] dec_stable_alloc [OF assms(1)] split: option.splits prod.splits\<close>)

lemma dei_winr_finish_inv:
  assumes "dec_stable P" "P dec"
  shows "step_inv P (dei_winr_finish dec entry rest)"
  using assms by (simp add: dei_winr_finish_def dei_push_inv dec_stable_upd_es [OF assms(1)] split: option.splits)

lemma dei_winr_read_value_huffman_inv:
  assumes "dec_stable P" "P dec"
  shows "step_inv P (dei_winr_read_value_huffman dec buf)"
  using assms
  by (auto simp add: dei_winr_read_value_huffman_def Let_def dei_winr_finish_inv dec_stable_es [OF assms(1)] dec_stable_upd_es [OF assms(1)] dec_stable_mem [OF assms(1)] dec_stable_alloc [OF assms(1)]
        split: option.splits prod.splits huff_dec_status.splits)

lemma dei_winr_read_value_plain_inv:
  assumes "dec_stable P" "P dec"
  shows "step_inv P (dei_winr_read_value_plain dec buf)"
  using assms
  by (auto simp add: dei_winr_read_value_plain_def Let_def dei_winr_finish_inv dec_stable_es [OF assms(1)] dec_stable_upd_es [OF assms(1)] dec_stable_mem [OF assms(1)] dec_stable_alloc [OF assms(1)]
        split: option.splits prod.splits sum.splits if_splits)

lemma dei_wonr_read_name_len_inv:
  assumes "dec_stable P" "P dec"
  shows "step_inv P (dei_wonr_read_name_len prefix_bits dec buf)"
  unfolding dei_wonr_read_name_len_def
  by (rule dei_read_int_inv [OF assms])
     (use assms in \<open>auto simp add: Let_def dec_stable_es [OF assms(1)] dec_stable_upd_es [OF assms(1)] dec_stable_mem [OF assms(1)] dec_stable_alloc [OF assms(1)] split: option.splits prod.splits\<close>)

lemma dei_wonr_read_huffman_inv:
  assumes "dec_stable P" "P dec"
  shows "step_inv P (dei_wonr_read_huffman is_value dec buf)"
  using assms
  by (auto simp add: dei_wonr_read_huffman_def Let_def dei_push_inv dec_stable_es [OF assms(1)] dec_stable_upd_es [OF assms(1)] dec_stable_mem [OF assms(1)] dec_stable_alloc [OF assms(1)]
        split: option.splits prod.splits huff_dec_status.splits)

lemma dei_wonr_read_plain_inv:
  assumes "dec_stable P" "P dec"
  shows "step_inv P (dei_wonr_read_plain is_value dec buf)"
  using assms
  by (auto simp add: dei_wonr_read_plain_def Let_def dei_push_inv dec_stable_es [OF assms(1)] dec_stable_upd_es [OF assms(1)] dec_stable_mem [OF assms(1)] dec_stable_alloc [OF assms(1)]
        split: option.splits prod.splits sum.splits if_splits)

lemma dei_wonr_read_val_len_inv:
  assumes "dec_stable P" "P dec"
  shows "step_inv P (dei_wonr_read_val_len prefix_bits dec buf)"
  unfolding dei_wonr_read_val_len_def
  by (rule dei_read_int_inv [OF assms]) (use assms in \<open>simp add: dec_stable_upd_es [OF assms(1)]\<close>)

lemma dei_dup_read_idx_inv:
  assumes "dec_stable P" "P dec"
  shows "step_inv P (dei_dup_read_idx prefix_bits dec buf)"
  unfolding dei_dup_read_idx_def
  by (rule dei_read_int_inv [OF assms])
     (use assms in \<open>auto simp add: Let_def dec_stable_es [OF assms(1)] dec_stable_upd_es [OF assms(1)] dec_stable_mem [OF assms(1)] dec_stable_alloc [OF assms(1)] dei_push_inv split: option.splits prod.splits\<close>)

lemma dei_size_upd_read_idx_inv:
  assumes "dec_stable P" "P dec"
  shows "step_inv P (dei_size_upd_read_idx prefix_bits dec buf)"
  unfolding dei_size_upd_read_idx_def
proof (rule dei_read_int_inv [OF assms])
  fix v rest
  let ?d = "upd_es (\<lambda>s. s\<lparr>dei_resume := DEI_NEXT_INST\<rparr>) (upd_es (\<lambda>s. s\<lparr>tbsz_new_size := v\<rparr>) dec)"
  have p: "P ?d" using assms by (simp add: dec_stable_upd_es [OF assms(1)])
  have "P d'" if "qdec_update_max_capacity ?d (ucast v) = Some d'" for d'
    using assms(1) p that by (rule dec_stable_update)
  then show "step_inv P
        (let dec1 = upd_es (\<lambda>s. s\<lparr>tbsz_new_size := v\<rparr>) dec
         in if v \<le> ucast (qpd_max_capacity dec1)
            then case qdec_update_max_capacity (upd_es (\<lambda>s. s\<lparr>dei_resume := DEI_NEXT_INST\<rparr>) dec1) (ucast v) of
                 None \<Rightarrow> DEC_UNDEF | Some dec2 \<Rightarrow> DEC_CONT dec2 rest
            else DEC_RETURN (- 1) dec1)"
    using assms by (auto simp add: Let_def dec_stable_upd_es [OF assms(1)] split: option.splits)
qed

lemma dec_enc_in_step_inv:
  assumes "dec_stable P" "P dec"
  shows "step_inv P (dec_enc_in_step dec buf)"
  using assms
  by (simp add: dec_enc_in_step_def Let_def dec_stable_upd_es [OF assms(1)] dei_winr_read_name_idx_inv dei_winr_read_val_len_inv
        dei_winr_read_value_huffman_inv dei_winr_read_value_plain_inv dei_wonr_read_name_len_inv
        dei_wonr_read_huffman_inv dei_wonr_read_plain_inv dei_wonr_read_val_len_inv
        dei_dup_read_idx_inv dei_size_upd_read_idx_inv split: dei_state.splits)

lemma lsqpack_dec_enc_in_inv_aux:
  assumes "dec_stable P" "lsqpack_dec_enc_in dec buf = Some y"
  shows "P dec \<longrightarrow> P (snd y)"
proof (rule lsqpack_dec_enc_in.raw_induct [where P = "\<lambda>dec buf y. P dec \<longrightarrow> P (snd y)", OF _ assms(2)])
  fix f dec buf y
  assume ih: "\<And>d b y. f d b = Some y \<Longrightarrow> P d \<longrightarrow> P (snd y)"
    and eq: "(if buf = [] then Some (0, dec)
              else case dec_enc_in_step dec buf of
                     DEC_UNDEF \<Rightarrow> None
                   | DEC_RETURN r dec' \<Rightarrow> Some (r, dec')
                   | DEC_CONT dec' buf' \<Rightarrow> f dec' buf') = Some y"
  show "P dec \<longrightarrow> P (snd y)"
  proof
    assume p: "P dec"
    show "P (snd y)"
    proof (cases "buf = []")
      case True
      then show ?thesis using eq p by auto
    next
      case False
      note st = dec_enc_in_step_inv [OF assms(1) p, of buf]
      show ?thesis
      proof (cases "dec_enc_in_step dec buf")
        case DEC_UNDEF
        then show ?thesis using eq False by simp
      next
        case (DEC_RETURN r d)
        then show ?thesis using eq False st by auto
      next
        case (DEC_CONT d b)
        then have e: "f d b = Some y" using eq False by simp
        from st DEC_CONT have "P d" by simp
        with ih [OF e] show ?thesis by blast
      qed
    qed
  qed
qed

lemma lsqpack_dec_enc_in_inv:
  assumes "dec_stable P" "P dec" "lsqpack_dec_enc_in dec buf = Some (r, dec')"
  shows "P dec'"
  using lsqpack_dec_enc_in_inv_aux [OF assms(1,3)] assms(2) by simp

section \<open>Decoder: the accounting of the dynamic table\<close>

lemma length_arr_entries: "arr_wf a \<Longrightarrow> length (arr_entries a) = arr_nelem a"
  by (auto simp add: arr_wf_def arr_entries_def)

lemma take_Suc_drop_update:
  assumes "k + n < length xs"
  shows "take (Suc n) (drop k (xs[k + n := v])) = take n (drop k xs) @ [v]"
proof -
  have "take (Suc n) (drop k (xs[k + n := v])) = take (Suc n) ((drop k xs)[n := v])"
    by (simp add: drop_update_swap)
  also have "\<dots> = take n (drop k xs) @ [v]"
    using assms by (simp add: take_Suc_conv_app_nth take_update_cancel)
  finally show ?thesis .
qed

lemma take_Suc_append_update:
  assumes "length ys = n" "zs \<noteq> []"
  shows "take (Suc n) ((ys @ zs)[n := v]) = ys @ [v]"
  using assms by (cases zs) (simp_all add: list_update_append)

lemma lsqpack_arr_push_spec:
  assumes "arr_wf a" "lsqpack_arr_push malloc_ok a v = (r, a')"
  shows "arr_wf a' \<and> (r = 0 \<longrightarrow> arr_entries a' = arr_entries a @ [Some v])
         \<and> (r \<noteq> 0 \<longrightarrow> a' = a)"
proof -
  let ?n = "arr_nelem a" and ?k = "arr_off a" and ?xs = "arr_els a"
  from assms(1) have wf: "?k + ?n \<le> length ?xs" "length ?xs = arr_nalloc a"
    "None \<notin> set (take ?n (drop ?k ?xs))"
    by (simp_all add: arr_wf_def arr_entries_def)
  have len: "length (take ?n (drop ?k ?xs)) = ?n" using wf(1) by simp
  consider (slot) "?k + ?n < arr_nalloc a"
    | (move) "\<not> ?k + ?n < arr_nalloc a" "arr_nalloc a div 2 < ?k"
    | (fail) "\<not> ?k + ?n < arr_nalloc a" "\<not> arr_nalloc a div 2 < ?k" "\<not> malloc_ok"
    | (grow) "\<not> ?k + ?n < arr_nalloc a" "\<not> arr_nalloc a div 2 < ?k" "malloc_ok"
    by blast
  then show ?thesis
  proof cases
    case slot
    then have a': "a' = a\<lparr>arr_els := ?xs[?k + ?n := Some v], arr_nelem := ?n + 1\<rparr>" and r: "r = 0"
      using assms(2) by (simp_all add: lsqpack_arr_push_def)
    have e: "arr_entries a' = arr_entries a @ [Some v]"
      using slot wf(2) by (simp add: a' arr_entries_def take_Suc_drop_update)
    then show ?thesis using slot wf r by (simp add: arr_wf_def a' arr_entries_def)
  next
    case move
    let ?ys = "take ?n (drop ?k ?xs)"
    from move wf have nz: "drop ?n ?xs \<noteq> []" by simp
    have a': "a' = a\<lparr>arr_els := (?ys @ drop ?n ?xs)[?n := Some v], arr_off := 0, arr_nelem := ?n + 1\<rparr>"
      and r: "r = 0"
      using move assms(2) by (simp_all add: lsqpack_arr_push_def)
    have e: "arr_entries a' = arr_entries a @ [Some v]"
      using take_Suc_append_update [OF len nz] by (simp add: a' arr_entries_def)
    have "length ((?ys @ drop ?n ?xs)[?n := Some v]) = length ?xs" using wf(1) by simp
    moreover have "Suc ?n \<le> length ?xs" using nz by (simp add: Suc_le_eq)
    ultimately show ?thesis using e wf r by (simp add: arr_wf_def a' arr_entries_def)
  next
    case fail
    then show ?thesis using assms by (simp add: lsqpack_arr_push_def Let_def)
  next
    case grow
    let ?ys = "take ?n (drop ?k ?xs)"
    let ?m = "if arr_nalloc a \<noteq> 0 then arr_nalloc a * 2 else 64"
    have m: "?n < ?m" using wf(1,2) by (auto split: if_splits)
    then have nz: "replicate (?m - ?n) (None :: lsqpack_dec_table_entry option) \<noteq> []" by simp
    have a': "a' = \<lparr>arr_nalloc = ?m, arr_off = 0, arr_nelem = ?n + 1,
                    arr_els = (?ys @ replicate (?m - ?n) None)[?n := Some v]\<rparr>"
      and r: "r = 0"
      using grow assms(2) by (simp_all add: lsqpack_arr_push_def Let_def)
    have e: "arr_entries a' = arr_entries a @ [Some v]"
      using take_Suc_append_update [OF len nz] by (simp add: a' arr_entries_def)
    have "length ((?ys @ replicate (?m - ?n) None)[?n := Some v]) = ?m" using m wf(1) by simp
    then show ?thesis using e wf r m by (simp add: arr_wf_def a' arr_entries_def Suc_le_eq)
  qed
qed

lemma lsqpack_arr_shift_spec:
  assumes "arr_wf a" "0 < arr_nelem a"
  shows "\<exists>e a'. lsqpack_arr_shift a = Some (e, a') \<and> arr_entries a = Some e # arr_entries a'
           \<and> arr_wf a' \<and> arr_nelem a' = arr_nelem a - 1"
proof -
  let ?n = "arr_nelem a" and ?k = "arr_off a" and ?xs = "arr_els a"
  from assms have wf: "?k + ?n \<le> length ?xs" "length ?xs = arr_nalloc a"
    "None \<notin> set (take ?n (drop ?k ?xs))" and k: "?k < length ?xs"
    by (simp_all add: arr_wf_def arr_entries_def)
  obtain m where n: "?n = Suc m" using assms(2) by (cases ?n) simp_all
  have d: "drop ?k ?xs = ?xs ! ?k # drop (Suc ?k) ?xs" using k by (simp add: Cons_nth_drop_Suc)
  have t: "take ?n (drop ?k ?xs) = ?xs ! ?k # take m (drop (Suc ?k) ?xs)"
    by (subst d) (simp add: n)
  with wf(3) obtain e where e: "?xs ! ?k = Some e" by (cases "?xs ! ?k") auto
  show ?thesis
    using e t wf n k assms(2)
    by (simp add: lsqpack_arr_shift_def arr_entries_def arr_wf_def)
qed


lemma qdec_drop_oldest_entry_spec:
  assumes "dec_table_sum32 dec" "0 < arr_nelem (qpd_dyn_table dec)"
  shows "\<exists>dec'. qdec_drop_oldest_entry dec = Some dec' \<and> dec_table_sum32 dec'
           \<and> arr_nelem (qpd_dyn_table dec') = arr_nelem (qpd_dyn_table dec) - 1
           \<and> qpd_cur_max_capacity dec' = qpd_cur_max_capacity dec"
proof -
  from assms(1) have wf: "arr_wf (qpd_dyn_table dec)" by (simp add: dec_table_sum32_def)
  from lsqpack_arr_shift_spec [OF wf assms(2)] obtain e a'
    where s: "lsqpack_arr_shift (qpd_dyn_table dec) = Some (e, a')"
      and en: "arr_entries (qpd_dyn_table dec) = Some e # arr_entries a'"
      and wf': "arr_wf a'" and n: "arr_nelem a' = arr_nelem (qpd_dyn_table dec) - 1"
    by blast
  let ?dec' = "dec\<lparr>qpd_dyn_table := a', qpd_cur_capacity := qpd_cur_capacity dec - DTE_SIZE e,
                    qpd_del_count := qpd_del_count dec + 1\<rparr>"
  have d: "qdec_drop_oldest_entry dec = Some ?dec'" by (simp add: qdec_drop_oldest_entry_def s)
  have es: "dec_entries dec = e # dec_entries ?dec'" by (simp add: dec_entries_def en)
  have "dec_table_sum32 ?dec'"
    using assms(1) wf' by (simp add: dec_table_sum32_def es) (simp add: dec_entries_def)
  then show ?thesis using d n by simp
qed

lemma dec_table_sum32_empty:
  assumes "dec_table_sum32 dec" "arr_nelem (qpd_dyn_table dec) = 0"
  shows "qpd_cur_capacity dec = 0"
proof -
  from assms have "arr_entries (qpd_dyn_table dec) = []"
    using length_arr_entries [of "qpd_dyn_table dec"] by (simp add: dec_table_sum32_def)
  then show ?thesis using assms(1) by (simp add: dec_table_sum32_def dec_entries_def)
qed

lemma qdec_remove_overflow_entries_spec:
  assumes "dec_table_sum32 dec"
  shows "\<exists>dec'. qdec_remove_overflow_entries dec = Some dec' \<and> dec_table_inv32 dec'
           \<and> qpd_cur_max_capacity dec' = qpd_cur_max_capacity dec"
  using assms
proof (induction "arr_nelem (qpd_dyn_table dec)" arbitrary: dec)
  case 0
  then have "qpd_cur_capacity dec = 0" using dec_table_sum32_empty by simp
  then show ?case using 0
    by (simp add: qdec_remove_overflow_entries.simps [of dec] dec_table_inv32_def)
next
  case (Suc n)
  show ?case
  proof (cases "qpd_cur_max_capacity dec < qpd_cur_capacity dec")
    case False
    then have le: "qpd_cur_capacity dec \<le> qpd_cur_max_capacity dec" by simp
    show ?thesis using False Suc(3) le
      by (simp add: qdec_remove_overflow_entries.simps [of dec] dec_table_inv32_def)
  next
    case True
    have "0 < arr_nelem (qpd_dyn_table dec)" using Suc(2) by simp
    from qdec_drop_oldest_entry_spec [OF Suc(3) this] obtain dec1
      where d: "qdec_drop_oldest_entry dec = Some dec1" "dec_table_sum32 dec1"
        "arr_nelem (qpd_dyn_table dec1) = arr_nelem (qpd_dyn_table dec) - 1"
        "qpd_cur_max_capacity dec1 = qpd_cur_max_capacity dec"
      by blast
    have "n = arr_nelem (qpd_dyn_table dec1)" using d(3) Suc(2) by simp
    from Suc(1) [OF this d(2)] show ?thesis using True d
      by (simp add: qdec_remove_overflow_entries.simps [of dec])
  qed
qed

lemma qdec_update_max_capacity_spec:
  assumes "dec_table_sum32 dec"
  shows "\<exists>dec'. qdec_update_max_capacity dec c = Some dec' \<and> dec_table_inv32 dec'
           \<and> qpd_cur_max_capacity dec' = c"
proof -
  have "dec_table_sum32 (dec\<lparr>qpd_cur_max_capacity := c\<rparr>)"
    using assms by (simp add: dec_table_sum32_def dec_entries_def)
  from qdec_remove_overflow_entries_spec [OF this] show ?thesis
    by (simp add: qdec_update_max_capacity_def)
qed

lemma lsqpack_dec_set_max_capacity_spec:
  assumes "dec_table_sum32 dec"
  shows "\<exists>dec'. lsqpack_dec_set_max_capacity dec c = Some dec' \<and> dec_table_inv32 dec'
           \<and> qpd_cur_max_capacity dec' = c"
proof -
  have "dec_table_sum32 (dec\<lparr>qpd_max_capacity := c\<rparr>)"
    using assms by (simp add: dec_table_sum32_def dec_entries_def)
  from qdec_update_max_capacity_spec [OF this] show ?thesis
    by (simp add: lsqpack_dec_set_max_capacity_def)
qed

text \<open>Waking blocked header blocks leaves the table alone.\<close>

lemma qdec_process_blocked_headers_table:
  "qdec_process_blocked_headers dec = Some dec' \<Longrightarrow>
     qpd_dyn_table dec' = qpd_dyn_table dec \<and> qpd_cur_capacity dec' = qpd_cur_capacity dec
     \<and> qpd_cur_max_capacity dec' = qpd_cur_max_capacity dec
     \<and> qpd_ins_count dec' = qpd_ins_count dec \<and> qpd_del_count dec' = qpd_del_count dec"
proof (induction dec rule: qdec_process_blocked_headers.induct)
  case (1 dec)
  show ?case
  proof (cases "mh_pop (qpd_blocked_headers dec) (qpd_ins_count dec)")
    case None
    then show ?thesis using 1(2) by (simp add: qdec_process_blocked_headers.simps [of dec])
  next
    case (Some x)
    obtain p heap where x: "x = (p, heap)" by (cases x)
    show ?thesis
    proof (cases p)
      case None
      then show ?thesis using 1(2) Some x
        by (auto simp add: qdec_process_blocked_headers.simps [of dec])
    next
      case (Some a)
      note a = Some
      show ?thesis
      proof (cases "qpd_store dec a")
        case None
        then show ?thesis using 1(2) \<open>mh_pop _ _ = Some x\<close> x a
          by (simp add: qdec_process_blocked_headers.simps [of dec])
      next
        case (Some read_ctx)
        show ?thesis
        proof (cases "mh_nelem heap < mh_nelem (qpd_blocked_headers dec)")
          case False
          then show ?thesis using 1(2) \<open>mh_pop _ _ = Some x\<close> x a Some
            by (simp add: qdec_process_blocked_headers.simps [of dec])
        next
          case True
          let ?d = "dec\<lparr>qpd_blocked_headers := heap,
                        qpd_store := (qpd_store dec)(a \<mapsto> read_ctx\<lparr>hbrc_blocked := False\<rparr>),
                        qpd_wantread_calls := qpd_wantread_calls dec @ [(hbrc_stream read_ctx, True)]\<rparr>"
          have "qdec_process_blocked_headers ?d = Some dec'"
            using 1(2) \<open>mh_pop _ _ = Some x\<close> x a Some True
            by (simp add: qdec_process_blocked_headers.simps [of dec])
          from 1(1) [OF \<open>mh_pop _ _ = Some x\<close> x [symmetric] a Some True this]
          show ?thesis by simp
        qed
      qed
    qed
  qed
qed

lemma dec_table_inv32_cong:
  assumes "qpd_dyn_table dec' = qpd_dyn_table dec" "qpd_cur_capacity dec' = qpd_cur_capacity dec"
    "qpd_cur_max_capacity dec' = qpd_cur_max_capacity dec"
    "qpd_ins_count dec' = qpd_ins_count dec" "qpd_del_count dec' = qpd_del_count dec"
  shows "dec_table_inv32 dec' = dec_table_inv32 dec"
  using assms by (simp add: dec_table_inv32_def dec_table_sum32_def dec_entries_def)

lemma alloc_table:
  assumes "alloc dec = (b, dec')"
  shows "dec_table_inv32 dec' = dec_table_inv32 dec"
proof (cases "qpd_mem dec")
  case Nil
  then show ?thesis using assms by (simp add: alloc_def)
next
  case (Cons x xs)
  then have "dec' = dec\<lparr>qpd_mem := xs\<rparr>" using assms by (simp add: alloc_def)
  then show ?thesis by (intro dec_table_inv32_cong) simp_all
qed

lemma lsqpack_dec_push_entry_table:
  assumes "dec_table_inv32 dec" "lsqpack_dec_push_entry dec entry = Some (r, dec')"
  shows "dec_table_inv32 dec'"
proof -
  obtain b dec0 where al: "alloc dec = (b, dec0)" by (cases "alloc dec")
  obtain r0 arr where pu: "lsqpack_arr_push b (qpd_dyn_table dec0) entry = (r0, arr)"
    by (cases "lsqpack_arr_push b (qpd_dyn_table dec0) entry")
  have i0: "dec_table_inv32 dec0" using assms(1) alloc_table [OF al] by simp
  then have wf: "arr_wf (qpd_dyn_table dec0)" by (simp add: dec_table_inv32_def dec_table_sum32_def)
  note sp = lsqpack_arr_push_spec [OF wf pu]
  show ?thesis
  proof (cases "r0 = 0")
    case False
    then have "dec' = dec0\<lparr>qpd_dyn_table := arr\<rparr>" using assms(2) al pu
      by (simp add: lsqpack_dec_push_entry_def)
    moreover have "arr = qpd_dyn_table dec0" using sp False by simp
    ultimately have "dec' = dec0" by simp
    then show ?thesis using i0 by simp
  next
    case True
    let ?d = "dec0\<lparr>qpd_dyn_table := arr,
                    qpd_cur_capacity := qpd_cur_capacity dec0 + DTE_SIZE entry,
                    qpd_ins_count := qpd_ins_count dec0 + 1\<rparr>"
    have en: "arr_entries arr = arr_entries (qpd_dyn_table dec0) @ [Some entry]" and wf': "arr_wf arr"
      using sp True by simp_all
    have s: "dec_table_sum32 ?d"
      using i0 wf' by (simp add: dec_table_inv32_def dec_table_sum32_def dec_entries_def en)
    from qdec_remove_overflow_entries_spec [OF s] obtain dec1
      where ro: "qdec_remove_overflow_entries ?d = Some dec1" and i1: "dec_table_inv32 dec1"
      by blast
    from assms(2) al pu True ro obtain dec2
      where pb: "qdec_process_blocked_headers dec1 = Some dec2" and d': "dec' = dec2"
      by (auto simp add: lsqpack_dec_push_entry_def split: option.splits)
    have "dec_table_inv32 dec2 = dec_table_inv32 dec1"
      using qdec_process_blocked_headers_table [OF pb] by (intro dec_table_inv32_cong) simp_all
    then show ?thesis using i1 d' by simp
  qed
qed

lemma dec_table_inv32_stable: "dec_stable dec_table_inv32"
  unfolding dec_stable_def
proof (intro conjI allI impI)
  fix s d show "dec_table_inv32 (d\<lparr>qpd_enc_state := s\<rparr>) = dec_table_inv32 d"
    by (intro dec_table_inv32_cong) simp_all
next
  fix m d show "dec_table_inv32 (d\<lparr>qpd_mem := m\<rparr>) = dec_table_inv32 d"
    by (intro dec_table_inv32_cong) simp_all
next
  fix d e r d' assume "dec_table_inv32 d" "lsqpack_dec_push_entry d e = Some (r, d')"
  then show "dec_table_inv32 d'" by (rule lsqpack_dec_push_entry_table)
next
  fix d c d' assume "dec_table_inv32 d" "qdec_update_max_capacity d c = Some d'"
  then show "dec_table_inv32 d'"
    using qdec_update_max_capacity_spec [of d c] by (auto simp add: dec_table_inv32_def)
qed

lemma lsqpack_dec_init_table: "dec_table_inv32 (lsqpack_dec_init mem dyn_table_size max_risked_streams)"
  by (simp add: lsqpack_dec_init_def dec_table_inv32_def dec_table_sum32_def dec_entries_def
        arr_wf_def arr_entries_def lsqpack_arr_init_def)


lemma unat_sum_list_no_wrap:
  fixes ws :: "unsigned list"
  shows "sum_list (map unat ws) < 2 ^ 32 \<Longrightarrow> unat (sum_list ws) = sum_list (map unat ws)"
proof (induction ws)
  case Nil
  then show ?case by simp
next
  case (Cons w ws)
  then have ih: "unat (sum_list ws) = sum_list (map unat ws)" by simp
  have "unat w + unat (sum_list ws) < 2 ^ 32" using Cons(2) ih by simp
  then have "unat (w + sum_list ws) = unat w + unat (sum_list ws)"
    by (simp add: unat_add_lem [THEN iffD1])
  then show ?case using ih by simp
qed

text \<open>
  The accounting modulo \<open>2^32\<close> is kept: whatever bytes \<open>lsqpack_dec_enc_in\<close> is given
  (insertions with or without name reference, duplications, size updates, complete or
  not), \<open>dec_table_inv32\<close> holds again when the call returns;
  \<open>lsqpack_dec_set_max_capacity\<close> always returns, with \<open>dec_table_inv32\<close> and the new
  maximum.
\<close>

lemma dec_table_inv32_kept:
  assumes "dec_table_inv32 dec"
  shows "lsqpack_dec_enc_in dec buf = Some (r, dec') \<Longrightarrow> dec_table_inv32 dec'"
    and "\<exists>dec2. lsqpack_dec_set_max_capacity dec c = Some dec2 \<and> dec_table_inv32 dec2
                    \<and> qpd_cur_max_capacity dec2 = c"
proof -
  assume "lsqpack_dec_enc_in dec buf = Some (r, dec')"
  with dec_table_inv32_stable assms show "dec_table_inv32 dec'" by (rule lsqpack_dec_enc_in_inv)
next
  from assms have "dec_table_sum32 dec" by (simp add: dec_table_inv32_def)
  then show "\<exists>dec2. lsqpack_dec_set_max_capacity dec c = Some dec2 \<and> dec_table_inv32 dec2
                    \<and> qpd_cur_max_capacity dec2 = c"
    by (rule lsqpack_dec_set_max_capacity_spec)
qed



text \<open>
  Claim C9, evaluated on the code.  A decoder with a table of 4096 bytes reads two
  insertions of 38 bytes each: the accounting over the natural numbers holds, with a
  current capacity of 76.  \<open>lsqpack_dec_push_entry\<close> then pushes an entry whose name has 3
  bytes and whose value has 4294967196 bytes, of size 4294967231: the function returns
  0, the 32-bit sum wraps to 11, which is below the maximum of 4096, so nothing is
  evicted: the table holds three entries whose sizes add up to 4294967307, while
  \<open>qpd_cur_capacity\<close> is 11.
\<close>

theorem dec_table_accounting_wraps:
  "(case lsqpack_dec_enc_in dec_started two_inserts of
      None \<Rightarrow> False
    | Some (r, dec) \<Rightarrow>
        r = 0 \<and> dec_accounting_inv dec \<and> map dec_entry_size (dec_entries dec) = [38, 38]
        \<and> unat (qpd_cur_capacity dec) = 76
        \<and> (case lsqpack_dec_push_entry dec huge_entry of
              None \<Rightarrow> False
            | Some (r', dec') \<Rightarrow>
                r' = 0 \<and> map dec_entry_size (dec_entries dec') = [38, 38, 4294967231]
                \<and> sum_list (map dec_entry_size (dec_entries dec')) = 4294967307
                \<and> unat (qpd_cur_capacity dec') = 11 \<and> qpd_cur_max_capacity dec' = 4096
                \<and> qpd_ins_count dec' = 3 \<and> qpd_del_count dec' = 0
                \<and> \<not> dec_accounting_inv dec'))"
proof -
  have ev: "(case lsqpack_dec_enc_in dec_started two_inserts of
      None \<Rightarrow> False
    | Some (r, dec) \<Rightarrow>
        r = 0 \<and> map (\<lambda>e. (dte_name_len e, dte_val_len e)) (dec_entries dec) = [(3, 3), (3, 3)]
        \<and> qpd_cur_capacity dec = 76 \<and> qpd_cur_max_capacity dec = 4096
        \<and> qpd_ins_count dec = 2 \<and> qpd_del_count dec = 0
        \<and> (case lsqpack_dec_push_entry dec huge_entry of
              None \<Rightarrow> False
            | Some (r', dec') \<Rightarrow>
                r' = 0
                \<and> map (\<lambda>e. (dte_name_len e, dte_val_len e)) (dec_entries dec')
                    = [(3, 3), (3, 3), (3, 4294967196)]
                \<and> qpd_cur_capacity dec' = 11 \<and> qpd_cur_max_capacity dec' = 4096
                \<and> qpd_ins_count dec' = 3 \<and> qpd_del_count dec' = 0))"
    by code_simp
  then obtain r dec where e: "lsqpack_dec_enc_in dec_started two_inserts = Some (r, dec)"
    by (auto split: option.splits)
  from ev e obtain r' dec' where p: "lsqpack_dec_push_entry dec huge_entry = Some (r', dec')"
    by (auto split: option.splits)
  from ev e p have r: "r = 0" "r' = 0"
    and l2: "map (\<lambda>e. (dte_name_len e, dte_val_len e)) (dec_entries dec) = [(3, 3), (3, 3)]"
    and c2: "qpd_cur_capacity dec = 76" "qpd_cur_max_capacity dec = 4096"
      "qpd_ins_count dec = 2" "qpd_del_count dec = 0"
    and l3: "map (\<lambda>e. (dte_name_len e, dte_val_len e)) (dec_entries dec')
               = [(3, 3), (3, 3), (3, 4294967196)]"
    and c3: "qpd_cur_capacity dec' = 11" "qpd_cur_max_capacity dec' = 4096"
      "qpd_ins_count dec' = 3" "qpd_del_count dec' = 0"
    by simp_all
  have sz: "map dec_entry_size es = map (\<lambda>p. unat (fst p) + unat (snd p) + 32)
               (map (\<lambda>e. (dte_name_len e, dte_val_len e)) es)" for es
    by (simp add: dec_entry_size_def comp_def)
  have s2: "map dec_entry_size (dec_entries dec) = [38, 38]"
    unfolding sz l2 by simp
  have s3: "map dec_entry_size (dec_entries dec') = [38, 38, 4294967231]"
    unfolding sz l3 by simp
  have n2: "length (dec_entries dec) = 2"
    using arg_cong [OF s2, of length] by simp
  have i2: "dec_accounting_inv dec"
    unfolding dec_accounting_inv_def s2 c2 n2 by simp
  have i3: "\<not> dec_accounting_inv dec'"
    unfolding dec_accounting_inv_def s3 c3 by simp
  show ?thesis
    using e p r s2 s3 c2 c3 i2 i3 by simp
qed

end
